(* ===== verification/Blackout_Prelude.thy ===== *)
theory Blackout_Prelude
  imports Main "HOL-Library.Multiset"
begin

text \<open>
  Shared vocabulary of the development: the result type of the service layer,
  JavaScript truthiness of optional strings, JavaScript integer division and
  rounding on exact integers, stable descending sorts, and the list lemmas the
  component theories use.
\<close>

section \<open>Collections of rewrite rules\<close>

named_theorems db_simps \<open>field lookups after a table update\<close>
named_theorems guard_defs \<open>definitions of the guards the handlers test\<close>
named_theorems op_defs \<open>definitions of the state-changing operations\<close>

section \<open>Results, truthiness, numbers\<close>

text \<open>An identifier or an ISO timestamp, as the code keeps them: a string.\<close>

type_synonym ident = string
type_synonym iso = string

text \<open>
  An optional string is truthy in JavaScript when it is present and not empty.
\<close>

definition truthy :: "string option \<Rightarrow> bool" where
  "truthy s = (case s of None \<Rightarrow> False | Some t \<Rightarrow> t \<noteq> [])"

lemma truthy_simps [simp]:
  "\<not> truthy None" "truthy (Some t) \<longleftrightarrow> t \<noteq> []"
  by (simp_all add: truthy_def)

text \<open>
  \<^verbatim>\<open>Math.round(a / b)\<close> on exact integers: the nearest integer, ties upwards.
\<close>

definition js_round_div :: "int \<Rightarrow> int \<Rightarrow> int" where
  "js_round_div a b = (2 * a + b) div (2 * b)"

text \<open>\<^verbatim>\<open>a % b\<close>: the remainder has the sign of the dividend.\<close>

definition js_rem :: "int \<Rightarrow> int \<Rightarrow> int" where
  "js_rem a b = sgn a * (\<bar>a\<bar> mod \<bar>b\<bar>)"

lemma js_rem_nonneg [simp]: "0 \<le> a \<Longrightarrow> 0 < b \<Longrightarrow> js_rem a b = a mod b"
  by (cases "a = 0") (auto simp: js_rem_def sgn_if)

lemma js_round_div_bounds:
  assumes "0 < b"
  shows "2 * b * js_round_div a b \<le> 2 * a + b" and "2 * a + b < 2 * b * js_round_div a b + 2 * b"
proof -
  have eq: "2 * b * js_round_div a b = (2 * a + b) - (2 * a + b) mod (2 * b)"
    unfolding js_round_div_def by (rule minus_mod_eq_mult_div [symmetric])
  have "0 \<le> (2 * a + b) mod (2 * b)" "(2 * a + b) mod (2 * b) < 2 * b"
    using assms by simp_all
  with eq show "2 * b * js_round_div a b \<le> 2 * a + b"
    and "2 * a + b < 2 * b * js_round_div a b + 2 * b"
    by linarith+
qed

lemma js_round_div_nonneg: "0 \<le> a \<Longrightarrow> 0 < b \<Longrightarrow> 0 \<le> js_round_div a b"
  by (simp add: js_round_div_def pos_imp_zdiv_nonneg_iff)

lemma js_round_div_mono: "a \<le> a' \<Longrightarrow> 0 < b \<Longrightarrow> js_round_div a b \<le> js_round_div a' b"
  by (simp add: js_round_div_def zdiv_mono1)

lemma js_round_div_mult: "0 < b \<Longrightarrow> js_round_div (c * b) b = c"
proof -
  assume b: "0 < b"
  have eq: "2 * (c * b) + b = b + c * (2 * b)" by simp
  have "(b + c * (2 * b)) div (2 * b) = c + b div (2 * b)"
    using b by (intro div_mult_self1) simp
  moreover have "b div (2 * b) = 0"
    using b by (simp add: zdiv_eq_0_iff)
  ultimately show ?thesis
    unfolding js_round_div_def eq by simp
qed

section \<open>Lists\<close>

text \<open>\<^verbatim>\<open>[...xs].sort((a, b) => key(b) - key(a))\<close>: stable, largest first.\<close>

definition sort_desc :: "('a \<Rightarrow> int) \<Rightarrow> 'a list \<Rightarrow> 'a list" where
  "sort_desc key xs = sort_key (\<lambda>x. - key x) xs"

lemma mset_sort_desc [simp]: "mset (sort_desc key xs) = mset xs"
  by (simp add: sort_desc_def)

lemma set_sort_desc [simp]: "set (sort_desc key xs) = set xs"
  by (simp add: sort_desc_def)

lemma length_sort_desc [simp]: "length (sort_desc key xs) = length xs"
  by (simp add: sort_desc_def)

lemma distinct_sort_desc [simp]: "distinct (sort_desc key xs) = distinct xs"
  by (simp add: sort_desc_def)

lemma sorted_sort_desc: "sorted (map (\<lambda>x. - key x) (sort_desc key xs))"
  by (simp add: sort_desc_def)

lemma sort_desc_nth_mono:
  assumes "i \<le> j" and "j < length xs"
  shows "key (sort_desc key xs ! j) \<le> key (sort_desc key xs ! i)"
proof -
  have "map (\<lambda>x. - key x) (sort_desc key xs) ! i \<le> map (\<lambda>x. - key x) (sort_desc key xs) ! j"
    using sorted_sort_desc [of key xs] assms by (simp add: sorted_iff_nth_mono)
  with assms show ?thesis by simp
qed

text \<open>\<^verbatim>\<open>xs.find(p)\<close> is the library's \<open>find\<close>.\<close>

lemma find_SomeD: "find P xs = Some x \<Longrightarrow> x \<in> set xs \<and> P x"
  by (induction xs) (auto split: if_splits)

lemma find_NoneD: "find P xs = None \<Longrightarrow> x \<in> set xs \<Longrightarrow> \<not> P x"
  by (induction xs) (auto split: if_splits)

lemma find_unique:
  assumes "x \<in> set xs" "P x" "\<And>y. y \<in> set xs \<Longrightarrow> P y \<Longrightarrow> y = x"
  shows "find P xs = Some x"
proof (cases "find P xs")
  case None
  with assms(1,2) show ?thesis by (metis find_NoneD)
next
  case (Some y)
  then have "y \<in> set xs \<and> P y" by (rule find_SomeD)
  with assms(3) Some show ?thesis by metis
qed

text \<open>Pointwise updates at one position change a sum by the difference.\<close>

lemma sum_list_update_int:
  fixes xs :: "int list"
  assumes "i < length xs"
  shows "sum_list (xs[i := v]) = sum_list xs - xs ! i + v"
  using assms
proof (induction xs arbitrary: i)
  case Nil
  then show ?case by simp
next
  case (Cons x xs)
  show ?case
  proof (cases i)
    case 0
    then show ?thesis by simp
  next
    case (Suc j)
    with Cons.prems have "sum_list (xs[j := v]) = sum_list xs - xs ! j + v"
      by (intro Cons.IH) simp
    with Suc show ?thesis by simp
  qed
qed

lemma length_filter_mono:
  "(\<And>x. x \<in> set xs \<Longrightarrow> P x \<Longrightarrow> Q x) \<Longrightarrow> length (filter P xs) \<le> length (filter Q xs)"
  by (induction xs) (auto simp: le_SucI)

end
