(* ===== verification/JS_Map.thy ===== *)
theory JS_Map
  imports Blackout_Prelude
begin

text \<open>
  The tables of the in-memory store (\<^verbatim>\<open>db/store.ts\<close>) are JavaScript
  \<^verbatim>\<open>Map\<close>s: iteration follows insertion order, setting an existing key
  keeps its place.  The model is an association list; the locale below is the
  interface the handlers rely on (a table of rows, each stored under a key
  computed from the row).
\<close>

section \<open>The map\<close>

type_synonym ('k, 'v) js_map = "('k \<times> 'v) list"

fun js_get :: "'k \<Rightarrow> ('k, 'v) js_map \<Rightarrow> 'v option" where
  "js_get k [] = None"
| "js_get k ((k', v) # m) = (if k' = k then Some v else js_get k m)"

fun js_set :: "'k \<Rightarrow> 'v \<Rightarrow> ('k, 'v) js_map \<Rightarrow> ('k, 'v) js_map" where
  "js_set k v [] = [(k, v)]"
| "js_set k v ((k', w) # m) = (if k' = k then (k, v) # m else (k', w) # js_set k v m)"

definition js_values :: "('k, 'v) js_map \<Rightarrow> 'v list" where
  "js_values m = map snd m"

definition js_keys :: "('k, 'v) js_map \<Rightarrow> 'k list" where
  "js_keys m = map fst m"

lemma js_get_set [simp]: "js_get k' (js_set k v m) = (if k' = k then Some v else js_get k' m)"
  by (induction m) auto

lemma js_keys_set:
  "js_keys (js_set k v m) = (if k \<in> set (js_keys m) then js_keys m else js_keys m @ [k])"
  by (induction k v m rule: js_set.induct) (simp_all add: js_keys_def)

lemma distinct_js_keys_set: "distinct (js_keys m) \<Longrightarrow> distinct (js_keys (js_set k v m))"
  by (simp add: js_keys_set)

lemma js_get_None_iff: "js_get k m = None \<longleftrightarrow> k \<notin> set (js_keys m)"
  by (induction m) (auto simp: js_keys_def split: if_splits)

lemma js_get_Some_in: "js_get k m = Some v \<Longrightarrow> (k, v) \<in> set m"
  by (induction m) (auto split: if_splits)

lemma js_get_eq_map_of: "js_get k m = map_of m k"
  by (induction m) auto

lemma js_get_iff: "distinct (js_keys m) \<Longrightarrow> js_get k m = Some v \<longleftrightarrow> (k, v) \<in> set m"
  by (simp add: js_get_eq_map_of js_keys_def)

section \<open>Tables of rows\<close>

text \<open>
  A table whose rows are stored under a key of the row.  \<open>put\<close> replaces the
  row with that key in place, or appends it.
\<close>

locale row_table =
  fixes wf :: "'t \<Rightarrow> bool"
    and rows :: "'t \<Rightarrow> 'r list"
    and key :: "'r \<Rightarrow> 'k"
    and lookup :: "'k \<Rightarrow> 't \<Rightarrow> 'r option"
    and put :: "'r \<Rightarrow> 't \<Rightarrow> 't"
  assumes wf_distinct: "wf t \<Longrightarrow> distinct (map key (rows t))"
    and wf_put: "wf t \<Longrightarrow> wf (put r t)"
    and lookup_rows: "wf t \<Longrightarrow> lookup k t = Some r \<longleftrightarrow> r \<in> set (rows t) \<and> key r = k"
    and rows_put_old: "wf t \<Longrightarrow> lookup (key r) t = Some old \<Longrightarrow>
      \<exists>xs ys. rows t = xs @ old # ys \<and> rows (put r t) = xs @ r # ys"
    and rows_put_new: "wf t \<Longrightarrow> lookup (key r) t = None \<Longrightarrow> rows (put r t) = rows t @ [r]"
begin

lemma key_inj: "wf t \<Longrightarrow> r \<in> set (rows t) \<Longrightarrow> s \<in> set (rows t) \<Longrightarrow> key r = key s \<Longrightarrow> r = s"
  using wf_distinct [of t] by (auto simp: distinct_map inj_on_def)

lemma lookup_key: "wf t \<Longrightarrow> r \<in> set (rows t) \<Longrightarrow> lookup (key r) t = Some r"
  by (simp add: lookup_rows)

lemma lookup_None: "wf t \<Longrightarrow> lookup k t = None \<Longrightarrow> r \<in> set (rows t) \<Longrightarrow> key r \<noteq> k"
  using lookup_rows by force

lemma set_rows_put:
  assumes wf: "wf t"
  shows "set (rows (put r t)) = insert r {s \<in> set (rows t). key s \<noteq> key r}"
proof (cases "lookup (key r) t")
  case None
  with wf show ?thesis by (auto simp: rows_put_new lookup_None)
next
  case (Some old)
  then obtain xs ys where eq: "rows t = xs @ old # ys" "rows (put r t) = xs @ r # ys"
    using rows_put_old [OF wf Some] by blast
  have "key old = key r" using Some wf by (simp add: lookup_rows)
  moreover have "\<And>s. s \<in> set xs \<union> set ys \<Longrightarrow> key s \<noteq> key old"
    using wf_distinct [OF wf] eq by (force simp: image_iff)
  ultimately show ?thesis using eq by auto
qed

lemma lookup_put:
  assumes wf: "wf t"
  shows "lookup k (put r t) = (if k = key r then Some r else lookup k t)"
proof (cases "k = key r")
  case True
  then show ?thesis by (simp add: lookup_rows [OF wf_put [OF wf]] set_rows_put [OF wf])
next
  case False
  have "lookup k (put r t) = Some s \<longleftrightarrow> lookup k t = Some s" for s
    using False by (auto simp: lookup_rows [OF wf_put [OF wf]] lookup_rows [OF wf] set_rows_put [OF wf])
  then show ?thesis using False by (cases "lookup k t"; cases "lookup k (put r t)") auto
qed

text \<open>Weighted sums over the rows: what a put adds to a total.\<close>

lemma sum_put_new:
  fixes f :: "'r \<Rightarrow> int"
  assumes "wf t" and "lookup (key r) t = None"
  shows "sum_list (map f (rows (put r t))) = sum_list (map f (rows t)) + f r"
  using assms by (simp add: rows_put_new)

lemma sum_put_old:
  fixes f :: "'r \<Rightarrow> int"
  assumes "wf t" and "lookup (key r) t = Some old"
  shows "sum_list (map f (rows (put r t))) = sum_list (map f (rows t)) - f old + f r"
  using rows_put_old [OF assms] by auto

lemma length_filter_put_new:
  assumes "wf t" and "lookup (key r) t = None"
  shows "length (filter P (rows (put r t))) = length (filter P (rows t)) + (if P r then 1 else 0)"
  using assms by (simp add: rows_put_new)

end

text \<open>A JavaScript map whose entries sit under the key of their row is such a table.\<close>

definition js_table :: "('r \<Rightarrow> 'k) \<Rightarrow> ('k, 'r) js_map \<Rightarrow> bool" where
  "js_table key m \<longleftrightarrow> distinct (js_keys m) \<and> (\<forall>(k, r) \<in> set m. k = key r)"

lemma js_table_keys: "js_table key m \<Longrightarrow> map key (js_values m) = js_keys m"
  by (auto simp: js_table_def js_values_def js_keys_def)

lemma js_table_empty [simp]: "js_table key []"
  by (simp add: js_table_def js_keys_def)

lemma js_set_entries:
  assumes "distinct (js_keys m)"
  shows "set (js_set k v m) = insert (k, v) {e \<in> set m. fst e \<noteq> k}"
  using assms
proof (induction m)
  case Nil
  then show ?case by simp
next
  case (Cons e m)
  obtain k' w where e: "e = (k', w)" by (cases e)
  have IH: "set (js_set k v m) = insert (k, v) {e \<in> set m. fst e \<noteq> k}"
    using Cons by (simp add: js_keys_def)
  have "fst x \<noteq> k'" if "x \<in> set m" for x
    using Cons.prems that e by (auto simp: js_keys_def image_iff)
  then show ?case
    using e IH by (cases "k' = k") auto
qed

lemma js_table_set [simp]:
  assumes "js_table key m"
  shows "js_table key (js_set (key r) r m)"
proof -
  have "\<forall>(k, s) \<in> set (js_set (key r) r m). k = key s"
    using assms by (simp add: js_table_def js_set_entries split_beta)
  with assms show ?thesis by (simp add: js_table_def distinct_js_keys_set)
qed

lemma js_table_lookup:
  assumes "js_table key m"
  shows "js_get k m = Some r \<longleftrightarrow> r \<in> set (js_values m) \<and> key r = k"
proof -
  have "js_get k m = Some r \<longleftrightarrow> (k, r) \<in> set m"
    using assms by (simp add: js_table_def js_get_iff)
  also have "\<dots> \<longleftrightarrow> r \<in> set (js_values m) \<and> key r = k"
  proof
    assume "(k, r) \<in> set m"
    with assms show "r \<in> set (js_values m) \<and> key r = k"
      by (force simp: js_table_def js_values_def)
  next
    assume r: "r \<in> set (js_values m) \<and> key r = k"
    then obtain k' where "(k', r) \<in> set m" by (auto simp: js_values_def)
    with assms r show "(k, r) \<in> set m" by (auto simp: js_table_def)
  qed
  finally show ?thesis .
qed

lemma js_values_set_old:
  assumes "distinct (js_keys m)" and "js_get k m = Some old"
  shows "\<exists>xs ys. js_values m = xs @ old # ys \<and> js_values (js_set k r m) = xs @ r # ys"
  using assms
proof (induction m)
  case Nil
  then show ?case by simp
next
  case (Cons e m)
  obtain k' w where e: "e = (k', w)" by (cases e)
  show ?case
  proof (cases "k' = k")
    case True
    with Cons.prems e have "js_values (e # m) = [] @ old # js_values m"
      "js_values (js_set k r (e # m)) = [] @ r # js_values m"
      by (auto simp: js_values_def)
    then show ?thesis by blast
  next
    case False
    with Cons.prems e obtain xs ys where
      "js_values m = xs @ old # ys" "js_values (js_set k r m) = xs @ r # ys"
      using Cons.IH by (auto simp: js_keys_def)
    with False e have "js_values (e # m) = (w # xs) @ old # ys"
      "js_values (js_set k r (e # m)) = (w # xs) @ r # ys"
      by (auto simp: js_values_def)
    then show ?thesis by blast
  qed
qed

lemma js_values_set_new: "js_get k m = None \<Longrightarrow> js_values (js_set k r m) = js_values m @ [r]"
  by (induction k r m rule: js_set.induct) (simp_all add: js_values_def split: if_splits)

lemma js_row_table: "row_table (js_table key) js_values key js_get (\<lambda>r. js_set (key r) r)"
proof
  fix t :: "('a, 'b) js_map" and r old k
  show "js_table key t \<Longrightarrow> distinct (map key (js_values t))"
    by (simp add: js_table_keys) (simp add: js_table_def)
  show "js_table key t \<Longrightarrow> js_table key (js_set (key r) r t)" by simp
  show "js_table key t \<Longrightarrow> js_get k t = Some r \<longleftrightarrow> r \<in> set (js_values t) \<and> key r = k"
    by (rule js_table_lookup)
  show "js_table key t \<Longrightarrow> js_get (key r) t = Some old \<Longrightarrow>
    \<exists>xs ys. js_values t = xs @ old # ys \<and> js_values (js_set (key r) r t) = xs @ r # ys"
    by (rule js_values_set_old) (simp_all add: js_table_def)
  show "js_table key t \<Longrightarrow> js_get (key r) t = None \<Longrightarrow>
    js_values (js_set (key r) r t) = js_values t @ [r]"
    by (rule js_values_set_new)
qed

end
