(* ===== verification/JS_String.thy ===== *)
theory JS_String
  imports Blackout_Prelude
begin

text \<open>
  The JavaScript string operations the sources use, on \<open>string\<close> (lists of
  8-bit characters, read as the code units U+0000 to U+00FF): number
  formatting, lower case, the character classes of the regular expressions,
  percent encoding, splitting and slicing.
\<close>

section \<open>Characters\<close>

definition is_lower :: "char \<Rightarrow> bool" where
  "is_lower c \<longleftrightarrow> 97 \<le> (of_char c :: nat) \<and> (of_char c :: nat) \<le> 122"

definition is_upper :: "char \<Rightarrow> bool" where
  "is_upper c \<longleftrightarrow> 65 \<le> (of_char c :: nat) \<and> (of_char c :: nat) \<le> 90"

definition is_digit :: "char \<Rightarrow> bool" where
  "is_digit c \<longleftrightarrow> 48 \<le> (of_char c :: nat) \<and> (of_char c :: nat) \<le> 57"

definition is_slug_char :: "char \<Rightarrow> bool" where
  "is_slug_char c \<longleftrightarrow> is_lower c \<or> is_digit c"

definition is_alnum :: "char \<Rightarrow> bool" where
  "is_alnum c \<longleftrightarrow> is_lower c \<or> is_upper c \<or> is_digit c"

text \<open>The character class \<^verbatim>\<open>\s\<close> on U+0000 to U+00FF.\<close>

definition js_space :: "char \<Rightarrow> bool" where
  "js_space c \<longleftrightarrow> (of_char c :: nat) \<in> {9, 10, 11, 12, 13, 32, 160}"

text \<open>
  \<^verbatim>\<open>toLowerCase\<close> on U+0000 to U+00FF: the ASCII capitals and the
  capitals U+00C0 to U+00DE (U+00D7 apart) move up by 32.
\<close>

definition to_lower_char :: "char \<Rightarrow> char" where
  "to_lower_char c = (let n = (of_char c :: nat) in
     if (65 \<le> n \<and> n \<le> 90) \<or> (192 \<le> n \<and> n \<le> 222 \<and> n \<noteq> 215) then char_of (n + 32) else c)"

definition toLowerCase :: "string \<Rightarrow> string" where
  "toLowerCase s = map to_lower_char s"

section \<open>Decimal numbers\<close>

definition digit_char :: "nat \<Rightarrow> char" where
  "digit_char d = char_of (48 + d)"

fun show_nat :: "nat \<Rightarrow> string" where
  "show_nat n = (if n < 10 then [digit_char n] else show_nat (n div 10) @ [digit_char (n mod 10)])"

declare show_nat.simps [simp del]

definition show_int :: "int \<Rightarrow> string" where
  "show_int i = (if i < 0 then ''-'' @ show_nat (nat (- i)) else show_nat (nat i))"

definition read_nat :: "string \<Rightarrow> nat" where
  "read_nat s = foldl (\<lambda>n c. 10 * n + (of_char c - 48)) 0 s"

lemma of_char_digit: "d < 10 \<Longrightarrow> (of_char (digit_char d) :: nat) = 48 + d"
  by (simp add: digit_char_def)

lemma is_digit_digit_char: "d < 10 \<Longrightarrow> is_digit (digit_char d)"
  by (simp add: is_digit_def of_char_digit)

lemma show_nat_not_Nil [simp]: "show_nat n \<noteq> []"
  by (subst show_nat.simps) simp

lemma show_nat_digits: "\<forall>c \<in> set (show_nat n). is_digit c"
proof (induction n rule: show_nat.induct)
  case (1 n)
  show ?case
  proof (cases "n < 10")
    case True
    then show ?thesis by (subst show_nat.simps) (simp add: is_digit_digit_char)
  next
    case False
    with 1 show ?thesis by (subst show_nat.simps) (auto simp: is_digit_digit_char)
  qed
qed

lemma read_show_nat: "read_nat (show_nat n) = n"
proof (induction n rule: show_nat.induct)
  case (1 n)
  show ?case
  proof (cases "n < 10")
    case True
    then show ?thesis by (subst show_nat.simps) (simp add: read_nat_def of_char_digit)
  next
    case False
    with 1 have "read_nat (show_nat (n div 10)) = n div 10" by simp
    with False show ?thesis
      by (subst show_nat.simps) (simp add: read_nat_def of_char_digit)
  qed
qed

lemma show_nat_inject [simp]: "show_nat m = show_nat n \<longleftrightarrow> m = n"
  by (metis read_show_nat)

section \<open>Runs, trimming and splitting\<close>

text \<open>
  \<^verbatim>\<open>s.replace(/[^a-z0-9]+/g, '-')\<close>: every maximal run of other
  characters becomes one hyphen.  The flag says whether the last character
  written stands for a run.
\<close>

fun dash_runs :: "bool \<Rightarrow> string \<Rightarrow> string" where
  "dash_runs in_run [] = []"
| "dash_runs in_run (c # s) =
     (if is_slug_char c then c # dash_runs False s
      else if in_run then dash_runs True s
      else CHR ''-'' # dash_runs True s)"

text \<open>\<^verbatim>\<open>s.replace(/^-+|-+$/g, '')\<close>: hyphens dropped at both ends.\<close>

definition trim_dashes :: "string \<Rightarrow> string" where
  "trim_dashes s = rev (dropWhile (\<lambda>c. c = CHR ''-'') (rev (dropWhile (\<lambda>c. c = CHR ''-'') s)))"

text \<open>\<^verbatim>\<open>s.split(sep)\<close> on one character.\<close>

fun split_on :: "char \<Rightarrow> string \<Rightarrow> string list" where
  "split_on sep [] = [[]]"
| "split_on sep (c # s) =
     (if c = sep then [] # split_on sep s
      else case split_on sep s of [] \<Rightarrow> [[c]] | w # ws \<Rightarrow> (c # w) # ws)"

text \<open>\<^verbatim>\<open>s.includes(needle)\<close>\<close>

fun js_includes :: "string \<Rightarrow> string \<Rightarrow> bool" where
  "js_includes [] needle \<longleftrightarrow> needle = []"
| "js_includes (c # s) needle \<longleftrightarrow> take (length needle) (c # s) = needle \<or> js_includes s needle"

lemma dash_runs_chars: "c \<in> set (dash_runs b s) \<Longrightarrow> is_slug_char c \<or> c = CHR ''-''"
  by (induction b s rule: dash_runs.induct) (auto split: if_splits)

lemma set_trim_dashes: "set (trim_dashes s) \<subseteq> set s"
  unfolding trim_dashes_def by (auto dest!: set_dropWhileD)

lemma trim_dashes_hd:
  assumes "trim_dashes s \<noteq> []"
  shows "hd (trim_dashes s) \<noteq> CHR ''-''"
proof -
  define t where "t = dropWhile (\<lambda>c. c = CHR ''-'') s"
  have tr: "trim_dashes s = rev (dropWhile (\<lambda>c. c = CHR ''-'') (rev t))"
    by (simp add: trim_dashes_def t_def)
  obtain u where u: "t = trim_dashes s @ u"
    using takeWhile_dropWhile_id [of "\<lambda>c. c = CHR ''-''" "rev t"]
    unfolding tr by (metis rev_append rev_rev_ident)
  with assms have "hd t = hd (trim_dashes s)" and "t \<noteq> []" by auto
  then show ?thesis
    using hd_dropWhile [of "\<lambda>c. c = CHR ''-''" s] by (simp add: t_def)
qed

section \<open>Percent encoding\<close>

text \<open>
  \<^verbatim>\<open>encodeURIComponent\<close>: letters, digits and the marks
  \<open>- _ . ! ~ * ' ( )\<close> stand for themselves; every other character is written
  as the percent-escaped bytes of its UTF-8 form.
\<close>

definition uri_unreserved :: "char \<Rightarrow> bool" where
  "uri_unreserved c \<longleftrightarrow> is_alnum c \<or> c \<in> set ''-_.!~*()'' \<or> (of_char c :: nat) = 39"

definition hex_digit_upper :: "nat \<Rightarrow> char" where
  "hex_digit_upper d = (if d < 10 then char_of (48 + d) else char_of (55 + d))"

definition pct_byte :: "nat \<Rightarrow> string" where
  "pct_byte b = CHR ''%'' # hex_digit_upper (b div 16) # [hex_digit_upper (b mod 16)]"

definition encode_char :: "char \<Rightarrow> string" where
  "encode_char c = (let n = (of_char c :: nat) in
     if uri_unreserved c then [c]
     else if n < 128 then pct_byte n
     else pct_byte (192 + n div 64) @ pct_byte (128 + n mod 64))"

definition encodeURIComponent :: "string \<Rightarrow> string" where
  "encodeURIComponent s = concat (map encode_char s)"

lemma encodeURIComponent_append [simp]:
  "encodeURIComponent (s @ t) = encodeURIComponent s @ encodeURIComponent t"
  by (simp add: encodeURIComponent_def)

definition uri_safe :: "char \<Rightarrow> bool" where
  "uri_safe c \<longleftrightarrow> uri_unreserved c \<or> c = CHR ''%''"

lemma hex_digit_upper_safe: "d < 16 \<Longrightarrow> uri_safe (hex_digit_upper d)"
  by (auto simp: uri_safe_def uri_unreserved_def is_alnum_def is_upper_def is_digit_def
      hex_digit_upper_def)

lemma pct_byte_safe: "b < 256 \<Longrightarrow> c \<in> set (pct_byte b) \<Longrightarrow> uri_safe c"
  by (auto simp: pct_byte_def hex_digit_upper_safe) (simp add: uri_safe_def)

lemma utf8_lead_bound: "(n :: nat) < 256 \<Longrightarrow> 192 + n div 64 < 256 \<and> 128 + n mod 64 < 256"
  by linarith

lemma encode_char_safe:
  assumes "d \<in> set (encode_char c)"
  shows "uri_safe d"
proof (cases "uri_unreserved c")
  case True
  with assms show ?thesis by (simp add: encode_char_def uri_safe_def)
next
  case False
  have c: "(of_char c :: nat) < 256" using of_char_of [of "of_char c :: nat"] by simp
  from utf8_lead_bound [OF this] False assms c show ?thesis
    by (auto simp: encode_char_def Let_def dest: pct_byte_safe [rotated] split: if_splits)
qed

lemma encodeURIComponent_safe: "c \<in> set (encodeURIComponent s) \<Longrightarrow> uri_safe c"
  by (auto simp: encodeURIComponent_def intro: encode_char_safe)

section \<open>Sorting by a comparator\<close>

text \<open>
  \<^verbatim>\<open>Array.prototype.sort\<close> is stable; \<open>le a b\<close> says that \<open>a\<close> does not
  have to move behind \<open>b\<close>.
\<close>

fun insort_by :: "('a \<Rightarrow> 'a \<Rightarrow> bool) \<Rightarrow> 'a \<Rightarrow> 'a list \<Rightarrow> 'a list" where
  "insort_by le x [] = [x]"
| "insort_by le x (y # ys) = (if le x y then x # y # ys else y # insort_by le x ys)"

definition js_sort :: "('a \<Rightarrow> 'a \<Rightarrow> bool) \<Rightarrow> 'a list \<Rightarrow> 'a list" where
  "js_sort le xs = foldr (insort_by le) xs []"

lemma mset_insort_by [simp]: "mset (insort_by le x xs) = add_mset x (mset xs)"
  by (induction xs) auto

lemma mset_js_sort [simp]: "mset (js_sort le xs) = mset xs"
  unfolding js_sort_def by (induction xs) auto

lemma set_js_sort [simp]: "set (js_sort le xs) = set xs"
  using mset_eq_setD [OF mset_js_sort] .

lemma length_js_sort [simp]: "length (js_sort le xs) = length xs"
  using mset_eq_length [OF mset_js_sort] .

text \<open>
  \<^verbatim>\<open>localeCompare\<close> on two ISO timestamps, whose characters are digits and fixed
  punctuation: the order of the code units.
\<close>

fun iso_le :: "string \<Rightarrow> string \<Rightarrow> bool" where
  "iso_le [] t = True"
| "iso_le (c # s) [] = False"
| "iso_le (c # s) (d # t) =
     (if c = d then iso_le s t else (of_char c :: nat) < of_char d)"

lemma iso_le_refl [simp]: "iso_le s s"
  by (induction s) auto

lemma iso_le_total: "iso_le s t \<or> iso_le t s"
  by (induction s t rule: iso_le.induct) (auto simp: not_less_iff_gr_or_eq)

end
