(* ===== verification/User_Identity.thy ===== *)
theory User_Identity
  imports JS_Map JS_String
begin

text \<open>
  Users and the bridge between the two id spaces of the API: Blackout user ids and
  Matrix ids (\<^verbatim>\<open>services/userIdentity.ts\<close>, the user table of
  \<^verbatim>\<open>db/store.ts\<close> and \<^verbatim>\<open>isPubliclyListed\<close> of
  \<^verbatim>\<open>services/profileStore.ts\<close>).  The environment variable
  \<^verbatim>\<open>MATRIX_HOMESERVER_DOMAIN\<close> is an argument.
\<close>

datatype ReputationTier = Tier_member | Tier_vendor | Tier_coordinator | Tier_arbiter

record UserRecord =
  us_id :: ident
  us_username :: string
  us_email :: "string option"
  us_passwordHash :: string
  us_reputationScore :: int
  us_reputationTier :: ReputationTier
  us_pubkeyEd25519 :: string
  us_createdAt :: iso
  us_emailVerifiedAt :: "iso option"

type_synonym user_table = "(ident, UserRecord) js_map"

definition createUser :: "iso \<Rightarrow> UserRecord \<Rightarrow> user_table \<Rightarrow> UserRecord \<times> user_table" where
  "createUser now input users =
     (let rec = input\<lparr>us_createdAt := now\<rparr> in (rec, js_set (us_id rec) rec users))"

definition getUserById :: "user_table \<Rightarrow> ident \<Rightarrow> UserRecord option" where
  "getUserById users uid = js_get uid users"

definition findUserByUsername :: "user_table \<Rightarrow> string \<Rightarrow> UserRecord option" where
  "findUserByUsername users username =
     find (\<lambda>user. toLowerCase (us_username user) = toLowerCase username) (js_values users)"

definition homeserverDomain :: "string option \<Rightarrow> string" where
  "homeserverDomain env = dropWhile (\<lambda>c. c = CHR ''@'') (case env of None \<Rightarrow> ''blackout.local'' | Some d \<Rightarrow> d)"

definition mxid_local :: "char \<Rightarrow> bool" where
  "mxid_local c \<longleftrightarrow> c \<noteq> CHR '':'' \<and> \<not> js_space c"

definition parseMatrixId :: "string \<Rightarrow> (string \<times> string) option" where
  "parseMatrixId v =
     (case v of
        [] \<Rightarrow> None
      | a # rest \<Rightarrow>
          if a \<noteq> CHR ''@'' then None
          else let localpart = takeWhile mxid_local rest
               in case dropWhile mxid_local rest of
                    [] \<Rightarrow> None
                  | c # serverName \<Rightarrow>
                      if c = CHR '':'' \<and> localpart \<noteq> [] \<and> serverName \<noteq> [] \<and> (\<forall>x \<in> set serverName. \<not> js_space x)
                      then Some (localpart, serverName) else None)"

definition isLocalMatrixId :: "string option \<Rightarrow> string \<Rightarrow> bool" where
  "isLocalMatrixId env v = (map_option snd (parseMatrixId v) = Some (homeserverDomain env))"

definition matrixLocalpart :: "string option \<Rightarrow> string \<Rightarrow> string option" where
  "matrixLocalpart env v =
     (case parseMatrixId v of
        None \<Rightarrow> None
      | Some (localpart, serverName) \<Rightarrow> if serverName \<noteq> homeserverDomain env then None else Some localpart)"

definition resolveBlackoutUserId :: "string option \<Rightarrow> user_table \<Rightarrow> string \<Rightarrow> ident option" where
  "resolveBlackoutUserId env users uid =
     (if getUserById users uid \<noteq> None then Some uid
      else case matrixLocalpart env uid of
             None \<Rightarrow> None
           | Some localpart \<Rightarrow>
               if localpart = [] then None
               else map_option us_id (findUserByUsername users localpart))"

definition matrixUserIdFor :: "string option \<Rightarrow> user_table \<Rightarrow> ident \<Rightarrow> string option" where
  "matrixUserIdFor env users uid =
     map_option (\<lambda>user. ''@'' @ us_username user @ '':'' @ homeserverDomain env) (getUserById users uid)"

text \<open>
  The roster opt-out: member profiles are keyed by Matrix id, or by Blackout id in
  older rows.  A profile is its \<^verbatim>\<open>hideFromPublicRosters\<close> flag.
\<close>

definition isPubliclyListed ::
    "string option \<Rightarrow> user_table \<Rightarrow> (string, bool option) js_map \<Rightarrow> ident \<Rightarrow> bool" where
  "isPubliclyListed env users profiles uid =
     (let byMxid = (case matrixUserIdFor env users uid of None \<Rightarrow> None | Some mxid \<Rightarrow> js_get mxid profiles);
          profile = (case byMxid of Some p \<Rightarrow> Some p | None \<Rightarrow> js_get uid profiles)
      in profile \<noteq> Some (Some True))"

section \<open>Lemmas\<close>

interpretation user_rows: row_table "js_table us_id" js_values us_id js_get "\<lambda>r. js_set (us_id r) r"
  by (rule js_row_table)

definition usernames_distinct :: "user_table \<Rightarrow> bool" where
  "usernames_distinct users \<longleftrightarrow> distinct (map (\<lambda>u. toLowerCase (us_username u)) (js_values users))"

definition plain_username :: "string \<Rightarrow> bool" where
  "plain_username s \<longleftrightarrow> s \<noteq> [] \<and> (\<forall>c \<in> set s. mxid_local c)"

definition plain_server :: "string \<Rightarrow> bool" where
  "plain_server s \<longleftrightarrow> s \<noteq> [] \<and> (\<forall>c \<in> set s. \<not> js_space c)"

lemma parseMatrixId_print:
  assumes "plain_username u" and "plain_server d"
  shows "parseMatrixId (''@'' @ u @ '':'' @ d) = Some (u, d)"
proof -
  have c: "\<not> mxid_local (CHR '':'')" by (simp add: mxid_local_def)
  have "takeWhile mxid_local (u @ '':'' @ d) = u" "dropWhile mxid_local (u @ '':'' @ d) = '':'' @ d"
    using assms(1) c by (simp_all add: plain_username_def takeWhile_append2 dropWhile_append2)
  then show ?thesis
    using assms by (simp add: parseMatrixId_def plain_username_def plain_server_def Let_def)
qed

lemma parseMatrixId_Some:
  assumes "parseMatrixId v = Some (l, s)"
  shows "v = ''@'' @ l @ '':'' @ s \<and> plain_username l \<and> plain_server s"
proof -
  obtain rest where v: "v = CHR ''@'' # rest"
    using assms by (auto simp: parseMatrixId_def split: list.splits if_splits)
  then obtain c sn where d: "dropWhile mxid_local rest = c # sn"
    using assms by (auto simp: parseMatrixId_def Let_def split: list.splits)
  then have r: "c = CHR '':''" "l = takeWhile mxid_local rest" "s = sn" "l \<noteq> []" "sn \<noteq> []"
      "\<forall>x \<in> set sn. \<not> js_space x"
    using assms v by (auto simp: parseMatrixId_def Let_def split: if_splits)
  have "rest = l @ '':'' @ s"
    using takeWhile_dropWhile_id [of mxid_local rest] d r by simp
  moreover have "\<forall>c \<in> set l. mxid_local c"
    using r(2) set_takeWhileD by fastforce
  ultimately show ?thesis
    using v r by (simp add: plain_username_def plain_server_def)
qed

definition sample_user :: UserRecord where
  "sample_user = \<lparr>us_id = ''u1'', us_username = ''Alice'', us_email = None, us_passwordHash = ''h'',
     us_reputationScore = 0, us_reputationTier = Tier_member, us_pubkeyEd25519 = ''k'',
     us_createdAt = ''2026-01-01T00:00:00.000Z'', us_emailVerifiedAt = None\<rparr>"

section \<open>Properties\<close>

text \<open>
  The bridge round-trips.  Printing the Matrix id of a known user and resolving it
  gives that user back, when usernames are plain and distinct up to case, the
  homeserver name is plain, and no user id looks like that Matrix id.
\<close>

theorem resolve_matrixUserIdFor:
  assumes "js_table us_id users" and "usernames_distinct users"
    and "matrixUserIdFor env users uid = Some mxid" and "getUserById users mxid = None"
    and "\<forall>u \<in> set (js_values users). plain_username (us_username u)"
    and "plain_server (homeserverDomain env)"
  shows "resolveBlackoutUserId env users mxid = Some uid"
proof -
  obtain user where user: "js_get uid users = Some user"
    and mxid: "mxid = ''@'' @ us_username user @ '':'' @ homeserverDomain env"
    using assms(3) by (auto simp: matrixUserIdFor_def getUserById_def)
  have row: "user \<in> set (js_values users)" "us_id user = uid"
    using js_table_lookup [OF assms(1)] user by auto
  have plain: "plain_username (us_username user)" using assms(5) row by blast
  then have ne: "us_username user \<noteq> []" by (simp add: plain_username_def)
  have "matrixLocalpart env mxid = Some (us_username user)"
    using parseMatrixId_print [OF plain assms(6)] by (simp add: matrixLocalpart_def mxid)
  moreover have "findUserByUsername users (us_username user) = Some user"
    unfolding findUserByUsername_def
    using assms(2) row by (intro find_unique) (auto simp: usernames_distinct_def distinct_map inj_on_def)
  ultimately show ?thesis
    using assms(4) row ne by (simp add: resolveBlackoutUserId_def)
qed

text \<open>
  An account on another homeserver never acts as a local one.  A Matrix id whose
  server name is not this homeserver's resolves to nobody, unless the whole string is
  itself a user id.
\<close>

theorem foreign_mxid_resolves_to_nobody:
  assumes "getUserById users v = None"
  shows "resolveBlackoutUserId env users v \<noteq> None \<Longrightarrow>
    \<exists>l. v = ''@'' @ l @ '':'' @ homeserverDomain env \<and>
      (\<exists>u \<in> set (js_values users). toLowerCase (us_username u) = toLowerCase l \<and>
         resolveBlackoutUserId env users v = Some (us_id u))"
proof -
  assume r: "resolveBlackoutUserId env users v \<noteq> None"
  then obtain l where l: "parseMatrixId v = Some (l, homeserverDomain env)" "l \<noteq> []"
    using assms by (auto simp: resolveBlackoutUserId_def matrixLocalpart_def split: option.splits if_splits)
  with r assms obtain u where u: "findUserByUsername users l = Some u"
    and ru: "resolveBlackoutUserId env users v = Some (us_id u)"
    by (auto simp: resolveBlackoutUserId_def matrixLocalpart_def split: if_splits)
  from u have "u \<in> set (js_values users)" "toLowerCase (us_username u) = toLowerCase l"
    unfolding findUserByUsername_def by (auto dest: find_SomeD)
  with ru parseMatrixId_Some [OF l(1)] show ?thesis by blast
qed

end
