(* ===== verification/Reputation.thy ===== *)
theory Reputation
  imports JS_Map User_Identity
begin

text \<open>
  Reputation: the event weights and folds of \<^verbatim>\<open>core/src/reputation\<close>, the tiers
  and vote tally of \<^verbatim>\<open>core/src/governance\<close>, and the append-only log of
  \<^verbatim>\<open>services/reputationStore.ts\<close> and \<^verbatim>\<open>db/store.ts\<close>.
\<close>

datatype TopicCategory =
    Politics | Economy | Business | Finance | Tech | Culture | Science | Media | Law
  | Sports | World | Local_topic | Other_topic

datatype ReputationEventType =
    Vote_cast | Argument_endorsed | Proposal_passed | Dispute_won | Vendor_transaction
  | Match_won | Match_drawn | Round_won | Steelman_passed | Credibility_strike

fun REPUTATION_EVENT_POINTS :: "ReputationEventType \<Rightarrow> int" where
  "REPUTATION_EVENT_POINTS Vote_cast = 1"
| "REPUTATION_EVENT_POINTS Argument_endorsed = 2"
| "REPUTATION_EVENT_POINTS Proposal_passed = 10"
| "REPUTATION_EVENT_POINTS Dispute_won = 7"
| "REPUTATION_EVENT_POINTS Vendor_transaction = 5"
| "REPUTATION_EVENT_POINTS Match_won = 12"
| "REPUTATION_EVENT_POINTS Match_drawn = 4"
| "REPUTATION_EVENT_POINTS Round_won = 2"
| "REPUTATION_EVENT_POINTS Steelman_passed = 3"
| "REPUTATION_EVENT_POINTS Credibility_strike = - 5"

definition pointsForReputationEvent :: "ReputationEventType \<Rightarrow> int" where
  "pointsForReputationEvent type = REPUTATION_EVENT_POINTS type"

section \<open>Governance\<close>

fun REPUTATION_THRESHOLDS :: "ReputationTier \<Rightarrow> int" where
  "REPUTATION_THRESHOLDS Tier_member = 0"
| "REPUTATION_THRESHOLDS Tier_vendor = 100"
| "REPUTATION_THRESHOLDS Tier_coordinator = 500"
| "REPUTATION_THRESHOLDS Tier_arbiter = 1000"

definition tierFromScore :: "int \<Rightarrow> ReputationTier" where
  "tierFromScore score =
     (if score \<ge> REPUTATION_THRESHOLDS Tier_arbiter then Tier_arbiter
      else if score \<ge> REPUTATION_THRESHOLDS Tier_coordinator then Tier_coordinator
      else if score \<ge> REPUTATION_THRESHOLDS Tier_vendor then Tier_vendor
      else Tier_member)"

text \<open>
  The tally counts into an object and reads its entries back: the choices in the order
  they first appear.  (An object would list integer-like choices first; the choices are
  option labels.)
\<close>

fun count_choices :: "(string, nat) js_map \<Rightarrow> string list \<Rightarrow> (string, nat) js_map" where
  "count_choices acc [] = acc"
| "count_choices acc (c # cs) =
     count_choices (js_set c ((case js_get c acc of None \<Rightarrow> 0 | Some n \<Rightarrow> n) + 1) acc) cs"

definition tallyVotes :: "string list \<Rightarrow> (string \<times> nat \<times> int) list" where
  "tallyVotes entries =
     (let total = length entries
      in map (\<lambda>(choice, votes).
           (choice, votes, if total = 0 then 0 else js_round_div (int votes * 100) (int total)))
           (count_choices [] entries))"

section \<open>Folding events\<close>

record ReputationEvent =
  re_id :: ident
  re_userId :: ident
  re_type :: ReputationEventType
  re_subject :: "TopicCategory option"
  re_points :: "int option"
  re_dedupeKey :: "string option"
  re_actor :: "string option"
  re_createdAt :: iso

record ReputationStanding =
  st_score :: int
  st_tier :: ReputationTier

record ReputationProfile =
  rp_overall :: ReputationStanding
  rp_bySubject :: "(TopicCategory, ReputationStanding) js_map"

record ArenaRecord =
  ar_matchesWon :: nat
  ar_matchesDrawn :: nat
  ar_roundsWon :: nat
  ar_steelmansPassed :: nat
  ar_credibilityStrikes :: nat

fun tally_loop :: "ArenaRecord \<Rightarrow> ReputationEvent list \<Rightarrow> ArenaRecord" where
  "tally_loop r [] = r"
| "tally_loop r (e # es) =
     tally_loop
       (if re_type e = Match_won then r\<lparr>ar_matchesWon := ar_matchesWon r + 1\<rparr>
        else if re_type e = Match_drawn then r\<lparr>ar_matchesDrawn := ar_matchesDrawn r + 1\<rparr>
        else if re_type e = Round_won then r\<lparr>ar_roundsWon := ar_roundsWon r + 1\<rparr>
        else if re_type e = Steelman_passed then r\<lparr>ar_steelmansPassed := ar_steelmansPassed r + 1\<rparr>
        else if re_type e = Credibility_strike
             then r\<lparr>ar_credibilityStrikes := ar_credibilityStrikes r + 1\<rparr>
        else r) es"

definition tallyArenaRecord :: "ReputationEvent list \<Rightarrow> ArenaRecord" where
  "tallyArenaRecord events =
     tally_loop \<lparr>ar_matchesWon = 0, ar_matchesDrawn = 0, ar_roundsWon = 0, ar_steelmansPassed = 0,
       ar_credibilityStrikes = 0\<rparr> events"

definition event_points :: "ReputationEvent \<Rightarrow> int" where
  "event_points e = (case re_points e of None \<Rightarrow> pointsForReputationEvent (re_type e) | Some p \<Rightarrow> p)"

fun aggregate_loop ::
    "int \<Rightarrow> (TopicCategory, int) js_map \<Rightarrow> ReputationEvent list \<Rightarrow> int \<times> (TopicCategory, int) js_map" where
  "aggregate_loop overall subjects [] = (overall, subjects)"
| "aggregate_loop overall subjects (e # es) =
     aggregate_loop (overall + event_points e)
       (case re_subject e of
          None \<Rightarrow> subjects
        | Some s \<Rightarrow> js_set s ((case js_get s subjects of None \<Rightarrow> 0 | Some n \<Rightarrow> n) + event_points e) subjects)
       es"

definition standing :: "int \<Rightarrow> ReputationStanding" where
  "standing score = \<lparr>st_score = score, st_tier = tierFromScore score\<rparr>"

definition aggregateReputation :: "ReputationEvent list \<Rightarrow> ReputationProfile" where
  "aggregateReputation events =
     (let (overall, subjects) = aggregate_loop 0 [] events
      in \<lparr>rp_overall = standing overall, rp_bySubject = map (\<lambda>(s, n). (s, standing n)) subjects\<rparr>)"

section \<open>The log\<close>

type_synonym reputation_log = "(ident, ReputationEvent) js_map"

definition listReputationEventsForUser :: "reputation_log \<Rightarrow> ident \<Rightarrow> ReputationEvent list" where
  "listReputationEventsForUser log userId = filter (\<lambda>e. re_userId e = userId) (js_values log)"

definition reputationDedupeKeyExists :: "reputation_log \<Rightarrow> string \<Rightarrow> bool" where
  "reputationDedupeKeyExists log k \<longleftrightarrow> (\<exists>e \<in> set (js_values log). re_dedupeKey e = Some k)"

text \<open>\<open>None\<close> is the thrown error: the log is append-only.\<close>

definition addReputationEvent :: "reputation_log \<Rightarrow> ReputationEvent \<Rightarrow> reputation_log option" where
  "addReputationEvent log e = (if js_get (re_id e) log \<noteq> None then None else Some (js_set (re_id e) e log))"

text \<open>
  \<open>recordReputationEvent\<close>: the fresh id and the clock are in the event.  The result is
  the returned flag and the log; \<open>None\<close> is the error above.
\<close>

definition recordReputationEvent ::
    "reputation_log \<Rightarrow> ReputationEvent \<Rightarrow> (bool \<times> reputation_log) option" where
  "recordReputationEvent log e =
     (if truthy (re_dedupeKey e) \<and> reputationDedupeKeyExists log (the (re_dedupeKey e))
      then Some (False, log)
      else map_option (\<lambda>l. (True, l)) (addReputationEvent log e))"

definition getUserReputation :: "reputation_log \<Rightarrow> ident \<Rightarrow> ReputationProfile" where
  "getUserReputation log userId = aggregateReputation (listReputationEventsForUser log userId)"

definition getUserArenaRecord :: "reputation_log \<Rightarrow> ident \<Rightarrow> ArenaRecord" where
  "getUserArenaRecord log userId = tallyArenaRecord (listReputationEventsForUser log userId)"

text \<open>A sequence of calls; a call that throws leaves the log alone.\<close>

fun record_all :: "reputation_log \<Rightarrow> ReputationEvent list \<Rightarrow> reputation_log" where
  "record_all log [] = log"
| "record_all log (e # es) =
     record_all (case recordReputationEvent log e of None \<Rightarrow> log | Some (b, l) \<Rightarrow> l) es"

section \<open>Lemmas\<close>

lemma aggregate_loop_overall: "fst (aggregate_loop o1 ss es) = o1 + sum_list (map event_points es)"
  by (induction o1 ss es rule: aggregate_loop.induct) auto

lemma aggregate_loop_subject:
  "(case js_get s (snd (aggregate_loop o1 ss es)) of None \<Rightarrow> 0 | Some n \<Rightarrow> n) =
   (case js_get s ss of None \<Rightarrow> 0 | Some n \<Rightarrow> n) +
   sum_list (map event_points (filter (\<lambda>e. re_subject e = Some s) es))"
  by (induction o1 ss es rule: aggregate_loop.induct) (auto split: option.splits)

lemma js_get_map_values: "js_get k (map (\<lambda>(s, n). (s, f n)) m) = map_option f (js_get k m)"
  by (induction m) auto

lemma tally_loop_count:
  "ar_matchesWon (tally_loop r es) = ar_matchesWon r + length (filter (\<lambda>e. re_type e = Match_won) es)"
  "ar_matchesDrawn (tally_loop r es) = ar_matchesDrawn r + length (filter (\<lambda>e. re_type e = Match_drawn) es)"
  "ar_roundsWon (tally_loop r es) = ar_roundsWon r + length (filter (\<lambda>e. re_type e = Round_won) es)"
  "ar_steelmansPassed (tally_loop r es) =
     ar_steelmansPassed r + length (filter (\<lambda>e. re_type e = Steelman_passed) es)"
  "ar_credibilityStrikes (tally_loop r es) =
     ar_credibilityStrikes r + length (filter (\<lambda>e. re_type e = Credibility_strike) es)"
  by (induction r es rule: tally_loop.induct) simp_all

definition log_ok :: "reputation_log \<Rightarrow> bool" where
  "log_ok log \<longleftrightarrow> js_table re_id log \<and>
     (\<forall>k. k \<noteq> [] \<longrightarrow> length (filter (\<lambda>e. re_dedupeKey e = Some k) (js_values log)) \<le> 1)"

lemma recordReputationEvent_step:
  assumes "recordReputationEvent log e = Some (b, log')" and "js_table re_id log"
  shows "log' = log \<or> (js_values log' = js_values log @ [e] \<and> log' = js_set (re_id e) e log \<and>
    \<not> (truthy (re_dedupeKey e) \<and> reputationDedupeKeyExists log (the (re_dedupeKey e))))"
  using assms js_values_set_new [of "re_id e" log e]
  by (auto simp: recordReputationEvent_def addReputationEvent_def split: if_splits)

lemma log_ok_record:
  assumes "log_ok log" and "recordReputationEvent log e = Some (b, log')"
  shows "log_ok log'"
proof -
  have t: "js_table re_id log" using assms(1) by (simp add: log_ok_def)
  from recordReputationEvent_step [OF assms(2) t] show ?thesis
  proof
    assume n: "js_values log' = js_values log @ [e] \<and> log' = js_set (re_id e) e log \<and>
      \<not> (truthy (re_dedupeKey e) \<and> reputationDedupeKeyExists log (the (re_dedupeKey e)))"
    then have v: "js_values log' = js_values log @ [e]" by blast
    have "length (filter (\<lambda>x. re_dedupeKey x = Some k) (js_values log')) \<le> 1" if "k \<noteq> []" for k
    proof (cases "re_dedupeKey e = Some k")
      case True
      with n that have "\<forall>x \<in> set (js_values log). re_dedupeKey x \<noteq> Some k"
        by (auto simp: reputationDedupeKeyExists_def)
      then have "filter (\<lambda>x. re_dedupeKey x = Some k) (js_values log) = []"
        by (simp add: filter_empty_conv)
      with True show ?thesis by (simp add: v)
    next
      case False
      with assms(1) that show ?thesis by (simp add: log_ok_def v)
    qed
    with n t show ?thesis by (simp add: log_ok_def)
  qed (use assms in simp)
qed

lemma log_ok_all: "log_ok log \<Longrightarrow> log_ok (record_all log es)"
proof (induction es arbitrary: log)
  case (Cons e es)
  then show ?case
    by (cases "recordReputationEvent log e") (auto intro: log_ok_record)
qed simp

lemma record_prefix:
  assumes "js_table re_id log"
  shows "\<exists>ys. js_values (record_all log es) = js_values log @ ys \<and> set ys \<subseteq> set es"
  using assms
proof (induction es arbitrary: log)
  case (Cons e es)
  show ?case
  proof (cases "recordReputationEvent log e")
    case None
    then show ?thesis using Cons by fastforce
  next
    case (Some r)
    obtain b l where r: "r = (b, l)" by (cases r)
    from Some r recordReputationEvent_step [OF _ Cons.prems] consider "l = log"
      | "js_values l = js_values log @ [e]" "js_table re_id l"
      using Cons.prems by fastforce
    then show ?thesis
    proof cases
      case 1
      then show ?thesis using Cons Some r by fastforce
    next
      case 2
      from Cons.IH [OF 2(2)] obtain ys where "js_values (record_all l es) = js_values l @ ys" "set ys \<subseteq> set es"
        by blast
      then show ?thesis using 2(1) Some r by auto
    qed
  qed
qed simp

section \<open>Properties\<close>

text \<open>
  C40: an award is granted at most once.  Starting from an empty log, after any sequence
  of record calls, every non-empty dedupe key occurs on at most one event.
\<close>

theorem dedupe_at_most_once:
  "k = [] \<or> length (filter (\<lambda>e. re_dedupeKey e = Some k) (js_values (record_all [] es))) \<le> 1"
proof -
  have "log_ok []" by (simp add: log_ok_def js_values_def)
  then have "log_ok (record_all [] es)" by (rule log_ok_all)
  then show ?thesis by (auto simp: log_ok_def)
qed

text \<open>
  The log is append-only.  Any sequence of record calls only adds events behind the
  ones already there, and every event added is one that was submitted.
\<close>

theorem reputation_append_only:
  assumes "js_table re_id log"
  shows "take (length (js_values log)) (js_values (record_all log es)) = js_values log \<and>
    set (drop (length (js_values log)) (js_values (record_all log es))) \<subseteq> set es"
  using record_prefix [OF assms, of es] by auto

text \<open>
  A standing is the sum of its events.  The overall score is the sum of the points
  of all events of the user, the score in a subject is the sum over the events of that
  subject, and both tiers are read off the same ladder.
\<close>

theorem aggregateReputation_sums:
  "rp_overall (aggregateReputation es) = standing (sum_list (map event_points es)) \<and>
   (case js_get s (rp_bySubject (aggregateReputation es)) of
      None \<Rightarrow> sum_list (map event_points (filter (\<lambda>e. re_subject e = Some s) es)) = 0
    | Some st \<Rightarrow> st = standing (sum_list (map event_points (filter (\<lambda>e. re_subject e = Some s) es))))"
  using aggregate_loop_overall [of 0 "[]" es] aggregate_loop_subject [of s 0 "[]" es]
  by (auto simp: aggregateReputation_def js_get_map_values split: prod.splits option.splits)

end
