(* ===== verification/JS_Value.thy ===== *)
theory JS_Value
  imports Complex_Main JS_String
begin

text \<open>
  JavaScript values as the validators meet them: an \<^verbatim>\<open>unknown\<close>
  argument is a \<open>js_value\<close>, a number is an exact rational or one of the three
  non-finite values.
\<close>

datatype js_number = Fin rat | NaN | PosInfinity | NegInfinity

datatype js_value =
    JUndefined
  | JNull
  | JBool bool
  | JNumber js_number
  | JString string
  | JArray "js_value list"
  | JObject "(string \<times> js_value) list"

text \<open>\<^verbatim>\<open>typeof v === 'string' && tags.includes(v)\<close>\<close>

definition is_tag :: "string list \<Rightarrow> js_value \<Rightarrow> bool" where
  "is_tag tags v = (case v of JString s \<Rightarrow> s \<in> set tags | _ \<Rightarrow> False)"

lemma is_tag_iff: "is_tag tags v \<longleftrightarrow> (\<exists>s \<in> set tags. v = JString s)"
  by (auto simp: is_tag_def split: js_value.splits)

text \<open>\<^verbatim>\<open>xs.indexOf(x)\<close>\<close>

fun index_from :: "int \<Rightarrow> 'a \<Rightarrow> 'a list \<Rightarrow> int" where
  "index_from i x [] = -1"
| "index_from i x (y # ys) = (if y = x then i else index_from (i + 1) x ys)"

definition indexOf :: "'a list \<Rightarrow> 'a \<Rightarrow> int" where
  "indexOf xs x = index_from 0 x xs"

lemma index_from_ge: "x \<in> set xs \<Longrightarrow> i \<le> index_from i x xs"
proof (induction xs arbitrary: i)
  case Nil
  then show ?case by simp
next
  case (Cons y ys)
  then show ?case using Cons.IH [of "i + 1"] by fastforce
qed

text \<open>\<^verbatim>\<open>Number(x.toFixed(3))\<close>: the nearest multiple of one thousandth, ties upwards.\<close>

definition toFixed3 :: "rat \<Rightarrow> rat" where
  "toFixed3 x = of_int \<lfloor>x * 1000 + 1 / 2\<rfloor> / 1000"

lemma toFixed3_mono: "x \<le> y \<Longrightarrow> toFixed3 x \<le> toFixed3 y"
  by (simp add: toFixed3_def divide_right_mono floor_mono)

lemma toFixed3_thousandths [simp]: "toFixed3 (of_int n / 1000) = of_int n / 1000"
proof -
  have "\<lfloor>(of_int n :: rat) + 1 / 2\<rfloor> = n"
    by (simp add: floor_eq_iff)
  then show ?thesis by (simp add: toFixed3_def)
qed

text \<open>\<^verbatim>\<open>Number.isInteger\<close>, with the integer it recognises.\<close>

fun js_integer :: "js_number \<Rightarrow> int option" where
  "js_integer (Fin r) = (if of_int \<lfloor>r\<rfloor> = r then Some \<lfloor>r\<rfloor> else None)"
| "js_integer _ = None"

lemma js_integer_of_int [simp]: "js_integer (Fin (of_int n)) = Some n"
  by simp

end
