(* ===== verification/Marketplace_Fees.thy ===== *)
theory Marketplace_Fees
  imports JS_Value JS_Map
begin

text \<open>
  The platform commission of \<^verbatim>\<open>core/src/marketplace/fees.ts\<close> and the tip row of
  \<^verbatim>\<open>db/types.ts\<close>.  Amounts are exact integers of cents; the quotient the source
  rounds is a double, which is exact enough for every amount below \<^verbatim>\<open>2^39\<close> cents.
\<close>

datatype MarketplaceProviderId = Freeblackmarket | Blamazon | Mayhem_marketplaze | Antin_amazon

datatype PayoutCadence = Weekly | Monthly

record MarketplaceProviderFeeSchedule =
  fs_providerId :: MarketplaceProviderId
  fs_feeBps :: int
  fs_processingHandledByProvider :: bool
  fs_payoutCadence :: PayoutCadence
  fs_displayFeePercent :: int

definition DEFAULT_MARKETPLACE_FEE_BPS :: int where
  "DEFAULT_MARKETPLACE_FEE_BPS = 1000"

fun marketplaceProviderFees :: "MarketplaceProviderId \<Rightarrow> MarketplaceProviderFeeSchedule" where
  "marketplaceProviderFees Freeblackmarket =
     \<lparr>fs_providerId = Freeblackmarket, fs_feeBps = 300, fs_processingHandledByProvider = True,
      fs_payoutCadence = Weekly, fs_displayFeePercent = 3\<rparr>"
| "marketplaceProviderFees Blamazon =
     \<lparr>fs_providerId = Blamazon, fs_feeBps = 1500, fs_processingHandledByProvider = True,
      fs_payoutCadence = Weekly, fs_displayFeePercent = 15\<rparr>"
| "marketplaceProviderFees Mayhem_marketplaze =
     \<lparr>fs_providerId = Mayhem_marketplaze, fs_feeBps = 1200, fs_processingHandledByProvider = True,
      fs_payoutCadence = Weekly, fs_displayFeePercent = 12\<rparr>"
| "marketplaceProviderFees Antin_amazon =
     \<lparr>fs_providerId = Antin_amazon, fs_feeBps = 2000, fs_processingHandledByProvider = True,
      fs_payoutCadence = Monthly, fs_displayFeePercent = 20\<rparr>"

definition feeForProvider :: "MarketplaceProviderId \<Rightarrow> MarketplaceProviderFeeSchedule" where
  "feeForProvider providerId = marketplaceProviderFees providerId"

definition isValidFeeBps :: "js_number \<Rightarrow> bool" where
  "isValidFeeBps bps = (case js_integer bps of None \<Rightarrow> False | Some n \<Rightarrow> 0 \<le> n \<and> n \<le> 10000)"

definition resolveListingFeeBps :: "MarketplaceProviderId \<Rightarrow> js_number option \<Rightarrow> bool \<Rightarrow> int" where
  "resolveListingFeeBps providerId feeBpsOverride overrideAllowed =
     (let base = fs_feeBps (marketplaceProviderFees providerId)
      in case feeBpsOverride of
           Some b \<Rightarrow> if overrideAllowed \<and> isValidFeeBps b then the (js_integer b) else base
         | None \<Rightarrow> base)"

record PlatformCommissionSplit =
  ps_grossCents :: int
  ps_feeCents :: int
  ps_netCents :: int
  ps_feeBps :: int
  ps_providerId :: MarketplaceProviderId

text \<open>\<open>None\<close> is the \<^verbatim>\<open>RangeError\<close>.\<close>

definition computePlatformCommission ::
    "js_number \<Rightarrow> MarketplaceProviderId \<Rightarrow> js_number option \<Rightarrow> PlatformCommissionSplit option" where
  "computePlatformCommission grossCents providerId feeBpsOverride =
     (case js_integer grossCents of
        None \<Rightarrow> None
      | Some gross \<Rightarrow>
          if gross < 0 then None
          else if (case feeBpsOverride of None \<Rightarrow> False | Some b \<Rightarrow> \<not> isValidFeeBps b) then None
          else let feeBps = (case feeBpsOverride of
                               Some b \<Rightarrow> the (js_integer b)
                             | None \<Rightarrow> fs_feeBps (marketplaceProviderFees providerId));
                   feeCents = js_round_div (gross * feeBps) 10000
               in Some \<lparr>ps_grossCents = gross, ps_feeCents = feeCents, ps_netCents = gross - feeCents,
                        ps_feeBps = feeBps, ps_providerId = providerId\<rparr>)"

section \<open>Tips\<close>

datatype TipContextKind =
    Ctx_profile | Ctx_stream | Ctx_post | Ctx_channel_message | Ctx_aid_pool | Ctx_referral_bonus
  | Ctx_ambassador_commission | Ctx_quest_reward | Ctx_bounty_reward | Ctx_coalition_project
  | Ctx_coalition_drive

datatype TipStatus = Tip_pending | Tip_captured | Tip_refunded | Tip_failed

record TipRecord =
  ti_id :: ident
  ti_senderUserId :: ident
  ti_recipientUserId :: ident
  ti_contextKind :: TipContextKind
  ti_contextRef :: "string option"
  ti_grossCents :: int
  ti_feeCents :: int
  ti_netCents :: int
  ti_feeBps :: int
  ti_currency :: string
  ti_providerId :: MarketplaceProviderId
  ti_fbmOrderId :: "string option"
  ti_status :: TipStatus
  ti_note :: "string option"
  ti_giftSku :: "string option"
  ti_createdAt :: iso
  ti_capturedAt :: "iso option"
  ti_refundedAt :: "iso option"
  ti_metadata :: "(string \<times> js_value) list option"

section \<open>Properties\<close>

lemma schedule_bps_range: "0 \<le> fs_feeBps (marketplaceProviderFees p) \<and> fs_feeBps (marketplaceProviderFees p) \<le> 10000"
  by (cases p) simp_all

lemma commission_bps_range:
  assumes "computePlatformCommission g p ov = Some s"
  shows "0 \<le> ps_feeBps s \<and> ps_feeBps s \<le> 10000 \<and> 0 \<le> ps_grossCents s"
  using assms schedule_bps_range [of p]
  by (auto simp: computePlatformCommission_def isValidFeeBps_def Let_def split: option.splits if_splits)

lemma commission_fee:
  "computePlatformCommission g p ov = Some s \<Longrightarrow> ps_feeCents s = js_round_div (ps_grossCents s * ps_feeBps s) 10000"
  by (auto simp: computePlatformCommission_def Let_def split: option.splits if_splits)

text \<open>
  C31: every split adds up.  Fee and net sum to the gross amount, neither is negative, and
  the fee is within half a cent of the exact share at the applied rate.
\<close>

theorem commission_split_adds_up:
  assumes "computePlatformCommission g p ov = Some s"
  shows "ps_feeCents s + ps_netCents s = ps_grossCents s \<and> 0 \<le> ps_feeCents s \<and> 0 \<le> ps_netCents s \<and>
    \<bar>10000 * ps_feeCents s - ps_grossCents s * ps_feeBps s\<bar> \<le> 5000"
proof -
  note r = commission_bps_range [OF assms]
  note f = commission_fee [OF assms]
  have n: "ps_netCents s = ps_grossCents s - ps_feeCents s"
    using assms by (auto simp: computePlatformCommission_def Let_def split: option.splits if_splits)
  have "0 \<le> ps_grossCents s * ps_feeBps s" using r by simp
  then have "0 \<le> ps_feeCents s" unfolding f by (rule js_round_div_nonneg) simp
  moreover have "ps_grossCents s * ps_feeBps s \<le> ps_grossCents s * 10000"
    using r by (intro mult_left_mono) auto
  then have "ps_feeCents s \<le> js_round_div (ps_grossCents s * 10000) 10000"
    unfolding f by (intro js_round_div_mono) auto
  then have "ps_feeCents s \<le> ps_grossCents s" by (simp add: js_round_div_mult)
  moreover have "\<bar>10000 * ps_feeCents s - ps_grossCents s * ps_feeBps s\<bar> \<le> 5000"
    using js_round_div_bounds [of 10000 "ps_grossCents s * ps_feeBps s"] unfolding f by (simp add: abs_le_iff)
  ultimately show ?thesis using n by simp
qed

lemma commission_split_adds_up_witness:
  "\<exists>s. computePlatformCommission (Fin 1050) Freeblackmarket (Some (Fin 250)) = Some s \<and>
     ps_feeCents s = 26 \<and> ps_feeCents s + ps_netCents s = 1050"
proof -
  let ?c = "computePlatformCommission (Fin 1050) Freeblackmarket (Some (Fin 250))"
  have "?c \<noteq> None" "ps_feeCents (the ?c) = 26" "ps_grossCents (the ?c) = 1050" by (code_simp, code_simp, code_simp)
  then obtain s where s: "?c = Some s" "ps_feeCents s = 26" "ps_grossCents s = 1050" by auto
  with commission_split_adds_up [OF s(1)] show ?thesis by (intro exI [of _ s]) simp
qed

text \<open>
  A bigger tip never nets less.  At one rate, a larger gross amount gives at least as
  large a fee and at least as large a net amount.
\<close>

theorem commission_monotone:
  assumes "computePlatformCommission g p ov = Some s" and "computePlatformCommission h p ov = Some t"
    and "ps_grossCents s \<le> ps_grossCents t"
  shows "ps_feeCents s \<le> ps_feeCents t \<and> ps_netCents s \<le> ps_netCents t"
proof -
  have b: "ps_feeBps s = ps_feeBps t" and n: "ps_netCents s = ps_grossCents s - ps_feeCents s"
      "ps_netCents t = ps_grossCents t - ps_feeCents t"
    using assms by (auto simp: computePlatformCommission_def Let_def split: option.splits if_splits)
  note r = commission_bps_range [OF assms(1)]
  have "ps_feeCents s \<le> ps_feeCents t"
    unfolding commission_fee [OF assms(1)] commission_fee [OF assms(2)] b
    using assms(3) r b by (intro js_round_div_mono mult_right_mono) auto
  moreover have "ps_feeCents t - ps_feeCents s \<le> ps_grossCents t - ps_grossCents s"
  proof -
    have "ps_grossCents t * ps_feeBps s \<le> ps_grossCents s * ps_feeBps s + (ps_grossCents t - ps_grossCents s) * 10000"
      using r assms(3) mult_left_mono [of "ps_feeBps s" 10000 "ps_grossCents t - ps_grossCents s"]
      by (simp add: algebra_simps)
    then have "ps_feeCents t \<le> js_round_div (ps_grossCents s * ps_feeBps s + (ps_grossCents t - ps_grossCents s) * 10000) 10000"
      unfolding commission_fee [OF assms(2)] b [symmetric] by (intro js_round_div_mono) auto
    also have "\<dots> = ps_feeCents s + (ps_grossCents t - ps_grossCents s)"
      unfolding commission_fee [OF assms(1)]
      by (simp add: js_round_div_def algebra_simps div_mult_self1)
    finally show ?thesis by simp
  qed
  ultimately show ?thesis using n by simp
qed

end
