(* ===== verification/Coalition_Network.thy ===== *)
theory Coalition_Network
  imports JS_Value
begin

text \<open>
  The pure domain of the coalitions network,
  \<^verbatim>\<open>packages/core/src/coalition/coalitionNetwork.ts\<close>: roles and their
  permissions, tier gates and join requirements, platform capabilities and
  terms, share links, the campaign status graph, the boost meter and slugs.
\<close>

section \<open>Roles, join modes, tiers and permissions\<close>

datatype CoalitionJoinMode = JoinOpen | JoinApproval

fun joinMode_tag :: "CoalitionJoinMode \<Rightarrow> string" where
  "joinMode_tag JoinOpen = ''open''"
| "joinMode_tag JoinApproval = ''approval''"

definition COALITION_JOIN_MODES :: "CoalitionJoinMode list" where
  "COALITION_JOIN_MODES = [JoinOpen, JoinApproval]"

datatype CoalitionRole = Founder | Steward | Griot | Member

fun role_tag :: "CoalitionRole \<Rightarrow> string" where
  "role_tag Founder = ''founder''"
| "role_tag Steward = ''steward''"
| "role_tag Griot = ''griot''"
| "role_tag Member = ''member''"

definition COALITION_ROLES :: "CoalitionRole list" where
  "COALITION_ROLES = [Founder, Steward, Griot, Member]"

fun COALITION_ROLE_POWER_LEVELS :: "CoalitionRole \<Rightarrow> nat" where
  "COALITION_ROLE_POWER_LEVELS Founder = 100"
| "COALITION_ROLE_POWER_LEVELS Steward = 50"
| "COALITION_ROLE_POWER_LEVELS Griot = 25"
| "COALITION_ROLE_POWER_LEVELS Member = 0"

datatype CoalitionTierGate = Seedling | Sprout | RootTier | Canopy | Ancestor

fun tier_tag :: "CoalitionTierGate \<Rightarrow> string" where
  "tier_tag Seedling = ''seedling''"
| "tier_tag Sprout = ''sprout''"
| "tier_tag RootTier = ''root''"
| "tier_tag Canopy = ''canopy''"
| "tier_tag Ancestor = ''ancestor''"

definition COALITION_TIER_GATES :: "CoalitionTierGate list" where
  "COALITION_TIER_GATES = [Seedling, Sprout, RootTier, Canopy, Ancestor]"

datatype CoalitionPermission =
    Coalition_succeed
  | Coalition_edit
  | Coalition_archive
  | Members_approve
  | Members_role
  | Members_remove
  | Members_invite
  | Campaigns_launch
  | Campaigns_approve
  | Campaigns_promote
  | Connections_manage
  | Externals_moderate

definition COALITION_PERMISSIONS :: "CoalitionPermission list" where
  "COALITION_PERMISSIONS =
     [Coalition_succeed, Coalition_edit, Coalition_archive, Members_approve, Members_role,
      Members_remove, Members_invite, Campaigns_launch, Campaigns_approve, Campaigns_promote,
      Connections_manage, Externals_moderate]"

definition STEWARD_PERMISSIONS :: "CoalitionPermission list" where
  "STEWARD_PERMISSIONS =
     [Coalition_succeed, Coalition_edit, Members_approve, Members_role, Members_remove,
      Members_invite, Campaigns_launch, Campaigns_approve, Campaigns_promote,
      Connections_manage, Externals_moderate]"

fun COALITION_ROLE_PERMISSIONS :: "CoalitionRole \<Rightarrow> CoalitionPermission list" where
  "COALITION_ROLE_PERMISSIONS Founder = COALITION_PERMISSIONS"
| "COALITION_ROLE_PERMISSIONS Steward = STEWARD_PERMISSIONS"
| "COALITION_ROLE_PERMISSIONS Griot = [Campaigns_promote, Members_invite]"
| "COALITION_ROLE_PERMISSIONS Member = []"

definition isCoalitionRole :: "js_value \<Rightarrow> bool" where
  "isCoalitionRole v = is_tag (map role_tag COALITION_ROLES) v"

definition isCoalitionJoinMode :: "js_value \<Rightarrow> bool" where
  "isCoalitionJoinMode v = is_tag (map joinMode_tag COALITION_JOIN_MODES) v"

definition isCoalitionTierGate :: "js_value \<Rightarrow> bool" where
  "isCoalitionTierGate v = is_tag (map tier_tag COALITION_TIER_GATES) v"

definition coalitionRoleCan :: "CoalitionRole \<Rightarrow> CoalitionPermission \<Rightarrow> bool" where
  "coalitionRoleCan role permission \<longleftrightarrow> permission \<in> set (COALITION_ROLE_PERMISSIONS role)"

definition assignableRolesFor :: "CoalitionRole \<Rightarrow> CoalitionRole list" where
  "assignableRolesFor actorRole =
     (if actorRole = Founder then [Steward, Griot, Member]
      else if actorRole = Steward then [Griot, Member]
      else [])"

definition tierSatisfies :: "CoalitionTierGate \<Rightarrow> CoalitionTierGate option \<Rightarrow> bool" where
  "tierSatisfies tier gate =
     (case gate of
        None \<Rightarrow> True
      | Some g \<Rightarrow> indexOf COALITION_TIER_GATES tier \<ge> indexOf COALITION_TIER_GATES g)"

lemmas permission_defs = coalitionRoleCan_def COALITION_PERMISSIONS_def STEWARD_PERMISSIONS_def

section \<open>Join requirements\<close>

text \<open>
  What a founder may send: each number any JavaScript number.  What is stored
  is the normalised form, whose numbers are whole.
\<close>

record JoinRequirementsInput =
  in_minAccountAgeDays :: "js_number option"
  in_requireVerifiedEmail :: "bool option"
  in_minReputationScore :: "js_number option"
  in_minCoalitionContributions :: "js_number option"

record CoalitionJoinRequirements =
  minAccountAgeDays :: "int option"
  requireVerifiedEmail :: "bool option"
  minReputationScore :: "int option"
  minCoalitionContributions :: "int option"

datatype CoalitionJoinRequirementKey =
  Account_age | Verified_email | Reputation_key | Contributions_key | Tier_key

record CoalitionJoinRequirementCheck =
  ck_key :: CoalitionJoinRequirementKey
  ck_met :: bool
  ck_unverified :: "bool option"
  ck_required :: string
  ck_actual :: "string option"

definition unmetRequirements ::
  "CoalitionJoinRequirementCheck list \<Rightarrow> CoalitionJoinRequirementCheck list" where
  "unmetRequirements checks = filter (\<lambda>check. \<not> ck_met check) checks"

definition whole :: "js_number option \<Rightarrow> int \<Rightarrow> int option" where
  "whole v mx =
     (case v of
        Some (Fin q) \<Rightarrow> (let n = \<lfloor>q\<rfloor> in if n > 0 \<and> n \<le> mx then Some n else None)
      | _ \<Rightarrow> None)"

definition normalizeJoinRequirements ::
  "JoinRequirementsInput option \<Rightarrow> CoalitionJoinRequirements option" where
  "normalizeJoinRequirements input =
     (case input of
        None \<Rightarrow> None
      | Some r \<Rightarrow>
          (let out = \<lparr>minAccountAgeDays = whole (in_minAccountAgeDays r) 3650,
                      requireVerifiedEmail =
                        (if in_requireVerifiedEmail r = Some True then Some True else None),
                      minReputationScore = whole (in_minReputationScore r) 1000000,
                      minCoalitionContributions =
                        whole (in_minCoalitionContributions r) 10000\<rparr>
           in if minAccountAgeDays out \<noteq> None \<or> requireVerifiedEmail out \<noteq> None \<or>
                 minReputationScore out \<noteq> None \<or> minCoalitionContributions out \<noteq> None
              then Some out else None))"

text \<open>The stored form read back as founder input.\<close>

definition as_input :: "CoalitionJoinRequirements \<Rightarrow> JoinRequirementsInput" where
  "as_input r =
     \<lparr>in_minAccountAgeDays = map_option (\<lambda>n. Fin (of_int n)) (minAccountAgeDays r),
      in_requireVerifiedEmail = requireVerifiedEmail r,
      in_minReputationScore = map_option (\<lambda>n. Fin (of_int n)) (minReputationScore r),
      in_minCoalitionContributions =
        map_option (\<lambda>n. Fin (of_int n)) (minCoalitionContributions r)\<rparr>"

definition whole_ok :: "int \<Rightarrow> int option \<Rightarrow> bool" where
  "whole_ok mx v = (case v of None \<Rightarrow> True | Some n \<Rightarrow> 0 < n \<and> n \<le> mx)"

lemma whole_ok_whole: "whole_ok mx (whole v mx)"
  by (auto simp: whole_ok_def whole_def Let_def split: option.splits js_number.splits)

lemma whole_idem: "whole_ok mx v \<Longrightarrow> whole (map_option (\<lambda>n. Fin (of_int n)) v) mx = v"
  by (auto simp: whole_ok_def whole_def split: option.splits)

section \<open>Entities\<close>

datatype ExternalReplyPolicy = ReplyModerated | ReplyOpen | ReplyOff

record Coalition =
  co_id :: ident
  co_slug :: string
  co_name :: string
  co_mission :: string
  co_bannerUrl :: "string option"
  co_joinMode :: CoalitionJoinMode
  co_minTierToJoin :: "CoalitionTierGate option"
  co_joinRequirements :: "CoalitionJoinRequirements option"
  co_externalReplyPolicy :: "ExternalReplyPolicy option"
  co_spaceRoomId :: "string option"
  co_createdBy :: ident
  co_archivedAt :: "iso option"
  co_takenDownAt :: "iso option"
  co_takenDownBy :: "ident option"
  co_takedownReason :: "string option"
  co_reinstatedAt :: "iso option"
  co_createdAt :: iso
  co_updatedAt :: iso

record CoalitionMembership =
  me_id :: ident
  me_coalitionId :: ident
  me_userId :: ident
  me_role :: CoalitionRole
  me_active :: bool
  me_createdAt :: iso
  me_updatedAt :: iso

datatype CoalitionJoinRequestStatus =
  Req_pending | Req_invited | Req_approved | Req_declined | Req_withdrawn

record CoalitionJoinRequest =
  jr_id :: ident
  jr_coalitionId :: ident
  jr_userId :: ident
  jr_message :: "string option"
  jr_status :: CoalitionJoinRequestStatus
  jr_invitedBy :: "ident option"
  jr_reviewedBy :: "ident option"
  jr_reviewedAt :: "iso option"
  jr_createdAt :: iso
  jr_updatedAt :: iso

end
