(* ===== verification/Coalition_Platforms.thy ===== *)
theory Coalition_Platforms
  imports JS_Value "HOL-Library.Sublist"
begin

text \<open>
  External platforms in \<^verbatim>\<open>coalitionNetwork.ts\<close>: what is built for
  each platform, the terms it is used under, which platforms may be posted to
  unattended, and the share links that open another site's composer.
\<close>

section \<open>Platforms, capabilities and terms\<close>

datatype CoalitionPlatform = PX | PBluesky | PDiscord | PInstagram | PTiktok | PMastodon

fun platform_tag :: "CoalitionPlatform \<Rightarrow> string" where
  "platform_tag PX = ''x''"
| "platform_tag PBluesky = ''bluesky''"
| "platform_tag PDiscord = ''discord''"
| "platform_tag PInstagram = ''instagram''"
| "platform_tag PTiktok = ''tiktok''"
| "platform_tag PMastodon = ''mastodon''"

definition COALITION_PLATFORMS :: "CoalitionPlatform list" where
  "COALITION_PLATFORMS = [PX, PBluesky, PDiscord, PInstagram, PTiktok, PMastodon]"

datatype ConnectionAuthMode = AuthPersonal | AuthShared

record PlatformCapability =
  apiPost :: bool
  adapter :: bool
  inbound :: bool
  cap_label :: string
  authModes :: "ConnectionAuthMode list"

fun COALITION_PLATFORM_CAPABILITIES :: "CoalitionPlatform \<Rightarrow> PlatformCapability" where
  "COALITION_PLATFORM_CAPABILITIES PX =
     \<lparr>apiPost = True, adapter = False, inbound = True, cap_label = ''X'',
      authModes = [AuthShared, AuthPersonal]\<rparr>"
| "COALITION_PLATFORM_CAPABILITIES PBluesky =
     \<lparr>apiPost = True, adapter = True, inbound = True, cap_label = ''Bluesky'',
      authModes = [AuthShared, AuthPersonal]\<rparr>"
| "COALITION_PLATFORM_CAPABILITIES PDiscord =
     \<lparr>apiPost = True, adapter = True, inbound = True, cap_label = ''Discord'',
      authModes = [AuthShared]\<rparr>"
| "COALITION_PLATFORM_CAPABILITIES PMastodon =
     \<lparr>apiPost = True, adapter = True, inbound = True, cap_label = ''Mastodon'',
      authModes = [AuthShared, AuthPersonal]\<rparr>"
| "COALITION_PLATFORM_CAPABILITIES PInstagram =
     \<lparr>apiPost = False, adapter = False, inbound = False, cap_label = ''Instagram'',
      authModes = [AuthShared, AuthPersonal]\<rparr>"
| "COALITION_PLATFORM_CAPABILITIES PTiktok =
     \<lparr>apiPost = False, adapter = False, inbound = False, cap_label = ''TikTok'',
      authModes = [AuthShared, AuthPersonal]\<rparr>"

definition platformAllowsAuthMode :: "CoalitionPlatform \<Rightarrow> ConnectionAuthMode \<Rightarrow> bool" where
  "platformAllowsAuthMode platform authMode \<longleftrightarrow>
     authMode \<in> set (authModes (COALITION_PLATFORM_CAPABILITIES platform))"

datatype PlatformAutomationBasis =
  Incoming_webhook | App_password | Application_token | Developer_agreement | No_basis

datatype AccessTier = TierFree | TierPaid | TierApplication

record AgreementAcceptance =
  accepted_role :: string
  accepted_on :: string
  accepted_reference :: string

record RateLimit =
  rl_posts :: nat
  rl_perSeconds :: nat
  rl_source :: string

record CoalitionPlatformPolicy =
  terms_name :: string
  terms_url :: "string option"
  automationBasis :: PlatformAutomationBasis
  accessTier :: AccessTier
  agreementRequired :: bool
  agreementAccepted :: "AgreementAcceptance option"
  rateLimit :: "RateLimit option"
  reviewedOn :: string

fun COALITION_PLATFORM_POLICY :: "CoalitionPlatform \<Rightarrow> CoalitionPlatformPolicy" where
  "COALITION_PLATFORM_POLICY PX =
     \<lparr>terms_name = ''X Developer Agreement and Policy'',
      terms_url = Some ''https://developer.x.com/en/developer-terms/agreement-and-policy'',
      automationBasis = Developer_agreement, accessTier = TierPaid,
      agreementRequired = True, agreementAccepted = None,
      rateLimit = None, reviewedOn = ''2026-09-20''\<rparr>"
| "COALITION_PLATFORM_POLICY PBluesky =
     \<lparr>terms_name = ''Bluesky Social Terms of Service'',
      terms_url = Some ''https://bsky.social/about/support/tos'',
      automationBasis = App_password, accessTier = TierFree,
      agreementRequired = False, agreementAccepted = None,
      rateLimit = Some \<lparr>rl_posts = 30, rl_perSeconds = 300,
        rl_source = ''AT Protocol PDS rate limits (docs.bsky.app/docs/advanced-guides/rate-limits), createSession per account''\<rparr>,
      reviewedOn = ''2026-09-20''\<rparr>"
| "COALITION_PLATFORM_POLICY PDiscord =
     \<lparr>terms_name = ''Discord Developer Terms of Service'',
      terms_url = Some ''https://discord.com/developers/docs/policies-and-agreements/developer-terms-of-service'',
      automationBasis = Incoming_webhook, accessTier = TierFree,
      agreementRequired = False, agreementAccepted = None,
      rateLimit = None, reviewedOn = ''2026-09-20''\<rparr>"
| "COALITION_PLATFORM_POLICY PMastodon =
     \<lparr>terms_name = ''The instance'' @ [char_of (39 :: nat)] @ ''s own terms of service'',
      terms_url = None,
      automationBasis = Application_token, accessTier = TierFree,
      agreementRequired = False, agreementAccepted = None,
      rateLimit = Some \<lparr>rl_posts = 300, rl_perSeconds = 300,
        rl_source = ''Mastodon API documentation, Rate limits, default per-account limit''\<rparr>,
      reviewedOn = ''2026-09-20''\<rparr>"
| "COALITION_PLATFORM_POLICY PInstagram =
     \<lparr>terms_name = ''Instagram Terms of Use'',
      terms_url = Some ''https://help.instagram.com/581066165581870'',
      automationBasis = No_basis, accessTier = TierApplication,
      agreementRequired = False, agreementAccepted = None,
      rateLimit = None, reviewedOn = ''2026-09-20''\<rparr>"
| "COALITION_PLATFORM_POLICY PTiktok =
     \<lparr>terms_name = ''TikTok Terms of Service'',
      terms_url = Some ''https://www.tiktok.com/legal/page/row/terms-of-service/en'',
      automationBasis = No_basis, accessTier = TierApplication,
      agreementRequired = False, agreementAccepted = None,
      rateLimit = None, reviewedOn = ''2026-09-20''\<rparr>"

datatype PlatformAutomationBlocker = Share_link_only | No_adapter | Agreement_unsigned

definition platformAutomationBlockers :: "CoalitionPlatform \<Rightarrow> PlatformAutomationBlocker list" where
  "platformAutomationBlockers platform =
     (let capability = COALITION_PLATFORM_CAPABILITIES platform;
          policy = COALITION_PLATFORM_POLICY platform
      in (if \<not> apiPost capability then [Share_link_only] else []) @
         (if apiPost capability \<and> \<not> adapter capability then [No_adapter] else []) @
         (if agreementRequired policy \<and> agreementAccepted policy = None
          then [Agreement_unsigned] else []))"

definition platformCanAutomate :: "CoalitionPlatform \<Rightarrow> bool" where
  "platformCanAutomate platform \<longleftrightarrow> length (platformAutomationBlockers platform) = 0"

section \<open>Share links\<close>

datatype CoalitionShareTarget =
    TCopy | TX | TBluesky | TMastodon | TThreads | TFacebook | TReddit | TLinkedin
  | TTelegram | TWhatsapp | TEmail | TSms | TInstagram | TTiktok | TDiscord

datatype ShareKind = KIntent | KCopy

record CoalitionShareTargetSpec =
  st_label :: string
  st_kind :: ShareKind
  st_needsInstanceHost :: "bool option"

fun COALITION_SHARE_TARGET_SPECS :: "CoalitionShareTarget \<Rightarrow> CoalitionShareTargetSpec" where
  "COALITION_SHARE_TARGET_SPECS TCopy =
     \<lparr>st_label = ''Copy link'', st_kind = KCopy, st_needsInstanceHost = None\<rparr>"
| "COALITION_SHARE_TARGET_SPECS TX =
     \<lparr>st_label = ''X'', st_kind = KIntent, st_needsInstanceHost = None\<rparr>"
| "COALITION_SHARE_TARGET_SPECS TBluesky =
     \<lparr>st_label = ''Bluesky'', st_kind = KIntent, st_needsInstanceHost = None\<rparr>"
| "COALITION_SHARE_TARGET_SPECS TMastodon =
     \<lparr>st_label = ''Mastodon'', st_kind = KIntent, st_needsInstanceHost = Some True\<rparr>"
| "COALITION_SHARE_TARGET_SPECS TThreads =
     \<lparr>st_label = ''Threads'', st_kind = KIntent, st_needsInstanceHost = None\<rparr>"
| "COALITION_SHARE_TARGET_SPECS TFacebook =
     \<lparr>st_label = ''Facebook'', st_kind = KIntent, st_needsInstanceHost = None\<rparr>"
| "COALITION_SHARE_TARGET_SPECS TReddit =
     \<lparr>st_label = ''Reddit'', st_kind = KIntent, st_needsInstanceHost = None\<rparr>"
| "COALITION_SHARE_TARGET_SPECS TLinkedin =
     \<lparr>st_label = ''LinkedIn'', st_kind = KIntent, st_needsInstanceHost = None\<rparr>"
| "COALITION_SHARE_TARGET_SPECS TTelegram =
     \<lparr>st_label = ''Telegram'', st_kind = KIntent, st_needsInstanceHost = None\<rparr>"
| "COALITION_SHARE_TARGET_SPECS TWhatsapp =
     \<lparr>st_label = ''WhatsApp'', st_kind = KIntent, st_needsInstanceHost = None\<rparr>"
| "COALITION_SHARE_TARGET_SPECS TEmail =
     \<lparr>st_label = ''Email'', st_kind = KIntent, st_needsInstanceHost = None\<rparr>"
| "COALITION_SHARE_TARGET_SPECS TSms =
     \<lparr>st_label = ''Messages'', st_kind = KIntent, st_needsInstanceHost = None\<rparr>"
| "COALITION_SHARE_TARGET_SPECS TInstagram =
     \<lparr>st_label = ''Instagram'', st_kind = KCopy, st_needsInstanceHost = None\<rparr>"
| "COALITION_SHARE_TARGET_SPECS TTiktok =
     \<lparr>st_label = ''TikTok'', st_kind = KCopy, st_needsInstanceHost = None\<rparr>"
| "COALITION_SHARE_TARGET_SPECS TDiscord =
     \<lparr>st_label = ''Discord'', st_kind = KCopy, st_needsInstanceHost = None\<rparr>"

text \<open>
  \<^verbatim>\<open>INSTANCE_HOST\<close>: two or more labels separated by dots; a label is
  letters, digits and hyphens, and starts and ends with a letter or a digit.
\<close>

definition host_label :: "string \<Rightarrow> bool" where
  "host_label w \<longleftrightarrow> w \<noteq> [] \<and> is_alnum (hd w) \<and> is_alnum (last w) \<and>
     (\<forall>c \<in> set w. is_alnum c \<or> c = CHR ''-'')"

definition isInstanceHost :: "string \<Rightarrow> bool" where
  "isInstanceHost v \<longleftrightarrow> length v \<le> 253 \<and>
     (let labels = split_on (CHR ''.'') v in 2 \<le> length labels \<and> (\<forall>w \<in> set labels. host_label w))"

record ShareComposition =
  sh_text :: string
  sh_url :: string
  sh_title :: string

definition buildShareHref ::
  "CoalitionShareTarget \<Rightarrow> ShareComposition \<Rightarrow> string option \<Rightarrow> string option" where
  "buildShareHref target post instanceHost =
     (if st_kind (COALITION_SHARE_TARGET_SPECS target) = KCopy then None
      else (let text = encodeURIComponent (sh_text post);
                url = encodeURIComponent (sh_url post);
                title = encodeURIComponent (sh_title post)
            in case target of
                 TX \<Rightarrow> Some (''https://x.com/intent/post?text='' @ text)
               | TBluesky \<Rightarrow> Some (''https://bsky.app/intent/compose?text='' @ text)
               | TMastodon \<Rightarrow>
                   (case instanceHost of
                      None \<Rightarrow> None
                    | Some h \<Rightarrow>
                        if h \<noteq> [] \<and> isInstanceHost h
                        then Some (''https://'' @ h @ ''/share?text='' @ text) else None)
               | TThreads \<Rightarrow> Some (''https://www.threads.net/intent/post?text='' @ text)
               | TFacebook \<Rightarrow> Some (''https://www.facebook.com/sharer/sharer.php?u='' @ url)
               | TReddit \<Rightarrow>
                   Some (''https://www.reddit.com/submit?url='' @ url @ ''&title='' @ title)
               | TLinkedin \<Rightarrow>
                   Some (''https://www.linkedin.com/sharing/share-offsite/?url='' @ url)
               | TTelegram \<Rightarrow> Some (''https://t.me/share/url?url='' @ url @ ''&text='' @ title)
               | TWhatsapp \<Rightarrow> Some (''https://wa.me/?text='' @ text)
               | TEmail \<Rightarrow> Some (''mailto:?subject='' @ title @ ''&body='' @ text)
               | TSms \<Rightarrow> Some (''sms:?&body='' @ text)
               | _ \<Rightarrow> None))"

lemmas share_specs = COALITION_SHARE_TARGET_SPECS.simps

lemma sublist_prefixI: "sublist u s \<Longrightarrow> sublist u (p @ s)"
  by (simp add: sublist_append)

lemma sublist_suffixI: "sublist u s \<Longrightarrow> sublist u (s @ q)"
  by (simp add: sublist_append)

section \<open>Properties\<close>

text \<open>
  A share link always carries the campaign URL.  When the composed text
  ends with the canonical URL, every link \<^verbatim>\<open>buildShareHref\<close> returns
  contains the percent-encoded URL, and a link is refused only for the targets
  without a web composer and for Mastodon without a well-formed host.
\<close>

lemma buildShareHref_carries_url:
  assumes "sh_text post = pre @ sh_url post"
  shows "(case buildShareHref target post host of
            Some href \<Rightarrow> sublist (encodeURIComponent (sh_url post)) href
          | None \<Rightarrow> st_kind (COALITION_SHARE_TARGET_SPECS target) = KCopy \<or>
              (target = TMastodon \<and> (\<forall>h. host = Some h \<longrightarrow> h = [] \<or> \<not> isInstanceHost h)))"
proof -
  have text_carries: "sublist (encodeURIComponent (sh_url post)) (encodeURIComponent (sh_text post))"
    using assms by (simp add: sublist_append_leftI)
  show ?thesis
    by (cases target)
      (simp_all add: buildShareHref_def Let_def text_carries sublist_prefixI sublist_suffixI
        del: append_Cons append.simps split: option.splits)
qed

end
