(* ===== verification/JS_Date.thy ===== *)
theory JS_Date
  imports JS_Value
begin

text \<open>
  What the sources use of JavaScript dates: calendar days as the first ten characters
  of an ISO timestamp, and \<^verbatim>\<open>Date.parse\<close> on the timestamps the program
  writes itself (\<^verbatim>\<open>toISOString\<close>, \<^verbatim>\<open>YYYY-MM-DDTHH:MM:SS.mmmZ\<close>).
\<close>

definition leap_year :: "nat \<Rightarrow> bool" where
  "leap_year y \<longleftrightarrow> (4 dvd y \<and> \<not> 100 dvd y) \<or> 400 dvd y"

definition days_in_month :: "nat \<Rightarrow> nat \<Rightarrow> nat" where
  "days_in_month y m =
     (if m = 2 then (if leap_year y then 29 else 28)
      else if m \<in> {4, 6, 9, 11} then 30 else 31)"

definition pad_digits :: "nat \<Rightarrow> nat \<Rightarrow> string" where
  "pad_digits w n = (let s = show_nat n in replicate (w - length s) (CHR ''0'') @ s)"

definition format_day :: "nat \<Rightarrow> nat \<Rightarrow> nat \<Rightarrow> string" where
  "format_day y m d = pad_digits 4 y @ ''-'' @ pad_digits 2 m @ ''-'' @ pad_digits 2 d"

definition parse_day :: "string \<Rightarrow> (nat \<times> nat \<times> nat) option" where
  "parse_day s =
     (if length s = 10 \<and> (\<forall>i < 10. if i = 4 \<or> i = 7 then s ! i = CHR ''-'' else is_digit (s ! i))
      then (let y = read_nat (take 4 s); m = read_nat (take 2 (drop 5 s)); d = read_nat (drop 8 s)
            in if 1 \<le> m \<and> m \<le> 12 \<and> 1 \<le> d \<and> d \<le> days_in_month y m then Some (y, m, d) else None)
      else None)"

text \<open>
  \<^verbatim>\<open>new Date(Date.parse(day + 'T00:00:00Z') - 86400000).toISOString()\<close>,
  cut to its first ten characters: the calendar day before, in the proleptic
  Gregorian calendar.  The callers pass a clock reading in ISO format, which always
  starts with a calendar day; any other string is \<open>None\<close> here (the source
  throws from \<^verbatim>\<open>toISOString\<close>).
\<close>

definition day_before :: "string \<Rightarrow> string option" where
  "day_before s =
     (case parse_day s of
        None \<Rightarrow> None
      | Some (y, m, d) \<Rightarrow>
          Some (if 1 < d then format_day y m (d - 1)
                else if 1 < m then format_day y (m - 1) (days_in_month y (m - 1))
                else if y = 0 then ''-000001-12''
                else format_day (y - 1) 12 31))"

text \<open>Days since 1 January 1970.\<close>

definition day_number :: "nat \<Rightarrow> nat \<Rightarrow> nat \<Rightarrow> int" where
  "day_number y m d =
     (let y' = int y - (if m \<le> 2 then 1 else 0); m' = int ((m + 9) mod 12)
      in 365 * y' + y' div 4 - y' div 100 + y' div 400 + (153 * m' + 2) div 5 + int d - 1 - 719468)"

text \<open>
  \<^verbatim>\<open>Date.parse\<close> in milliseconds; a string of another shape is not a date
  (\<^verbatim>\<open>NaN\<close>).
\<close>

definition Date_parse :: "string \<Rightarrow> int option" where
  "Date_parse s =
     (if length s = 24 \<and> s ! 10 = CHR ''T'' \<and> s ! 13 = CHR '':'' \<and> s ! 16 = CHR '':'' \<and>
         s ! 19 = CHR ''.'' \<and> s ! 23 = CHR ''Z'' \<and>
         (\<forall>i \<in> {11, 12, 14, 15, 17, 18, 20, 21, 22}. is_digit (s ! i))
      then case parse_day (take 10 s) of
             None \<Rightarrow> None
           | Some (y, m, d) \<Rightarrow>
               (let h = read_nat (take 2 (drop 11 s)); mi = read_nat (take 2 (drop 14 s));
                    sec = read_nat (take 2 (drop 17 s)); ms = read_nat (take 3 (drop 20 s))
                in if h < 24 \<and> mi < 60 \<and> sec < 60
                   then Some (((day_number y m d * 24 + int h) * 60 + int mi) * 60000 + int sec * 1000 + int ms)
                   else None)
      else None)"

lemma Date_parse_epoch: "Date_parse ''1970-01-02T00:00:01.000Z'' = Some 86401000"
  by code_simp

lemma Date_parse_leap: "Date_parse ''2024-03-01T00:00:00.000Z'' = Some 1709251200000"
  by code_simp

end
