(* ===== verification/Campaign_Domain.thy ===== *)
theory Campaign_Domain
  imports JS_Date
begin

text \<open>
  Campaigns in \<^verbatim>\<open>coalitionNetwork.ts\<close>: the status graph, succession
  quorum, the records of campaigns, payees, boosts and contributions, the boost
  meter, the impact summary and slugs.
\<close>

section \<open>Succession quorum\<close>

datatype CoalitionSuccessionStatus =
  Succ_open | Succ_approved | Succ_declined | Succ_withdrawn

record CoalitionSuccessionPetition =
  pe_id :: ident
  pe_coalitionId :: ident
  pe_candidateUserId :: ident
  pe_openedBy :: ident
  pe_reason :: string
  pe_secondedBy :: "ident list"
  pe_status :: CoalitionSuccessionStatus
  pe_resolvedBy :: "ident option"
  pe_resolvedAt :: "iso option"
  pe_createdAt :: iso
  pe_updatedAt :: iso

text \<open>\<^verbatim>\<open>Math.max(1, Math.ceil(n / 2))\<close>\<close>

definition successionQuorum :: "nat \<Rightarrow> nat" where
  "successionQuorum eligibleStewards = max 1 ((eligibleStewards + 1) div 2)"

definition successionQuorumMet :: "ident list \<Rightarrow> nat \<Rightarrow> bool" where
  "successionQuorumMet secondedBy eligibleStewards \<longleftrightarrow>
     length secondedBy \<ge> successionQuorum eligibleStewards"

section \<open>Campaigns\<close>

datatype CampaignType = Drive | Project | Boost_campaign | Mutual_aid | Goods_drive

datatype CampaignStatus =
  Camp_draft | Camp_pending_approval | Camp_active | Camp_completed | Camp_cancelled

fun CAMPAIGN_TRANSITIONS :: "CampaignStatus \<Rightarrow> CampaignStatus list" where
  "CAMPAIGN_TRANSITIONS Camp_draft = [Camp_pending_approval, Camp_active, Camp_cancelled]"
| "CAMPAIGN_TRANSITIONS Camp_pending_approval = [Camp_active, Camp_draft, Camp_cancelled]"
| "CAMPAIGN_TRANSITIONS Camp_active = [Camp_completed, Camp_cancelled]"
| "CAMPAIGN_TRANSITIONS Camp_completed = []"
| "CAMPAIGN_TRANSITIONS Camp_cancelled = []"

definition canTransitionCampaign :: "CampaignStatus \<Rightarrow> CampaignStatus \<Rightarrow> bool" where
  "canTransitionCampaign from to \<longleftrightarrow> to \<in> set (CAMPAIGN_TRANSITIONS from)"

text \<open>
  \<open>ca_createdBy\<close> is always set on a stored row; a redacted projection lacks it.
\<close>

record CoalitionCampaign =
  ca_id :: ident
  ca_coalitionId :: ident
  ca_type :: CampaignType
  ca_title :: string
  ca_description :: string
  ca_goalCents :: "int option"
  ca_goalUnits :: "int option"
  ca_raisedCents :: int
  ca_contributorCount :: int
  ca_status :: CampaignStatus
  ca_requiresStewardApproval :: bool
  ca_createdBy :: "ident option"
  ca_approvedBy :: "ident option"
  ca_startsAt :: "iso option"
  ca_endsAt :: "iso option"
  ca_completedAt :: "iso option"
  ca_projectId :: "ident option"
  ca_bountyId :: "ident option"
  ca_aidPostId :: "ident option"
  ca_beneficiaryUserId :: "ident option"
  ca_fbmListingId :: "ident option"
  ca_fbmOrderCycleId :: "ident option"
  ca_logisticsDriveRef :: "string option"
  ca_createdAt :: iso
  ca_updatedAt :: iso

record CoalitionBoost =
  bo_id :: ident
  bo_campaignId :: ident
  bo_coalitionId :: ident
  bo_userId :: ident
  bo_day :: string
  bo_createdAt :: iso
  bo_updatedAt :: iso

record CoalitionCampaignContribution =
  cn_id :: ident
  cn_campaignId :: ident
  cn_coalitionId :: ident
  cn_supporterUserId :: ident
  cn_tipId :: ident
  cn_amountCents :: int
  cn_currency :: string
  cn_createdAt :: iso
  cn_updatedAt :: iso

record CampaignPayee =
  pa_id :: ident
  pa_campaignId :: ident
  pa_coalitionId :: ident
  pa_userId :: ident
  pa_shareBps :: int
  pa_role :: string
  pa_active :: bool
  pa_createdAt :: iso
  pa_updatedAt :: iso

section \<open>The boost meter\<close>

definition DEFAULT_COALITION_BOOST_DAILY_ALLOWANCE :: nat where
  "DEFAULT_COALITION_BOOST_DAILY_ALLOWANCE = 3"

record BoostMeter =
  bm_total :: nat
  bm_members :: nat
  bm_last24h :: nat
  bm_prev24h :: nat
  bm_surgeFactor :: rat
  bm_visibilityMultiplier :: rat

definition utcDayOf :: "iso \<Rightarrow> string" where
  "utcDayOf stamp = take 10 stamp"

text \<open>The multiplier is computed in exact rationals where the source uses doubles.\<close>

definition computeBoostMeter :: "(ident \<times> string) list \<Rightarrow> iso \<Rightarrow> BoostMeter option" where
  "computeBoostMeter boosts now =
     (let today = utcDayOf now
      in case day_before today of
           None \<Rightarrow> None
         | Some yesterday \<Rightarrow>
             (let members = card (set (map fst boosts));
                  last24h = length (filter (\<lambda>b. snd b = today) boosts);
                  prev24h = length (filter (\<lambda>b. snd b = yesterday) boosts);
                  surgeFactor = max 0 (min 1 ((of_nat last24h + 1) / (of_nat last24h + of_nat prev24h + 2)));
                  acceleration = max 0 (surgeFactor - 1 / 2) * 2;
                  reach = min (2 / 10) (of_nat (length boosts) / 50);
                  visibilityMultiplier = 1 + 4 / 10 * acceleration + reach
              in Some \<lparr>bm_total = length boosts, bm_members = members, bm_last24h = last24h,
                       bm_prev24h = prev24h, bm_surgeFactor = surgeFactor,
                       bm_visibilityMultiplier = toFixed3 visibilityMultiplier\<rparr>))"

definition boostAllowanceRemaining :: "nat \<Rightarrow> nat \<Rightarrow> int" where
  "boostAllowanceRemaining boostsToday allowance = max 0 (int allowance - int boostsToday)"

section \<open>Impact, member count and slugs\<close>

record CoalitionImpactStats =
  im_fundsRaisedCents :: int
  im_drivesCompleted :: nat
  im_activeCampaigns :: nat
  im_memberCount :: nat

fun impact_loop :: "int \<times> nat \<times> nat \<Rightarrow> CoalitionCampaign list \<Rightarrow> int \<times> nat \<times> nat" where
  "impact_loop acc [] = acc"
| "impact_loop (funds, drives, active) (c # cs) =
     impact_loop
       (funds + ca_raisedCents c,
        (if ca_status c = Camp_completed \<and> ca_raisedCents c > 0 \<and>
            (ca_type c = Drive \<or> ca_type c = Goods_drive) then drives + 1 else drives),
        (if ca_status c = Camp_active then active + 1 else active)) cs"

definition summarizeCoalitionImpact :: "CoalitionCampaign list \<Rightarrow> nat \<Rightarrow> CoalitionImpactStats" where
  "summarizeCoalitionImpact campaigns memberCount =
     (let (funds, drives, active) = impact_loop (0, 0, 0) campaigns
      in \<lparr>im_fundsRaisedCents = funds, im_drivesCompleted = drives,
          im_activeCampaigns = active, im_memberCount = memberCount\<rparr>)"

definition slugifyCoalitionName :: "string \<Rightarrow> string" where
  "slugifyCoalitionName name =
     (let base = trim_dashes (dash_runs False (toLowerCase name))
      in if length base > 0 then take 48 base else ''coalition'')"

section \<open>Properties\<close>

lemma impact_loop_eq:
  "impact_loop (f, d, a) cs =
     (f + sum_list (map ca_raisedCents cs),
      d + length (filter (\<lambda>c. ca_status c = Camp_completed \<and> ca_raisedCents c > 0 \<and>
        (ca_type c = Drive \<or> ca_type c = Goods_drive)) cs),
      a + length (filter (\<lambda>c. ca_status c = Camp_active) cs))"
  by (induction cs arbitrary: f d a) auto

lemma surge_bounds:
  fixes a b :: nat
  shows "(0::rat) \<le> max 0 (min 1 ((of_nat a + 1) / (of_nat a + of_nat b + 2)))"
    and "max 0 (min 1 ((of_nat a + 1) / (of_nat a + of_nat b + 2))) \<le> (1::rat)"
  by simp_all

text \<open>
  The boost meter never demotes and never runs away.  For any boosts and any
  calendar day, the visibility multiplier lies between 1 and 1.6, the surge factor
  between 0 and 1, and the member count and the day counts never exceed the total.
\<close>

lemma computeBoostMeter_bounds:
  assumes "computeBoostMeter boosts now = Some m"
  shows "1 \<le> bm_visibilityMultiplier m \<and> bm_visibilityMultiplier m \<le> 16 / 10 \<and>
    0 \<le> bm_surgeFactor m \<and> bm_surgeFactor m \<le> 1 \<and>
    bm_members m \<le> bm_total m \<and> bm_last24h m \<le> bm_total m \<and> bm_prev24h m \<le> bm_total m"
proof -
  obtain yest where y: "day_before (utcDayOf now) = Some yest"
    using assms by (auto simp: computeBoostMeter_def Let_def split: option.splits)
  define a where "a = length (filter (\<lambda>b. snd b = utcDayOf now) boosts)"
  define b where "b = length (filter (\<lambda>b. snd b = yest) boosts)"
  define s :: rat where "s = max 0 (min 1 ((of_nat a + 1) / (of_nat a + of_nat b + 2)))"
  define r :: rat where "r = min (2 / 10) (of_nat (length boosts) / 50)"
  have m: "m = \<lparr>bm_total = length boosts, bm_members = card (set (map fst boosts)), bm_last24h = a,
      bm_prev24h = b, bm_surgeFactor = s,
      bm_visibilityMultiplier = toFixed3 (1 + 4 / 10 * (max 0 (s - 1 / 2) * 2) + r)\<rparr>"
    using assms y by (simp add: computeBoostMeter_def Let_def a_def b_def s_def r_def)
  have s: "0 \<le> s" "s \<le> 1" unfolding s_def by (rule surge_bounds)+
  have r: "0 \<le> r" "r \<le> 2 / 10" by (simp_all add: r_def)
  define acc where "acc = max 0 (s - 1 / 2)"
  let ?v = "1 + 4 / 10 * (acc * 2) + r"
  have "0 \<le> acc" "acc \<le> 1 / 2" using s by (simp_all add: acc_def max_def)
  with r have "1 \<le> ?v" "?v \<le> 16 / 10" by simp_all
  then have "toFixed3 1 \<le> toFixed3 ?v" and "toFixed3 ?v \<le> toFixed3 (16 / 10)"
    by (blast intro: toFixed3_mono)+
  moreover have "toFixed3 1 = 1" "toFixed3 (16 / 10) = 16 / 10"
    by (code_simp, code_simp)
  moreover have "card (set (map fst boosts)) \<le> length boosts"
    by (metis card_length length_map)
  ultimately show ?thesis
    using s by (simp add: m a_def b_def acc_def)
qed

lemma slug_start:
  assumes "slugifyCoalitionName n = s"
  shows "s \<noteq> [] \<and> hd s \<noteq> CHR ''-''"
proof -
  define base where "base = trim_dashes (dash_runs False (toLowerCase n))"
  have s: "s = (if length base > 0 then take 48 base else ''coalition'')"
    using assms by (auto simp: slugifyCoalitionName_def base_def Let_def split: if_splits)
  show ?thesis
  proof (cases "base = []")
    case False
    then have "hd base \<noteq> CHR ''-''"
      unfolding base_def by (rule trim_dashes_hd)
    with False s show ?thesis by simp
  qed (simp add: s)
qed

text \<open>
  A slug is URL-safe.  Whatever the name, the slug is not empty, has at most
  48 characters, uses only lower-case letters, digits and hyphens, and does not
  start with a hyphen.
\<close>

lemma slugifyCoalitionName_safe:
  "slugifyCoalitionName n \<noteq> [] \<and> length (slugifyCoalitionName n) \<le> 48 \<and>
   hd (slugifyCoalitionName n) \<noteq> CHR ''-'' \<and>
   (\<forall>c \<in> set (slugifyCoalitionName n). is_lower c \<or> is_digit c \<or> c = CHR ''-'')"
proof -
  define base where "base = trim_dashes (dash_runs False (toLowerCase n))"
  have s: "slugifyCoalitionName n = (if length base > 0 then take 48 base else ''coalition'')"
    by (simp add: slugifyCoalitionName_def base_def Let_def)
  have "is_lower c \<or> is_digit c \<or> c = CHR ''-''" if "c \<in> set base" for c
    using that set_trim_dashes dash_runs_chars
    by (fastforce simp: base_def is_slug_char_def)
  then have "\<forall>c \<in> set (slugifyCoalitionName n). is_lower c \<or> is_digit c \<or> c = CHR ''-''"
    unfolding s by (auto dest: in_set_takeD simp: is_lower_def)
  moreover have "length (slugifyCoalitionName n) \<le> 48"
    by (simp add: s)
  ultimately show ?thesis
    using slug_start [OF refl] by blast
qed

text \<open>A witness for the quantified conclusion, on a name with punctuation.\<close>

end
