(* ===== verification/Coalition_Db.thy ===== *)
theory Coalition_Db
  imports JS_Map User_Identity Reputation Marketplace_Fees Coalition_Network Coalition_Platforms Campaign_Domain
begin

text \<open>
  The coalition tables of \<^verbatim>\<open>db/store.ts\<close> and what the services send outside
  them.  A table is an insertion-ordered map from the key string the source builds to
  the row.  Every upsert keeps the creation time of the row it replaces.  \<open>now\<close> is
  the reading of the clock during the operation.

  Domain events, Matrix Space synchronisation, provider calls and background jobs are
  appended to \<open>effects\<close> in the order the code performs them.
\<close>

section \<open>Effects\<close>

datatype CoalitionReputationEvent =
  Drive_completed | Project_delivered | Mutual_aid_fulfilled | Drive_contributed | Quest_completed

datatype JoinVia = Via_open | Via_approved | Via_invited

datatype MembershipEvent =
    Ev_coalition_created ident ident CoalitionJoinMode
  | Ev_coalition_taken_down ident ident string
  | Ev_coalition_reinstated ident ident
  | Ev_coalition_archived ident
  | Ev_member_joined ident ident CoalitionRole JoinVia
  | Ev_join_requested ident ident "CoalitionJoinRequirementKey list"
  | Ev_join_reviewed ident ident bool ident
  | Ev_member_invited ident ident ident
  | Ev_member_left ident ident "ident option"
  | Ev_role_changed ident ident CoalitionRole ident
  | Ev_founder_transferred ident "ident option" ident
  | Ev_succession_opened ident ident ident
  | Ev_succession_approved ident ident ident nat

datatype CampaignEvent =
    Ev_campaign_created ident ident CampaignType CampaignStatus "ident option"
  | Ev_campaign_status ident ident CampaignStatus ident
  | Ev_campaign_boosted ident ident ident nat
  | Ev_aid_raised ident ident ident ident
  | Ev_payees_set ident ident nat ident
  | Ev_contribution_recorded CoalitionCampaignContribution int ident "(ident \<times> int) list"
  | Ev_goal_reached ident ident int int iso

datatype SpaceSync =
    Space_provision ident
  | Space_settings ident
  | Space_close ident
  | Space_member ident ident CoalitionRole
  | Space_role ident ident CoalitionRole
  | Space_remove ident ident string

datatype BackgroundJob =
    Push_status ident string
  | Push_milestones ident
  | Job_withdraw_listings ident
  | Job_open_window CoalitionCampaign
  | Job_ensure_listing CoalitionCampaign
  | Job_archive_listing CoalitionCampaign
  | Award_karma CoalitionReputationEvent ident ident ident
  | Post_bounty ident ident ident
  | Relay_campaign ident ident

datatype TipEvent =
    Ev_tip_captured TipRecord
  | Ev_tip_refunded TipRecord
  | Project_support ident ident ident int string
  | Outbound_webhook TipRecord

datatype ProviderCall =
    Create_listing ident ident
  | Publish_listing ident ident
  | Archive_listing ident ident
  | Open_checkout ident ident int string

datatype Effect =
    Emit MembershipEvent
  | EmitC CampaignEvent
  | EmitT TipEvent
  | Provider ProviderCall
  | Space SpaceSync
  | Job BackgroundJob

section \<open>The database\<close>

record CoalitionMemberConnection =
  mc_id :: ident
  mc_coalitionId :: ident
  mc_userId :: ident
  mc_platform :: CoalitionPlatform
  mc_credentialRef :: "string option"
  mc_displayHandle :: "string option"
  mc_revokedAt :: "iso option"
  mc_createdAt :: iso
  mc_updatedAt :: iso

text \<open>The part of a mutual-aid post that raising it reads.\<close>

record CoalitionAidPost =
  ap_id :: ident
  ap_customerId :: string
  ap_title :: string
  ap_description :: string

record CoalitionDb =
  db_users :: user_table
  db_profiles :: "(string, bool option) js_map"
  db_reputationEvents :: reputation_log
  db_coalitions :: "(ident, Coalition) js_map"
  db_memberships :: "(string, CoalitionMembership) js_map"
  db_joinRequests :: "(string, CoalitionJoinRequest) js_map"
  db_memberConnections :: "(string, CoalitionMemberConnection) js_map"
  db_campaigns :: "(ident, CoalitionCampaign) js_map"
  db_petitions :: "(ident, CoalitionSuccessionPetition) js_map"
  db_payees :: "(string, CampaignPayee) js_map"
  db_contributions :: "(ident, CoalitionCampaignContribution) js_map"
  db_boosts :: "(string, CoalitionBoost) js_map"
  db_tips :: "(ident, TipRecord) js_map"
  db_aidPosts :: "CoalitionAidPost list"
  effects :: "Effect list"

definition empty_db :: CoalitionDb where
  "empty_db = \<lparr>db_users = [], db_profiles = [], db_reputationEvents = [], db_coalitions = [], db_memberships = [], db_joinRequests = [],
     db_memberConnections = [], db_campaigns = [], db_petitions = [], db_payees = [],
     db_contributions = [], db_boosts = [], db_tips = [], db_aidPosts = [], effects = []\<rparr>"

definition emit :: "Effect \<Rightarrow> CoalitionDb \<Rightarrow> CoalitionDb" where
  "emit e db = db\<lparr>effects := effects db @ [e]\<rparr>"

text \<open>
  \<^verbatim>\<open>if (filter.f && row.f !== filter.f) return false\<close>: an absent or empty filter
  admits every row.
\<close>

definition admits :: "string option \<Rightarrow> string \<Rightarrow> bool" where
  "admits flt v \<longleftrightarrow> (case flt of None \<Rightarrow> True | Some s \<Rightarrow> s = [] \<or> v = s)"

definition admits_tag :: "'a option \<Rightarrow> 'a \<Rightarrow> bool" where
  "admits_tag flt v \<longleftrightarrow> (case flt of None \<Rightarrow> True | Some s \<Rightarrow> v = s)"

section \<open>Keys\<close>

definition pair_key :: "ident \<Rightarrow> ident \<Rightarrow> string" where
  "pair_key a b = a @ ''::'' @ b"

definition coalitionMembershipKey :: "ident \<Rightarrow> ident \<Rightarrow> string" where
  "coalitionMembershipKey coalitionId userId = pair_key coalitionId userId"

definition membership_key :: "CoalitionMembership \<Rightarrow> string" where
  "membership_key m = coalitionMembershipKey (me_coalitionId m) (me_userId m)"

definition joinRequest_key :: "CoalitionJoinRequest \<Rightarrow> string" where
  "joinRequest_key r = coalitionMembershipKey (jr_coalitionId r) (jr_userId r)"

definition memberConnection_key :: "CoalitionMemberConnection \<Rightarrow> string" where
  "memberConnection_key r =
     pair_key (mc_coalitionId r) (pair_key (mc_userId r) (platform_tag (mc_platform r)))"

definition payee_key :: "CampaignPayee \<Rightarrow> string" where
  "payee_key p = pair_key (pa_campaignId p) (pa_userId p)"

definition boost_key :: "CoalitionBoost \<Rightarrow> string" where
  "boost_key b = pair_key (bo_campaignId b) (pair_key (bo_userId b) (bo_day b))"

section \<open>Operations\<close>

definition listCoalitions_db :: "CoalitionDb \<Rightarrow> Coalition list" where
  "listCoalitions_db db = js_values (db_coalitions db)"

definition getCoalition_db :: "CoalitionDb \<Rightarrow> ident \<Rightarrow> Coalition option" where
  "getCoalition_db db cid = js_get cid (db_coalitions db)"

definition getCoalitionBySlug :: "CoalitionDb \<Rightarrow> string \<Rightarrow> Coalition option" where
  "getCoalitionBySlug db slug = find (\<lambda>row. co_slug row = slug) (js_values (db_coalitions db))"

definition upsertCoalition :: "iso \<Rightarrow> Coalition \<Rightarrow> CoalitionDb \<Rightarrow> Coalition \<times> CoalitionDb" where
  "upsertCoalition now input db =
     (let existing = js_get (co_id input) (db_coalitions db);
          row = input\<lparr>co_createdAt := (case existing of None \<Rightarrow> now | Some e \<Rightarrow> co_createdAt e),
                      co_updatedAt := now\<rparr>
      in (row, db\<lparr>db_coalitions := js_set (co_id input) row (db_coalitions db)\<rparr>))"

definition listCoalitionMemberships ::
    "CoalitionDb \<Rightarrow> ident option \<Rightarrow> ident option \<Rightarrow> CoalitionMembership list" where
  "listCoalitionMemberships db coalitionId userId =
     filter (\<lambda>row. admits coalitionId (me_coalitionId row) \<and> admits userId (me_userId row))
       (js_values (db_memberships db))"

definition getCoalitionMembership ::
    "CoalitionDb \<Rightarrow> ident \<Rightarrow> ident \<Rightarrow> CoalitionMembership option" where
  "getCoalitionMembership db coalitionId userId =
     js_get (coalitionMembershipKey coalitionId userId) (db_memberships db)"

definition upsertCoalitionMembership :: "iso \<Rightarrow> CoalitionMembership \<Rightarrow> CoalitionDb \<Rightarrow> CoalitionMembership \<times> CoalitionDb" where
  "upsertCoalitionMembership now input db =
     (let existing = js_get (membership_key input) (db_memberships db);
          row = input\<lparr>me_createdAt := (case existing of None \<Rightarrow> now | Some e \<Rightarrow> me_createdAt e),
                      me_updatedAt := now\<rparr>
      in (row, db\<lparr>db_memberships := js_set (membership_key input) row (db_memberships db)\<rparr>))"

definition listCoalitionJoinRequests ::
    "CoalitionDb \<Rightarrow> ident option \<Rightarrow> ident option \<Rightarrow> CoalitionJoinRequestStatus option \<Rightarrow>
     CoalitionJoinRequest list" where
  "listCoalitionJoinRequests db coalitionId userId status =
     filter (\<lambda>row. admits coalitionId (jr_coalitionId row) \<and> admits userId (jr_userId row) \<and>
                admits_tag status (jr_status row))
       (js_values (db_joinRequests db))"

definition getCoalitionJoinRequest ::
    "CoalitionDb \<Rightarrow> ident \<Rightarrow> ident \<Rightarrow> CoalitionJoinRequest option" where
  "getCoalitionJoinRequest db coalitionId userId =
     js_get (coalitionMembershipKey coalitionId userId) (db_joinRequests db)"

definition upsertCoalitionJoinRequest :: "iso \<Rightarrow> CoalitionJoinRequest \<Rightarrow> CoalitionDb \<Rightarrow> CoalitionJoinRequest \<times> CoalitionDb" where
  "upsertCoalitionJoinRequest now input db =
     (let existing = js_get (joinRequest_key input) (db_joinRequests db);
          row = input\<lparr>jr_createdAt := (case existing of None \<Rightarrow> now | Some e \<Rightarrow> jr_createdAt e),
                      jr_updatedAt := now\<rparr>
      in (row, db\<lparr>db_joinRequests := js_set (joinRequest_key input) row (db_joinRequests db)\<rparr>))"

definition listCoalitionMemberConnections ::
    "CoalitionDb \<Rightarrow> ident option \<Rightarrow> ident option \<Rightarrow> CoalitionMemberConnection list" where
  "listCoalitionMemberConnections db coalitionId userId =
     filter (\<lambda>row. admits coalitionId (mc_coalitionId row) \<and> admits userId (mc_userId row))
       (js_values (db_memberConnections db))"

definition upsertCoalitionMemberConnection :: "iso \<Rightarrow> CoalitionMemberConnection \<Rightarrow> CoalitionDb \<Rightarrow> CoalitionMemberConnection \<times> CoalitionDb" where
  "upsertCoalitionMemberConnection now input db =
     (let existing = js_get (memberConnection_key input) (db_memberConnections db);
          row = input\<lparr>mc_createdAt := (case existing of None \<Rightarrow> now | Some e \<Rightarrow> mc_createdAt e),
                      mc_updatedAt := now\<rparr>
      in (row, db\<lparr>db_memberConnections := js_set (memberConnection_key input) row (db_memberConnections db)\<rparr>))"

definition listCoalitionCampaigns ::
    "CoalitionDb \<Rightarrow> ident option \<Rightarrow> CampaignStatus option \<Rightarrow> CampaignType option \<Rightarrow>
     CoalitionCampaign list" where
  "listCoalitionCampaigns db coalitionId status type =
     filter (\<lambda>row. admits coalitionId (ca_coalitionId row) \<and> admits_tag status (ca_status row) \<and>
                admits_tag type (ca_type row))
       (js_values (db_campaigns db))"

definition getCoalitionCampaign :: "CoalitionDb \<Rightarrow> ident \<Rightarrow> CoalitionCampaign option" where
  "getCoalitionCampaign db cid = js_get cid (db_campaigns db)"

definition upsertCoalitionCampaign :: "iso \<Rightarrow> CoalitionCampaign \<Rightarrow> CoalitionDb \<Rightarrow> CoalitionCampaign \<times> CoalitionDb" where
  "upsertCoalitionCampaign now input db =
     (let existing = js_get (ca_id input) (db_campaigns db);
          row = input\<lparr>ca_createdAt := (case existing of None \<Rightarrow> now | Some e \<Rightarrow> ca_createdAt e),
                      ca_updatedAt := now\<rparr>
      in (row, db\<lparr>db_campaigns := js_set (ca_id input) row (db_campaigns db)\<rparr>))"

definition listCoalitionSuccessionPetitions ::
    "CoalitionDb \<Rightarrow> ident option \<Rightarrow> CoalitionSuccessionStatus option \<Rightarrow>
     CoalitionSuccessionPetition list" where
  "listCoalitionSuccessionPetitions db coalitionId status =
     filter (\<lambda>row. admits coalitionId (pe_coalitionId row) \<and> admits_tag status (pe_status row))
       (js_values (db_petitions db))"

definition getOpenCoalitionSuccessionPetition ::
    "CoalitionDb \<Rightarrow> ident \<Rightarrow> CoalitionSuccessionPetition option" where
  "getOpenCoalitionSuccessionPetition db coalitionId =
     find (\<lambda>row. pe_coalitionId row = coalitionId \<and> pe_status row = Succ_open)
       (js_values (db_petitions db))"

definition upsertCoalitionSuccessionPetition :: "iso \<Rightarrow> CoalitionSuccessionPetition \<Rightarrow> CoalitionDb \<Rightarrow> CoalitionSuccessionPetition \<times> CoalitionDb" where
  "upsertCoalitionSuccessionPetition now input db =
     (let existing = js_get (pe_id input) (db_petitions db);
          row = input\<lparr>pe_createdAt := (case existing of None \<Rightarrow> now | Some e \<Rightarrow> pe_createdAt e),
                      pe_updatedAt := now\<rparr>
      in (row, db\<lparr>db_petitions := js_set (pe_id input) row (db_petitions db)\<rparr>))"

definition listCoalitionCampaignPayees ::
    "CoalitionDb \<Rightarrow> ident option \<Rightarrow> ident option \<Rightarrow> ident option \<Rightarrow> CampaignPayee list" where
  "listCoalitionCampaignPayees db campaignId coalitionId userId =
     filter (\<lambda>row. admits campaignId (pa_campaignId row) \<and> admits coalitionId (pa_coalitionId row) \<and>
                admits userId (pa_userId row))
       (js_values (db_payees db))"

definition upsertCoalitionCampaignPayee :: "iso \<Rightarrow> CampaignPayee \<Rightarrow> CoalitionDb \<Rightarrow> CampaignPayee \<times> CoalitionDb" where
  "upsertCoalitionCampaignPayee now input db =
     (let existing = js_get (payee_key input) (db_payees db);
          row = input\<lparr>pa_createdAt := (case existing of None \<Rightarrow> now | Some e \<Rightarrow> pa_createdAt e),
                      pa_updatedAt := now\<rparr>
      in (row, db\<lparr>db_payees := js_set (payee_key input) row (db_payees db)\<rparr>))"

definition listCoalitionCampaignContributions ::
    "CoalitionDb \<Rightarrow> ident option \<Rightarrow> ident option \<Rightarrow> ident option \<Rightarrow>
     CoalitionCampaignContribution list" where
  "listCoalitionCampaignContributions db campaignId coalitionId supporterUserId =
     filter (\<lambda>row. admits campaignId (cn_campaignId row) \<and> admits coalitionId (cn_coalitionId row) \<and>
                admits supporterUserId (cn_supporterUserId row))
       (js_values (db_contributions db))"

definition findCoalitionCampaignContributionByTip ::
    "CoalitionDb \<Rightarrow> ident \<Rightarrow> CoalitionCampaignContribution option" where
  "findCoalitionCampaignContributionByTip db tipId =
     find (\<lambda>row. cn_tipId row = tipId) (js_values (db_contributions db))"

definition upsertCoalitionCampaignContribution :: "iso \<Rightarrow> CoalitionCampaignContribution \<Rightarrow> CoalitionDb \<Rightarrow> CoalitionCampaignContribution \<times> CoalitionDb" where
  "upsertCoalitionCampaignContribution now input db =
     (let existing = js_get (cn_id input) (db_contributions db);
          row = input\<lparr>cn_createdAt := (case existing of None \<Rightarrow> now | Some e \<Rightarrow> cn_createdAt e),
                      cn_updatedAt := now\<rparr>
      in (row, db\<lparr>db_contributions := js_set (cn_id input) row (db_contributions db)\<rparr>))"

definition listCoalitionBoosts ::
    "CoalitionDb \<Rightarrow> ident option \<Rightarrow> ident option \<Rightarrow> ident option \<Rightarrow> string option \<Rightarrow>
     CoalitionBoost list" where
  "listCoalitionBoosts db campaignId coalitionId userId day =
     filter (\<lambda>row. admits campaignId (bo_campaignId row) \<and> admits coalitionId (bo_coalitionId row) \<and>
                admits userId (bo_userId row) \<and> admits day (bo_day row))
       (js_values (db_boosts db))"

definition upsertCoalitionBoost :: "iso \<Rightarrow> CoalitionBoost \<Rightarrow> CoalitionDb \<Rightarrow> CoalitionBoost \<times> CoalitionDb" where
  "upsertCoalitionBoost now input db =
     (let existing = js_get (boost_key input) (db_boosts db);
          row = input\<lparr>bo_createdAt := (case existing of None \<Rightarrow> now | Some e \<Rightarrow> bo_createdAt e),
                      bo_updatedAt := now\<rparr>
      in (row, db\<lparr>db_boosts := js_set (boost_key input) row (db_boosts db)\<rparr>))"

definition insertTip :: "TipRecord \<Rightarrow> CoalitionDb \<Rightarrow> CoalitionDb" where
  "insertTip rec db = db\<lparr>db_tips := js_set (ti_id rec) rec (db_tips db)\<rparr>"

definition updateTip :: "TipRecord \<Rightarrow> CoalitionDb \<Rightarrow> CoalitionDb" where
  "updateTip rec db = db\<lparr>db_tips := js_set (ti_id rec) rec (db_tips db)\<rparr>"

definition getTip_db :: "CoalitionDb \<Rightarrow> ident \<Rightarrow> TipRecord option" where
  "getTip_db db tid = js_get tid (db_tips db)"

definition findTipByOrderId :: "CoalitionDb \<Rightarrow> MarketplaceProviderId \<Rightarrow> string \<Rightarrow> TipRecord option" where
  "findTipByOrderId db providerId fbmOrderId =
     find (\<lambda>row. ti_providerId row = providerId \<and> ti_fbmOrderId row = Some fbmOrderId) (js_values (db_tips db))"

section \<open>Lemmas\<close>

text \<open>The tables are row tables: the laws of the interface hold for each of them.\<close>

interpretation membership_rows: row_table "js_table membership_key" js_values membership_key js_get
    "\<lambda>r. js_set (membership_key r) r"
  by (rule js_row_table)

interpretation campaign_rows: row_table "js_table ca_id" js_values ca_id js_get "\<lambda>r. js_set (ca_id r) r"
  by (rule js_row_table)

interpretation petition_rows: row_table "js_table pe_id" js_values pe_id js_get "\<lambda>r. js_set (pe_id r) r"
  by (rule js_row_table)

interpretation payee_rows: row_table "js_table payee_key" js_values payee_key js_get
    "\<lambda>r. js_set (payee_key r) r"
  by (rule js_row_table)

interpretation contribution_rows: row_table "js_table cn_id" js_values cn_id js_get
    "\<lambda>r. js_set (cn_id r) r"
  by (rule js_row_table)

interpretation boost_rows: row_table "js_table boost_key" js_values boost_key js_get
    "\<lambda>r. js_set (boost_key r) r"
  by (rule js_row_table)

interpretation coalition_rows: row_table "js_table co_id" js_values co_id js_get "\<lambda>r. js_set (co_id r) r"
  by (rule js_row_table)

lemma admits_None [simp]: "admits None v"
  by (simp add: admits_def)

lemma admits_Some [simp]: "s \<noteq> [] \<Longrightarrow> admits (Some s) v \<longleftrightarrow> v = s"
  by (simp add: admits_def)

lemma admits_self [simp]: "admits (Some s) s"
  by (simp add: admits_def)

lemma admits_tag_simps [simp]: "admits_tag None v" "admits_tag (Some s) v \<longleftrightarrow> v = s"
  by (simp_all add: admits_tag_def)

lemma emit_simps [simp]:
  "db_users (emit e db) = db_users db" "db_profiles (emit e db) = db_profiles db"
  "db_reputationEvents (emit e db) = db_reputationEvents db"
  "db_coalitions (emit e db) = db_coalitions db"
  "db_memberships (emit e db) = db_memberships db" "db_joinRequests (emit e db) = db_joinRequests db"
  "db_memberConnections (emit e db) = db_memberConnections db" "db_campaigns (emit e db) = db_campaigns db"
  "db_petitions (emit e db) = db_petitions db" "db_payees (emit e db) = db_payees db"
  "db_contributions (emit e db) = db_contributions db" "db_boosts (emit e db) = db_boosts db"
  "db_tips (emit e db) = db_tips db"
  "db_aidPosts (emit e db) = db_aidPosts db" "effects (emit e db) = effects db @ [e]"
  by (simp_all add: emit_def)

text \<open>An upsert changes its own table only, and stores the row it returns.\<close>

lemma upsertCoalition_frame [simp]:
  "db_tips (snd (upsertCoalition now r db)) = db_tips db"
  "db_users (snd (upsertCoalition now r db)) = db_users db"
  "db_profiles (snd (upsertCoalition now r db)) = db_profiles db"
  "db_reputationEvents (snd (upsertCoalition now r db)) = db_reputationEvents db"
  "db_memberships (snd (upsertCoalition now r db)) = db_memberships db"
  "db_joinRequests (snd (upsertCoalition now r db)) = db_joinRequests db"
  "db_memberConnections (snd (upsertCoalition now r db)) = db_memberConnections db"
  "db_campaigns (snd (upsertCoalition now r db)) = db_campaigns db"
  "db_petitions (snd (upsertCoalition now r db)) = db_petitions db"
  "db_payees (snd (upsertCoalition now r db)) = db_payees db"
  "db_contributions (snd (upsertCoalition now r db)) = db_contributions db"
  "db_boosts (snd (upsertCoalition now r db)) = db_boosts db"
  "db_aidPosts (snd (upsertCoalition now r db)) = db_aidPosts db"
  "effects (snd (upsertCoalition now r db)) = effects db"
  "db_coalitions (snd (upsertCoalition now r db)) = js_set (co_id r) (fst (upsertCoalition now r db)) (db_coalitions db)"
  by (simp_all add: upsertCoalition_def Let_def)

lemma upsertCoalitionMembership_frame [simp]:
  "db_tips (snd (upsertCoalitionMembership now r db)) = db_tips db"
  "db_users (snd (upsertCoalitionMembership now r db)) = db_users db"
  "db_profiles (snd (upsertCoalitionMembership now r db)) = db_profiles db"
  "db_reputationEvents (snd (upsertCoalitionMembership now r db)) = db_reputationEvents db"
  "db_coalitions (snd (upsertCoalitionMembership now r db)) = db_coalitions db"
  "db_joinRequests (snd (upsertCoalitionMembership now r db)) = db_joinRequests db"
  "db_memberConnections (snd (upsertCoalitionMembership now r db)) = db_memberConnections db"
  "db_campaigns (snd (upsertCoalitionMembership now r db)) = db_campaigns db"
  "db_petitions (snd (upsertCoalitionMembership now r db)) = db_petitions db"
  "db_payees (snd (upsertCoalitionMembership now r db)) = db_payees db"
  "db_contributions (snd (upsertCoalitionMembership now r db)) = db_contributions db"
  "db_boosts (snd (upsertCoalitionMembership now r db)) = db_boosts db"
  "db_aidPosts (snd (upsertCoalitionMembership now r db)) = db_aidPosts db"
  "effects (snd (upsertCoalitionMembership now r db)) = effects db"
  "db_memberships (snd (upsertCoalitionMembership now r db)) = js_set (membership_key r) (fst (upsertCoalitionMembership now r db)) (db_memberships db)"
  by (simp_all add: upsertCoalitionMembership_def Let_def)

lemma upsertCoalitionJoinRequest_frame [simp]:
  "db_tips (snd (upsertCoalitionJoinRequest now r db)) = db_tips db"
  "db_users (snd (upsertCoalitionJoinRequest now r db)) = db_users db"
  "db_profiles (snd (upsertCoalitionJoinRequest now r db)) = db_profiles db"
  "db_reputationEvents (snd (upsertCoalitionJoinRequest now r db)) = db_reputationEvents db"
  "db_coalitions (snd (upsertCoalitionJoinRequest now r db)) = db_coalitions db"
  "db_memberships (snd (upsertCoalitionJoinRequest now r db)) = db_memberships db"
  "db_memberConnections (snd (upsertCoalitionJoinRequest now r db)) = db_memberConnections db"
  "db_campaigns (snd (upsertCoalitionJoinRequest now r db)) = db_campaigns db"
  "db_petitions (snd (upsertCoalitionJoinRequest now r db)) = db_petitions db"
  "db_payees (snd (upsertCoalitionJoinRequest now r db)) = db_payees db"
  "db_contributions (snd (upsertCoalitionJoinRequest now r db)) = db_contributions db"
  "db_boosts (snd (upsertCoalitionJoinRequest now r db)) = db_boosts db"
  "db_aidPosts (snd (upsertCoalitionJoinRequest now r db)) = db_aidPosts db"
  "effects (snd (upsertCoalitionJoinRequest now r db)) = effects db"
  "db_joinRequests (snd (upsertCoalitionJoinRequest now r db)) = js_set (joinRequest_key r) (fst (upsertCoalitionJoinRequest now r db)) (db_joinRequests db)"
  by (simp_all add: upsertCoalitionJoinRequest_def Let_def)

lemma upsertCoalitionMemberConnection_frame [simp]:
  "db_tips (snd (upsertCoalitionMemberConnection now r db)) = db_tips db"
  "db_users (snd (upsertCoalitionMemberConnection now r db)) = db_users db"
  "db_profiles (snd (upsertCoalitionMemberConnection now r db)) = db_profiles db"
  "db_reputationEvents (snd (upsertCoalitionMemberConnection now r db)) = db_reputationEvents db"
  "db_coalitions (snd (upsertCoalitionMemberConnection now r db)) = db_coalitions db"
  "db_memberships (snd (upsertCoalitionMemberConnection now r db)) = db_memberships db"
  "db_joinRequests (snd (upsertCoalitionMemberConnection now r db)) = db_joinRequests db"
  "db_campaigns (snd (upsertCoalitionMemberConnection now r db)) = db_campaigns db"
  "db_petitions (snd (upsertCoalitionMemberConnection now r db)) = db_petitions db"
  "db_payees (snd (upsertCoalitionMemberConnection now r db)) = db_payees db"
  "db_contributions (snd (upsertCoalitionMemberConnection now r db)) = db_contributions db"
  "db_boosts (snd (upsertCoalitionMemberConnection now r db)) = db_boosts db"
  "db_aidPosts (snd (upsertCoalitionMemberConnection now r db)) = db_aidPosts db"
  "effects (snd (upsertCoalitionMemberConnection now r db)) = effects db"
  "db_memberConnections (snd (upsertCoalitionMemberConnection now r db)) = js_set (memberConnection_key r) (fst (upsertCoalitionMemberConnection now r db)) (db_memberConnections db)"
  by (simp_all add: upsertCoalitionMemberConnection_def Let_def)

lemma upsertCoalitionCampaign_frame [simp]:
  "db_tips (snd (upsertCoalitionCampaign now r db)) = db_tips db"
  "db_users (snd (upsertCoalitionCampaign now r db)) = db_users db"
  "db_profiles (snd (upsertCoalitionCampaign now r db)) = db_profiles db"
  "db_reputationEvents (snd (upsertCoalitionCampaign now r db)) = db_reputationEvents db"
  "db_coalitions (snd (upsertCoalitionCampaign now r db)) = db_coalitions db"
  "db_memberships (snd (upsertCoalitionCampaign now r db)) = db_memberships db"
  "db_joinRequests (snd (upsertCoalitionCampaign now r db)) = db_joinRequests db"
  "db_memberConnections (snd (upsertCoalitionCampaign now r db)) = db_memberConnections db"
  "db_petitions (snd (upsertCoalitionCampaign now r db)) = db_petitions db"
  "db_payees (snd (upsertCoalitionCampaign now r db)) = db_payees db"
  "db_contributions (snd (upsertCoalitionCampaign now r db)) = db_contributions db"
  "db_boosts (snd (upsertCoalitionCampaign now r db)) = db_boosts db"
  "db_aidPosts (snd (upsertCoalitionCampaign now r db)) = db_aidPosts db"
  "effects (snd (upsertCoalitionCampaign now r db)) = effects db"
  "db_campaigns (snd (upsertCoalitionCampaign now r db)) = js_set (ca_id r) (fst (upsertCoalitionCampaign now r db)) (db_campaigns db)"
  by (simp_all add: upsertCoalitionCampaign_def Let_def)

lemma upsertCoalitionSuccessionPetition_frame [simp]:
  "db_tips (snd (upsertCoalitionSuccessionPetition now r db)) = db_tips db"
  "db_users (snd (upsertCoalitionSuccessionPetition now r db)) = db_users db"
  "db_profiles (snd (upsertCoalitionSuccessionPetition now r db)) = db_profiles db"
  "db_reputationEvents (snd (upsertCoalitionSuccessionPetition now r db)) = db_reputationEvents db"
  "db_coalitions (snd (upsertCoalitionSuccessionPetition now r db)) = db_coalitions db"
  "db_memberships (snd (upsertCoalitionSuccessionPetition now r db)) = db_memberships db"
  "db_joinRequests (snd (upsertCoalitionSuccessionPetition now r db)) = db_joinRequests db"
  "db_memberConnections (snd (upsertCoalitionSuccessionPetition now r db)) = db_memberConnections db"
  "db_campaigns (snd (upsertCoalitionSuccessionPetition now r db)) = db_campaigns db"
  "db_payees (snd (upsertCoalitionSuccessionPetition now r db)) = db_payees db"
  "db_contributions (snd (upsertCoalitionSuccessionPetition now r db)) = db_contributions db"
  "db_boosts (snd (upsertCoalitionSuccessionPetition now r db)) = db_boosts db"
  "db_aidPosts (snd (upsertCoalitionSuccessionPetition now r db)) = db_aidPosts db"
  "effects (snd (upsertCoalitionSuccessionPetition now r db)) = effects db"
  "db_petitions (snd (upsertCoalitionSuccessionPetition now r db)) = js_set (pe_id r) (fst (upsertCoalitionSuccessionPetition now r db)) (db_petitions db)"
  by (simp_all add: upsertCoalitionSuccessionPetition_def Let_def)

lemma upsertCoalitionCampaignPayee_frame [simp]:
  "db_tips (snd (upsertCoalitionCampaignPayee now r db)) = db_tips db"
  "db_users (snd (upsertCoalitionCampaignPayee now r db)) = db_users db"
  "db_profiles (snd (upsertCoalitionCampaignPayee now r db)) = db_profiles db"
  "db_reputationEvents (snd (upsertCoalitionCampaignPayee now r db)) = db_reputationEvents db"
  "db_coalitions (snd (upsertCoalitionCampaignPayee now r db)) = db_coalitions db"
  "db_memberships (snd (upsertCoalitionCampaignPayee now r db)) = db_memberships db"
  "db_joinRequests (snd (upsertCoalitionCampaignPayee now r db)) = db_joinRequests db"
  "db_memberConnections (snd (upsertCoalitionCampaignPayee now r db)) = db_memberConnections db"
  "db_campaigns (snd (upsertCoalitionCampaignPayee now r db)) = db_campaigns db"
  "db_petitions (snd (upsertCoalitionCampaignPayee now r db)) = db_petitions db"
  "db_contributions (snd (upsertCoalitionCampaignPayee now r db)) = db_contributions db"
  "db_boosts (snd (upsertCoalitionCampaignPayee now r db)) = db_boosts db"
  "db_aidPosts (snd (upsertCoalitionCampaignPayee now r db)) = db_aidPosts db"
  "effects (snd (upsertCoalitionCampaignPayee now r db)) = effects db"
  "db_payees (snd (upsertCoalitionCampaignPayee now r db)) = js_set (payee_key r) (fst (upsertCoalitionCampaignPayee now r db)) (db_payees db)"
  by (simp_all add: upsertCoalitionCampaignPayee_def Let_def)

lemma upsertCoalitionCampaignContribution_frame [simp]:
  "db_tips (snd (upsertCoalitionCampaignContribution now r db)) = db_tips db"
  "db_users (snd (upsertCoalitionCampaignContribution now r db)) = db_users db"
  "db_profiles (snd (upsertCoalitionCampaignContribution now r db)) = db_profiles db"
  "db_reputationEvents (snd (upsertCoalitionCampaignContribution now r db)) = db_reputationEvents db"
  "db_coalitions (snd (upsertCoalitionCampaignContribution now r db)) = db_coalitions db"
  "db_memberships (snd (upsertCoalitionCampaignContribution now r db)) = db_memberships db"
  "db_joinRequests (snd (upsertCoalitionCampaignContribution now r db)) = db_joinRequests db"
  "db_memberConnections (snd (upsertCoalitionCampaignContribution now r db)) = db_memberConnections db"
  "db_campaigns (snd (upsertCoalitionCampaignContribution now r db)) = db_campaigns db"
  "db_petitions (snd (upsertCoalitionCampaignContribution now r db)) = db_petitions db"
  "db_payees (snd (upsertCoalitionCampaignContribution now r db)) = db_payees db"
  "db_boosts (snd (upsertCoalitionCampaignContribution now r db)) = db_boosts db"
  "db_aidPosts (snd (upsertCoalitionCampaignContribution now r db)) = db_aidPosts db"
  "effects (snd (upsertCoalitionCampaignContribution now r db)) = effects db"
  "db_contributions (snd (upsertCoalitionCampaignContribution now r db)) = js_set (cn_id r) (fst (upsertCoalitionCampaignContribution now r db)) (db_contributions db)"
  by (simp_all add: upsertCoalitionCampaignContribution_def Let_def)

lemma upsertCoalitionBoost_frame [simp]:
  "db_tips (snd (upsertCoalitionBoost now r db)) = db_tips db"
  "db_users (snd (upsertCoalitionBoost now r db)) = db_users db"
  "db_profiles (snd (upsertCoalitionBoost now r db)) = db_profiles db"
  "db_reputationEvents (snd (upsertCoalitionBoost now r db)) = db_reputationEvents db"
  "db_coalitions (snd (upsertCoalitionBoost now r db)) = db_coalitions db"
  "db_memberships (snd (upsertCoalitionBoost now r db)) = db_memberships db"
  "db_joinRequests (snd (upsertCoalitionBoost now r db)) = db_joinRequests db"
  "db_memberConnections (snd (upsertCoalitionBoost now r db)) = db_memberConnections db"
  "db_campaigns (snd (upsertCoalitionBoost now r db)) = db_campaigns db"
  "db_petitions (snd (upsertCoalitionBoost now r db)) = db_petitions db"
  "db_payees (snd (upsertCoalitionBoost now r db)) = db_payees db"
  "db_contributions (snd (upsertCoalitionBoost now r db)) = db_contributions db"
  "db_aidPosts (snd (upsertCoalitionBoost now r db)) = db_aidPosts db"
  "effects (snd (upsertCoalitionBoost now r db)) = effects db"
  "db_boosts (snd (upsertCoalitionBoost now r db)) = js_set (boost_key r) (fst (upsertCoalitionBoost now r db)) (db_boosts db)"
  by (simp_all add: upsertCoalitionBoost_def Let_def)

lemma tip_frame [simp]:
  "db_users (updateTip t db) = db_users db" "db_coalitions (updateTip t db) = db_coalitions db"
  "db_memberships (updateTip t db) = db_memberships db" "db_joinRequests (updateTip t db) = db_joinRequests db"
  "db_campaigns (updateTip t db) = db_campaigns db" "db_petitions (updateTip t db) = db_petitions db"
  "db_payees (updateTip t db) = db_payees db" "db_contributions (updateTip t db) = db_contributions db"
  "db_boosts (updateTip t db) = db_boosts db" "db_tips (updateTip t db) = js_set (ti_id t) t (db_tips db)"
  "effects (updateTip t db) = effects db" "insertTip t db = updateTip t db"
  by (simp_all add: updateTip_def insertTip_def)

text \<open>The returned row is the input but for the two time stamps.\<close>

lemma upsertCoalition_row [simp]:
  "co_id (fst (upsertCoalition now r db)) = co_id r"
  "co_slug (fst (upsertCoalition now r db)) = co_slug r"
  "co_name (fst (upsertCoalition now r db)) = co_name r"
  "co_mission (fst (upsertCoalition now r db)) = co_mission r"
  "co_bannerUrl (fst (upsertCoalition now r db)) = co_bannerUrl r"
  "co_joinMode (fst (upsertCoalition now r db)) = co_joinMode r"
  "co_minTierToJoin (fst (upsertCoalition now r db)) = co_minTierToJoin r"
  "co_joinRequirements (fst (upsertCoalition now r db)) = co_joinRequirements r"
  "co_externalReplyPolicy (fst (upsertCoalition now r db)) = co_externalReplyPolicy r"
  "co_spaceRoomId (fst (upsertCoalition now r db)) = co_spaceRoomId r"
  "co_createdBy (fst (upsertCoalition now r db)) = co_createdBy r"
  "co_archivedAt (fst (upsertCoalition now r db)) = co_archivedAt r"
  "co_takenDownAt (fst (upsertCoalition now r db)) = co_takenDownAt r"
  "co_takenDownBy (fst (upsertCoalition now r db)) = co_takenDownBy r"
  "co_takedownReason (fst (upsertCoalition now r db)) = co_takedownReason r"
  "co_reinstatedAt (fst (upsertCoalition now r db)) = co_reinstatedAt r"
  by (simp_all add: upsertCoalition_def Let_def)

lemma upsertCoalitionMembership_row [simp]:
  "me_id (fst (upsertCoalitionMembership now r db)) = me_id r"
  "me_coalitionId (fst (upsertCoalitionMembership now r db)) = me_coalitionId r"
  "me_userId (fst (upsertCoalitionMembership now r db)) = me_userId r"
  "me_role (fst (upsertCoalitionMembership now r db)) = me_role r"
  "me_active (fst (upsertCoalitionMembership now r db)) = me_active r"
  "membership_key (fst (upsertCoalitionMembership now r db)) = membership_key r"
  by (simp_all add: upsertCoalitionMembership_def Let_def membership_key_def)

lemma upsertCoalitionJoinRequest_row [simp]:
  "jr_id (fst (upsertCoalitionJoinRequest now r db)) = jr_id r"
  "jr_coalitionId (fst (upsertCoalitionJoinRequest now r db)) = jr_coalitionId r"
  "jr_userId (fst (upsertCoalitionJoinRequest now r db)) = jr_userId r"
  "jr_message (fst (upsertCoalitionJoinRequest now r db)) = jr_message r"
  "jr_status (fst (upsertCoalitionJoinRequest now r db)) = jr_status r"
  "jr_invitedBy (fst (upsertCoalitionJoinRequest now r db)) = jr_invitedBy r"
  "jr_reviewedBy (fst (upsertCoalitionJoinRequest now r db)) = jr_reviewedBy r"
  "jr_reviewedAt (fst (upsertCoalitionJoinRequest now r db)) = jr_reviewedAt r"
  "joinRequest_key (fst (upsertCoalitionJoinRequest now r db)) = joinRequest_key r"
  by (simp_all add: upsertCoalitionJoinRequest_def Let_def joinRequest_key_def)

lemma upsertCoalitionMemberConnection_row [simp]:
  "mc_id (fst (upsertCoalitionMemberConnection now r db)) = mc_id r"
  "mc_coalitionId (fst (upsertCoalitionMemberConnection now r db)) = mc_coalitionId r"
  "mc_userId (fst (upsertCoalitionMemberConnection now r db)) = mc_userId r"
  "mc_platform (fst (upsertCoalitionMemberConnection now r db)) = mc_platform r"
  "mc_credentialRef (fst (upsertCoalitionMemberConnection now r db)) = mc_credentialRef r"
  "mc_displayHandle (fst (upsertCoalitionMemberConnection now r db)) = mc_displayHandle r"
  "mc_revokedAt (fst (upsertCoalitionMemberConnection now r db)) = mc_revokedAt r"
  "memberConnection_key (fst (upsertCoalitionMemberConnection now r db)) = memberConnection_key r"
  by (simp_all add: upsertCoalitionMemberConnection_def Let_def memberConnection_key_def)

lemma upsertCoalitionCampaign_row [simp]:
  "ca_id (fst (upsertCoalitionCampaign now r db)) = ca_id r"
  "ca_coalitionId (fst (upsertCoalitionCampaign now r db)) = ca_coalitionId r"
  "ca_type (fst (upsertCoalitionCampaign now r db)) = ca_type r"
  "ca_title (fst (upsertCoalitionCampaign now r db)) = ca_title r"
  "ca_description (fst (upsertCoalitionCampaign now r db)) = ca_description r"
  "ca_goalCents (fst (upsertCoalitionCampaign now r db)) = ca_goalCents r"
  "ca_goalUnits (fst (upsertCoalitionCampaign now r db)) = ca_goalUnits r"
  "ca_raisedCents (fst (upsertCoalitionCampaign now r db)) = ca_raisedCents r"
  "ca_contributorCount (fst (upsertCoalitionCampaign now r db)) = ca_contributorCount r"
  "ca_status (fst (upsertCoalitionCampaign now r db)) = ca_status r"
  "ca_requiresStewardApproval (fst (upsertCoalitionCampaign now r db)) = ca_requiresStewardApproval r"
  "ca_createdBy (fst (upsertCoalitionCampaign now r db)) = ca_createdBy r"
  "ca_approvedBy (fst (upsertCoalitionCampaign now r db)) = ca_approvedBy r"
  "ca_startsAt (fst (upsertCoalitionCampaign now r db)) = ca_startsAt r"
  "ca_endsAt (fst (upsertCoalitionCampaign now r db)) = ca_endsAt r"
  "ca_completedAt (fst (upsertCoalitionCampaign now r db)) = ca_completedAt r"
  "ca_projectId (fst (upsertCoalitionCampaign now r db)) = ca_projectId r"
  "ca_bountyId (fst (upsertCoalitionCampaign now r db)) = ca_bountyId r"
  "ca_aidPostId (fst (upsertCoalitionCampaign now r db)) = ca_aidPostId r"
  "ca_beneficiaryUserId (fst (upsertCoalitionCampaign now r db)) = ca_beneficiaryUserId r"
  "ca_fbmListingId (fst (upsertCoalitionCampaign now r db)) = ca_fbmListingId r"
  "ca_fbmOrderCycleId (fst (upsertCoalitionCampaign now r db)) = ca_fbmOrderCycleId r"
  "ca_logisticsDriveRef (fst (upsertCoalitionCampaign now r db)) = ca_logisticsDriveRef r"
  by (simp_all add: upsertCoalitionCampaign_def Let_def)

lemma upsertCoalitionSuccessionPetition_row [simp]:
  "pe_id (fst (upsertCoalitionSuccessionPetition now r db)) = pe_id r"
  "pe_coalitionId (fst (upsertCoalitionSuccessionPetition now r db)) = pe_coalitionId r"
  "pe_candidateUserId (fst (upsertCoalitionSuccessionPetition now r db)) = pe_candidateUserId r"
  "pe_openedBy (fst (upsertCoalitionSuccessionPetition now r db)) = pe_openedBy r"
  "pe_reason (fst (upsertCoalitionSuccessionPetition now r db)) = pe_reason r"
  "pe_secondedBy (fst (upsertCoalitionSuccessionPetition now r db)) = pe_secondedBy r"
  "pe_status (fst (upsertCoalitionSuccessionPetition now r db)) = pe_status r"
  "pe_resolvedBy (fst (upsertCoalitionSuccessionPetition now r db)) = pe_resolvedBy r"
  "pe_resolvedAt (fst (upsertCoalitionSuccessionPetition now r db)) = pe_resolvedAt r"
  by (simp_all add: upsertCoalitionSuccessionPetition_def Let_def)

lemma upsertCoalitionCampaignPayee_row [simp]:
  "pa_id (fst (upsertCoalitionCampaignPayee now r db)) = pa_id r"
  "pa_campaignId (fst (upsertCoalitionCampaignPayee now r db)) = pa_campaignId r"
  "pa_coalitionId (fst (upsertCoalitionCampaignPayee now r db)) = pa_coalitionId r"
  "pa_userId (fst (upsertCoalitionCampaignPayee now r db)) = pa_userId r"
  "pa_shareBps (fst (upsertCoalitionCampaignPayee now r db)) = pa_shareBps r"
  "pa_role (fst (upsertCoalitionCampaignPayee now r db)) = pa_role r"
  "pa_active (fst (upsertCoalitionCampaignPayee now r db)) = pa_active r"
  "payee_key (fst (upsertCoalitionCampaignPayee now r db)) = payee_key r"
  by (simp_all add: upsertCoalitionCampaignPayee_def Let_def payee_key_def)

lemma upsertCoalitionCampaignContribution_row [simp]:
  "cn_id (fst (upsertCoalitionCampaignContribution now r db)) = cn_id r"
  "cn_campaignId (fst (upsertCoalitionCampaignContribution now r db)) = cn_campaignId r"
  "cn_coalitionId (fst (upsertCoalitionCampaignContribution now r db)) = cn_coalitionId r"
  "cn_supporterUserId (fst (upsertCoalitionCampaignContribution now r db)) = cn_supporterUserId r"
  "cn_tipId (fst (upsertCoalitionCampaignContribution now r db)) = cn_tipId r"
  "cn_amountCents (fst (upsertCoalitionCampaignContribution now r db)) = cn_amountCents r"
  "cn_currency (fst (upsertCoalitionCampaignContribution now r db)) = cn_currency r"
  by (simp_all add: upsertCoalitionCampaignContribution_def Let_def)

lemma upsertCoalitionBoost_row [simp]:
  "bo_id (fst (upsertCoalitionBoost now r db)) = bo_id r"
  "bo_campaignId (fst (upsertCoalitionBoost now r db)) = bo_campaignId r"
  "bo_coalitionId (fst (upsertCoalitionBoost now r db)) = bo_coalitionId r"
  "bo_userId (fst (upsertCoalitionBoost now r db)) = bo_userId r"
  "bo_day (fst (upsertCoalitionBoost now r db)) = bo_day r"
  "boost_key (fst (upsertCoalitionBoost now r db)) = boost_key r"
  by (simp_all add: upsertCoalitionBoost_def Let_def boost_key_def)

text \<open>Generated ids have no colon, so a key splits back into its two ids.\<close>

definition colon_free :: "string \<Rightarrow> bool" where
  "colon_free s \<longleftrightarrow> s \<noteq> [] \<and> CHR '':'' \<notin> set s"

lemma pair_key_inject:
  assumes "CHR '':'' \<notin> set a" and "CHR '':'' \<notin> set a'"
  shows "pair_key a b = pair_key a' b' \<longleftrightarrow> a = a' \<and> b = b'"
proof
  assume eq: "pair_key a b = pair_key a' b'"
  have "takeWhile (\<lambda>c. c \<noteq> CHR '':'') (pair_key x y) = x" if "CHR '':'' \<notin> set x" for x y :: string
    using that by (induction x) (auto simp: pair_key_def)
  from this [OF assms(1), of b] this [OF assms(2), of b'] eq have "a = a'" by metis
  with eq show "a = a' \<and> b = b'" by (simp add: pair_key_def)
qed simp

lemma membership_key_eq:
  "colon_free (me_coalitionId m) \<Longrightarrow> colon_free c \<Longrightarrow>
   membership_key m = coalitionMembershipKey c u \<longleftrightarrow> me_coalitionId m = c \<and> me_userId m = u"
  by (simp add: membership_key_def coalitionMembershipKey_def pair_key_inject colon_free_def)

end
