(* ===== verification/Coalition_Join.thy ===== *)
theory Coalition_Join
  imports Coalition_Db
begin

text \<open>
  What a coalition asks of a joiner: \<^verbatim>\<open>services/coalitionTierGate.ts\<close> and
  \<^verbatim>\<open>services/coalitionJoinRequirements.ts\<close>.  The marketplace that knows a
  member's tier is outside the program: it is a parameter of \<open>ServiceEnv\<close>.
\<close>

text \<open>
  What the services read besides the database: the homeserver name, the boost allowance
  setting, and the entitlements client.  The client answers a Matrix id with the
  \<^verbatim>\<open>coalitionKarmaTier\<close> field of the member's standing, or throws (\<open>None\<close>).
\<close>

record ServiceEnv =
  env_homeserver :: "string option"
  env_boostAllowance :: "string option"
  env_entitlements :: "(string \<Rightarrow> js_value option) option"

datatype TierUnknownReason = Unconfigured | No_identity | Lookup_failed

datatype TierResolution = Known CoalitionTierGate | Unknown TierUnknownReason

definition tier_of_tag :: "string \<Rightarrow> CoalitionTierGate option" where
  "tier_of_tag t = find (\<lambda>g. tier_tag g = t) COALITION_TIER_GATES"

definition resolveMemberTier :: "ServiceEnv \<Rightarrow> CoalitionDb \<Rightarrow> ident \<Rightarrow> TierResolution" where
  "resolveMemberTier env db userId =
     (case env_entitlements env of
        None \<Rightarrow> Unknown Unconfigured
      | Some getEconomicStanding \<Rightarrow>
          (case matrixUserIdFor (env_homeserver env) (db_users db) userId of
             None \<Rightarrow> Unknown No_identity
           | Some mxid \<Rightarrow>
               (case getEconomicStanding mxid of
                  None \<Rightarrow> Unknown Lookup_failed
                | Some raw \<Rightarrow>
                    (case raw of
                       JString s \<Rightarrow>
                         (case tier_of_tag (toLowerCase s) of
                            None \<Rightarrow> Unknown Lookup_failed
                          | Some tier \<Rightarrow> Known tier)
                     | _ \<Rightarrow> Unknown Lookup_failed))))"

definition DAY_MS :: int where
  "DAY_MS = 24 * 60 * 60 * 1000"

definition daysSince :: "iso option \<Rightarrow> int \<Rightarrow> int option" where
  "daysSince stamp now =
     (if \<not> truthy stamp then None
      else case Date_parse (the stamp) of
             None \<Rightarrow> None
           | Some thn \<Rightarrow> Some (max 0 ((now - thn) div DAY_MS)))"

definition coalitionContributionCount :: "CoalitionDb \<Rightarrow> ident \<Rightarrow> nat" where
  "coalitionContributionCount db userId =
     length (listCoalitionCampaignContributions db None None (Some userId))"

record JoinRequirementEvaluation =
  ev_checks :: "CoalitionJoinRequirementCheck list"
  ev_unmet :: "CoalitionJoinRequirementCheck list"
  ev_clear :: bool

definition plural :: "int \<Rightarrow> string" where
  "plural n = (if n = 1 then [] else ''s'')"

definition check_account_age :: "CoalitionDb \<Rightarrow> ident \<Rightarrow> int \<Rightarrow> int \<Rightarrow> CoalitionJoinRequirementCheck" where
  "check_account_age db userId now required =
     (let age = daysSince (map_option us_createdAt (getUserById (db_users db) userId)) now
      in \<lparr>ck_key = Account_age,
          ck_met = (case age of None \<Rightarrow> False | Some a \<Rightarrow> a \<ge> required),
          ck_unverified = None,
          ck_required = show_int required @ '' day'' @ plural required @ '' old'',
          ck_actual = map_option (\<lambda>a. show_int a @ '' day'' @ plural a) age\<rparr>)"

definition check_verified_email :: "CoalitionDb \<Rightarrow> ident \<Rightarrow> CoalitionJoinRequirementCheck" where
  "check_verified_email db userId =
     \<lparr>ck_key = Verified_email,
      ck_met = (case getUserById (db_users db) userId of None \<Rightarrow> False | Some u \<Rightarrow> truthy (us_emailVerifiedAt u)),
      ck_unverified = None,
      ck_required = ''a verified email address'',
      ck_actual = None\<rparr>"

definition check_reputation :: "CoalitionDb \<Rightarrow> ident \<Rightarrow> int \<Rightarrow> CoalitionJoinRequirementCheck" where
  "check_reputation db userId required =
     (let score = st_score (rp_overall (getUserReputation (db_reputationEvents db) userId))
      in \<lparr>ck_key = Reputation_key, ck_met = (score \<ge> required), ck_unverified = None,
          ck_required = show_int required @ '' reputation'',
          ck_actual = Some (show_int score)\<rparr>)"

definition check_contributions :: "CoalitionDb \<Rightarrow> ident \<Rightarrow> int \<Rightarrow> CoalitionJoinRequirementCheck" where
  "check_contributions db userId required =
     (let count = int (coalitionContributionCount db userId)
      in \<lparr>ck_key = Contributions_key, ck_met = (count \<ge> required), ck_unverified = None,
          ck_required = show_int required @ '' past contribution'' @ plural required,
          ck_actual = Some (show_int count)\<rparr>)"

definition check_tier :: "ServiceEnv \<Rightarrow> CoalitionDb \<Rightarrow> ident \<Rightarrow> CoalitionTierGate \<Rightarrow> CoalitionJoinRequirementCheck" where
  "check_tier env db userId gate =
     (case resolveMemberTier env db userId of
        Known tier \<Rightarrow>
          \<lparr>ck_key = Tier_key, ck_met = tierSatisfies tier (Some gate), ck_unverified = None,
           ck_required = tier_tag gate @ '' tier or above'', ck_actual = Some (tier_tag tier)\<rparr>
      | Unknown _ \<Rightarrow>
          \<lparr>ck_key = Tier_key, ck_met = False, ck_unverified = Some True,
           ck_required = tier_tag gate @ '' tier or above'', ck_actual = None\<rparr>)"

definition opt_check :: "('a \<Rightarrow> CoalitionJoinRequirementCheck) \<Rightarrow> 'a option \<Rightarrow> CoalitionJoinRequirementCheck list" where
  "opt_check f v = (case v of None \<Rightarrow> [] | Some x \<Rightarrow> [f x])"

definition evaluateJoinRequirements ::
    "ServiceEnv \<Rightarrow> CoalitionDb \<Rightarrow> Coalition \<Rightarrow> ident \<Rightarrow> int \<Rightarrow> JoinRequirementEvaluation" where
  "evaluateJoinRequirements env db coalition userId now =
     (let requirements = co_joinRequirements coalition;
          checks =
            opt_check (check_account_age db userId now) (Option.bind requirements minAccountAgeDays) @
            (if Option.bind requirements requireVerifiedEmail = Some True
             then [check_verified_email db userId] else []) @
            opt_check (check_reputation db userId) (Option.bind requirements minReputationScore) @
            opt_check (check_contributions db userId) (Option.bind requirements minCoalitionContributions) @
            opt_check (check_tier env db userId) (co_minTierToJoin coalition);
          unmet = filter (\<lambda>check. \<not> ck_met check) checks
      in \<lparr>ev_checks = checks, ev_unmet = unmet, ev_clear = (length unmet = 0)\<rparr>)"

fun js_join :: "string \<Rightarrow> string list \<Rightarrow> string" where
  "js_join sep [] = []"
| "js_join sep [x] = x"
| "js_join sep (x # y # xs) = x @ sep @ js_join sep (y # xs)"

text \<open>The dash of the first sentence is U+2014 in the source.\<close>

definition describeUnmet :: "CoalitionJoinRequirementCheck list \<Rightarrow> string option" where
  "describeUnmet unmet =
     (if length unmet = 0 then None
      else if \<forall>check \<in> set unmet. ck_unverified check = Some True
      then Some ''A steward will review your request - we could not check your standing automatically.''
      else let parts = map (\<lambda>check. if truthy (ck_actual check)
                              then ck_required check @ '' (you have '' @ the (ck_actual check) @ '')''
                              else ck_required check)
                         (filter (\<lambda>check. ck_unverified check \<noteq> Some True) unmet)
           in Some (''This coalition asks for '' @ js_join '', '' parts @ ''. A steward will review your request.''))"

section \<open>Properties\<close>

definition requirements_cleared ::
    "ServiceEnv \<Rightarrow> CoalitionDb \<Rightarrow> Coalition \<Rightarrow> ident \<Rightarrow> int \<Rightarrow> bool" where
  "requirements_cleared env db c u now \<longleftrightarrow>
     (\<forall>r. co_joinRequirements c = Some r \<longrightarrow>
        (\<forall>n. minAccountAgeDays r = Some n \<longrightarrow>
           (\<exists>user t. getUserById (db_users db) u = Some user \<and> Date_parse (us_createdAt user) = Some t \<and>
              n \<le> max 0 ((now - t) div DAY_MS))) \<and>
        (requireVerifiedEmail r = Some True \<longrightarrow>
           (\<exists>user. getUserById (db_users db) u = Some user \<and> truthy (us_emailVerifiedAt user))) \<and>
        (\<forall>n. minReputationScore r = Some n \<longrightarrow>
           n \<le> sum_list (map event_points (listReputationEventsForUser (db_reputationEvents db) u))) \<and>
        (\<forall>n. minCoalitionContributions r = Some n \<longrightarrow> n \<le> int (coalitionContributionCount db u))) \<and>
     (\<forall>g. co_minTierToJoin c = Some g \<longrightarrow>
        (\<exists>t. resolveMemberTier env db u = Known t \<and> tierSatisfies t (Some g)))"

lemma reputation_score:
  "st_score (rp_overall (getUserReputation l u)) =
     sum_list (map event_points (listReputationEventsForUser l u))"
  using aggregate_loop_overall [of 0 "[]" "listReputationEventsForUser l u"]
  by (auto simp: getUserReputation_def aggregateReputation_def standing_def split: prod.splits)

lemma Date_parse_Nil [simp]: "Date_parse [] = None"
  by (simp add: Date_parse_def)

lemma account_age_met:
  "ck_met (check_account_age db u now n) \<longleftrightarrow>
     (\<exists>user t. getUserById (db_users db) u = Some user \<and> Date_parse (us_createdAt user) = Some t \<and>
        n \<le> max 0 ((now - t) div DAY_MS))"
  by (cases "getUserById (db_users db) u")
    (auto simp: check_account_age_def daysSince_def Let_def truthy_simps split: option.splits)

lemma opt_check_met:
  "(\<forall>x \<in> set (opt_check f v). ck_met x) \<longleftrightarrow> (\<forall>n. v = Some n \<longrightarrow> ck_met (f n))"
  by (cases v) (auto simp: opt_check_def)

lemma evaluate_clear_iff:
  "ev_clear (evaluateJoinRequirements env db c u now) \<longleftrightarrow>
     (\<forall>x \<in> set (ev_checks (evaluateJoinRequirements env db c u now)). ck_met x)"
  by (auto simp: evaluateJoinRequirements_def Let_def filter_empty_conv)

text \<open>
  C39: a joiner clears the requirements exactly when each requirement the coalition set
  holds of them: account age, verified email, reputation score, past contributions, and a
  tier that is known and high enough.  An unknown tier never clears a tier gate.
\<close>

theorem evaluateJoinRequirements_clear:
  "ev_clear (evaluateJoinRequirements env db c u now) \<longleftrightarrow> requirements_cleared env db c u now"
proof -
  have e: "ck_met (check_verified_email db u) \<longleftrightarrow>
      (\<exists>user. getUserById (db_users db) u = Some user \<and> truthy (us_emailVerifiedAt user))"
    by (auto simp: check_verified_email_def split: option.splits)
  have r: "ck_met (check_reputation db u n) \<longleftrightarrow>
      n \<le> sum_list (map event_points (listReputationEventsForUser (db_reputationEvents db) u))" for n
    by (simp add: check_reputation_def Let_def reputation_score)
  have k: "ck_met (check_contributions db u n) \<longleftrightarrow> n \<le> int (coalitionContributionCount db u)" for n
    by (simp add: check_contributions_def Let_def)
  have t: "ck_met (check_tier env db u g) \<longleftrightarrow>
      (\<exists>t. resolveMemberTier env db u = Known t \<and> tierSatisfies t (Some g))" for g
    by (auto simp: check_tier_def split: TierResolution.splits)
  show ?thesis
    unfolding evaluate_clear_iff requirements_cleared_def
    by (cases "co_joinRequirements c")
      (auto simp: evaluateJoinRequirements_def Let_def ball_Un opt_check_met account_age_met e r k t)
qed

end
