(* ===== verification/Coalition_Lifecycle.thy ===== *)
theory Coalition_Lifecycle
  imports Coalition_Join
begin

text \<open>
  \<^verbatim>\<open>services/coalitionNetworkStore.ts\<close>, first part: errors, lookups, the
  permission gate, slugs, and creating, editing, stopping and reinstating a coalition.

  An operation takes the clock reading, the random part of new ids where it makes one,
  its arguments and the database, and returns its result with the database after it.  A
  handler runs to its end without another one in between: its awaits are on outside
  services whose answers are arguments.
\<close>

datatype CoalitionError =
    Not_found
  | Archived
  | Forbidden "CoalitionPermission option"
  | Not_member
  | Already_member
  | Approval_required CoalitionJoinRequest
  | Payees_invalid string
  | Taken_down
  | Petition_open
  | Petition_not_found
  | Quorum_not_met nat nat
  | Invalid_role
  | Last_founder
  | Invalid_transition CampaignStatus CampaignStatus
  | Campaign_inactive
  | Boost_allowance_exhausted nat
  | Already_boosted

type_synonym 'a CoalitionResult = "CoalitionError + 'a"

definition fail :: "CoalitionError \<Rightarrow> CoalitionDb \<Rightarrow> 'a CoalitionResult \<times> CoalitionDb" where
  "fail e db = (Inl e, db)"

definition succeed :: "'a \<Rightarrow> CoalitionDb \<Rightarrow> 'a CoalitionResult \<times> CoalitionDb" where
  "succeed v db = (Inr v, db)"

text \<open>The two parts of a generated id: base-36 random digits and the clock.\<close>

type_synonym entropy = "string \<times> string"

definition new_id :: "string \<Rightarrow> entropy \<Rightarrow> ident" where
  "new_id tag e = tag @ ''_'' @ fst e @ ''_'' @ snd e"

definition newCoalitionId :: "entropy \<Rightarrow> ident" where
  "newCoalitionId e = new_id ''coa'' e"

definition newCoalitionMembershipId :: "entropy \<Rightarrow> ident" where
  "newCoalitionMembershipId e = new_id ''coam'' e"

definition newJoinRequestId :: "entropy \<Rightarrow> ident" where
  "newJoinRequestId e = new_id ''coaj'' e"

definition newCampaignId :: "entropy \<Rightarrow> ident" where
  "newCampaignId e = new_id ''camp'' e"

definition newPayeeId :: "entropy \<Rightarrow> ident" where
  "newPayeeId e = new_id ''cpay'' e"

definition newBoostId :: "entropy \<Rightarrow> ident" where
  "newBoostId e = new_id ''boost'' e"

fun ROLE_RANK :: "CoalitionRole \<Rightarrow> nat" where
  "ROLE_RANK Founder = 3"
| "ROLE_RANK Steward = 2"
| "ROLE_RANK Griot = 1"
| "ROLE_RANK Member = 0"

section \<open>Lookups\<close>

definition getCoalition :: "CoalitionDb \<Rightarrow> string \<Rightarrow> Coalition option" where
  "getCoalition db idOrSlug =
     (case getCoalition_db db idOrSlug of Some c \<Rightarrow> Some c | None \<Rightarrow> getCoalitionBySlug db idOrSlug)"

definition activeMembership :: "CoalitionDb \<Rightarrow> ident \<Rightarrow> ident \<Rightarrow> CoalitionMembership option" where
  "activeMembership db coalitionId userId =
     (case getCoalitionMembership db coalitionId userId of
        Some membership \<Rightarrow> if me_active membership then Some membership else None
      | None \<Rightarrow> None)"

definition activeMembers :: "CoalitionDb \<Rightarrow> ident \<Rightarrow> CoalitionMembership list" where
  "activeMembers db coalitionId = filter me_active (listCoalitionMemberships db (Some coalitionId) None)"

definition countActiveCoalitionMembers :: "CoalitionMembership list \<Rightarrow> nat" where
  "countActiveCoalitionMembers memberships =
     foldl (\<lambda>total m. total + (if me_active m then 1 else 0)) 0 memberships"

definition memberCount :: "CoalitionDb \<Rightarrow> ident \<Rightarrow> nat" where
  "memberCount db coalitionId =
     countActiveCoalitionMembers (listCoalitionMemberships db (Some coalitionId) None)"

definition coalitionRolePermissions :: "CoalitionRole \<Rightarrow> CoalitionPermission list" where
  "coalitionRolePermissions role =
     filter (coalitionRoleCan role)
       [Coalition_edit, Coalition_archive, Members_approve, Members_role, Members_remove, Members_invite,
        Campaigns_launch, Campaigns_approve, Campaigns_promote, Connections_manage, Externals_moderate]"

definition permissionsFor :: "CoalitionDb \<Rightarrow> ident \<Rightarrow> ident \<Rightarrow> CoalitionPermission list" where
  "permissionsFor db coalitionId userId =
     (case activeMembership db coalitionId userId of
        None \<Rightarrow> []
      | Some membership \<Rightarrow> coalitionRolePermissions (me_role membership))"

definition requirePermission ::
    "CoalitionDb \<Rightarrow> Coalition \<Rightarrow> ident \<Rightarrow> CoalitionPermission \<Rightarrow> CoalitionMembership CoalitionResult" where
  "requirePermission db coalition userId permission =
     (case activeMembership db (co_id coalition) userId of
        None \<Rightarrow> Inl Not_member
      | Some membership \<Rightarrow>
          if \<not> coalitionRoleCan (me_role membership) permission then Inl (Forbidden (Some permission))
          else Inr membership)"

section \<open>Slugs\<close>

definition suffixed :: "string \<Rightarrow> nat \<Rightarrow> string" where
  "suffixed base sfx = base @ ''-'' @ show_nat sfx"

definition taken_suffixes :: "CoalitionDb \<Rightarrow> string \<Rightarrow> nat \<Rightarrow> nat set" where
  "taken_suffixes db base sfx = {k. sfx \<le> k \<and> getCoalitionBySlug db (suffixed base k) \<noteq> None}"

lemma finite_taken_suffixes: "finite (taken_suffixes db base n)"
proof (rule finite_imageD)
  show "finite (suffixed base ` taken_suffixes db base n)"
  proof (rule finite_subset)
    show "suffixed base ` taken_suffixes db base n \<subseteq> co_slug ` set (js_values (db_coalitions db))"
      by (auto simp: taken_suffixes_def getCoalitionBySlug_def dest!: find_SomeD intro: rev_image_eqI)
  qed simp
  show "inj_on (suffixed base) (taken_suffixes db base n)"
    by (auto simp: inj_on_def suffixed_def show_nat_inject)
qed

lemma card_taken_suffixes_Suc:
  "card (taken_suffixes db base n) =
     card (taken_suffixes db base (Suc n)) + (if getCoalitionBySlug db (suffixed base n) \<noteq> None then 1 else 0)"
proof -
  have "taken_suffixes db base n = taken_suffixes db base (Suc n) \<union>
      (if getCoalitionBySlug db (suffixed base n) \<noteq> None then {n} else {})"
    by (auto simp: taken_suffixes_def le_eq_less_or_eq Suc_le_eq)
  moreover have "n \<notin> taken_suffixes db base (Suc n)" by (simp add: taken_suffixes_def)
  ultimately show ?thesis using finite_taken_suffixes by simp
qed

text \<open>The \<^verbatim>\<open>for (;;)\<close> loop; it ends because finitely many slugs are taken.\<close>

function slug_loop :: "CoalitionDb \<Rightarrow> string \<Rightarrow> ident option \<Rightarrow> string \<Rightarrow> nat \<Rightarrow> string" where
  "slug_loop db base exceptId slug sfx =
     (case getCoalitionBySlug db slug of
        None \<Rightarrow> slug
      | Some taken \<Rightarrow>
          if Some (co_id taken) = exceptId then slug
          else slug_loop db base exceptId (suffixed base sfx) (sfx + 1))"
  by pat_completeness auto
termination
proof (relation "measure (\<lambda>(db, base, exceptId, slug, sfx).
    2 * card (taken_suffixes db base sfx) + (if getCoalitionBySlug db slug \<noteq> None then 1 else 0))")
  fix db base exceptId slug sfx taken
  assume "getCoalitionBySlug db slug = Some taken"
  then show "((db, base, exceptId, suffixed base sfx, sfx + 1), db, base, exceptId, slug, sfx)
    \<in> measure (\<lambda>(db, base, exceptId, slug, sfx).
      2 * card (taken_suffixes db base sfx) + (if getCoalitionBySlug db slug \<noteq> None then 1 else 0))"
    using card_taken_suffixes_Suc [of db base sfx] by auto
qed simp

declare slug_loop.simps [simp del]

definition uniqueSlug :: "CoalitionDb \<Rightarrow> string \<Rightarrow> ident option \<Rightarrow> string" where
  "uniqueSlug db name exceptId =
     (let base = slugifyCoalitionName name in slug_loop db base exceptId base 2)"

section \<open>Creating and editing\<close>

record SpaceResult =
  sp_ok :: bool
  sp_roomId :: "string option"
  sp_detail :: "string option"

record CreateCoalitionInput =
  cc_name :: string
  cc_mission :: string
  cc_bannerUrl :: "string option"
  cc_joinMode :: CoalitionJoinMode
  cc_minTierToJoin :: "CoalitionTierGate option"
  cc_joinRequirements :: "JoinRequirementsInput option"
  cc_createdBy :: ident

text \<open>\<open>space\<close> is what \<^verbatim>\<open>provisionCoalitionSpace\<close> answers for the new coalition.\<close>

definition createCoalition ::
    "iso \<Rightarrow> entropy \<Rightarrow> SpaceResult \<Rightarrow> CreateCoalitionInput \<Rightarrow> CoalitionDb \<Rightarrow>
     (Coalition \<times> CoalitionMembership \<times> SpaceResult) \<times> CoalitionDb" where
  "createCoalition now e space input db =
     (let cid = newCoalitionId e;
          (coalition, db) = upsertCoalition now
            \<lparr>co_id = cid, co_slug = uniqueSlug db (cc_name input) None, co_name = cc_name input,
             co_mission = cc_mission input,
             co_bannerUrl = (if truthy (cc_bannerUrl input) then cc_bannerUrl input else None),
             co_joinMode = cc_joinMode input, co_minTierToJoin = cc_minTierToJoin input,
             co_joinRequirements = normalizeJoinRequirements (cc_joinRequirements input),
             co_externalReplyPolicy = None, co_spaceRoomId = None, co_createdBy = cc_createdBy input,
             co_archivedAt = None, co_takenDownAt = None, co_takenDownBy = None,
             co_takedownReason = None, co_reinstatedAt = None, co_createdAt = now, co_updatedAt = now\<rparr> db;
          (membership, db) = upsertCoalitionMembership now
            \<lparr>me_id = newCoalitionMembershipId e, me_coalitionId = cid, me_userId = cc_createdBy input,
             me_role = Founder, me_active = True, me_createdAt = now, me_updatedAt = now\<rparr> db;
          db = emit (Space (Space_provision cid)) db;
          (coalition, db) =
            (if sp_ok space \<and> truthy (sp_roomId space)
             then upsertCoalition now (coalition\<lparr>co_spaceRoomId := sp_roomId space\<rparr>) db
             else (coalition, db));
          db = emit (Emit (Ev_coalition_created cid (cc_createdBy input) (cc_joinMode input))) db
      in ((coalition, membership, space), db))"

text \<open>In a patch, a nullable field is absent, null, or a value.\<close>

record UpdateCoalitionInput =
  up_name :: "string option"
  up_mission :: "string option"
  up_bannerUrl :: "string option option"
  up_joinMode :: "CoalitionJoinMode option"
  up_minTierToJoin :: "CoalitionTierGate option option"
  up_joinRequirements :: "JoinRequirementsInput option option"
  up_externalReplyPolicy :: "ExternalReplyPolicy option option"

definition isStopped :: "Coalition \<Rightarrow> bool" where
  "isStopped coalition \<longleftrightarrow> truthy (co_archivedAt coalition) \<or> truthy (co_takenDownAt coalition)"

definition stoppedError :: "Coalition \<Rightarrow> CoalitionError" where
  "stoppedError coalition = (if truthy (co_takenDownAt coalition) then Taken_down else Archived)"

definition patched :: "'a option option \<Rightarrow> 'a option \<Rightarrow> 'a option" where
  "patched p old = (case p of None \<Rightarrow> old | Some v \<Rightarrow> v)"

definition apply_patch :: "CoalitionDb \<Rightarrow> UpdateCoalitionInput \<Rightarrow> Coalition \<Rightarrow> Coalition" where
  "apply_patch db patch coalition =
     coalition
       \<lparr>co_name := (case up_name patch of None \<Rightarrow> co_name coalition | Some n \<Rightarrow> n),
        co_slug := (case up_name patch of
                      None \<Rightarrow> co_slug coalition
                    | Some n \<Rightarrow> uniqueSlug db n (Some (co_id coalition))),
        co_mission := (case up_mission patch of None \<Rightarrow> co_mission coalition | Some m \<Rightarrow> m),
        co_bannerUrl := patched (up_bannerUrl patch) (co_bannerUrl coalition),
        co_joinMode := (case up_joinMode patch of None \<Rightarrow> co_joinMode coalition | Some j \<Rightarrow> j),
        co_minTierToJoin := patched (up_minTierToJoin patch) (co_minTierToJoin coalition),
        co_externalReplyPolicy := patched (up_externalReplyPolicy patch) (co_externalReplyPolicy coalition),
        co_joinRequirements :=
          (case up_joinRequirements patch of
             None \<Rightarrow> co_joinRequirements coalition
           | Some None \<Rightarrow> None
           | Some (Some r) \<Rightarrow> normalizeJoinRequirements (Some r))\<rparr>"

definition updateCoalition ::
    "iso \<Rightarrow> string \<Rightarrow> ident \<Rightarrow> UpdateCoalitionInput \<Rightarrow> CoalitionDb \<Rightarrow> Coalition CoalitionResult \<times> CoalitionDb" where
  "updateCoalition now idOrSlug actorId patch db =
     (case getCoalition db idOrSlug of
        None \<Rightarrow> fail Not_found db
      | Some coalition \<Rightarrow>
          if isStopped coalition then fail (stoppedError coalition) db
          else case requirePermission db coalition actorId Coalition_edit of
                 Inl err \<Rightarrow> fail err db
               | Inr _ \<Rightarrow>
                   (let (saved, db) = upsertCoalition now (apply_patch db patch coalition) db;
                        db = (if truthy (co_spaceRoomId saved) \<and> (up_joinMode patch \<noteq> None \<or> up_name patch \<noteq> None)
                              then emit (Space (Space_settings (co_id saved))) db else db)
                    in succeed saved db))"

section \<open>Stopping and reinstating\<close>

definition takeDownCoalition ::
    "iso \<Rightarrow> string \<Rightarrow> ident \<Rightarrow> string \<Rightarrow> CoalitionDb \<Rightarrow> Coalition CoalitionResult \<times> CoalitionDb" where
  "takeDownCoalition now idOrSlug adminUserId reason db =
     (case getCoalition db idOrSlug of
        None \<Rightarrow> fail Not_found db
      | Some coalition \<Rightarrow>
          if truthy (co_takenDownAt coalition) then succeed coalition db
          else let (saved, db) = upsertCoalition now
                     (coalition\<lparr>co_takenDownAt := Some now, co_takenDownBy := Some adminUserId,
                                co_takedownReason := Some reason, co_reinstatedAt := None\<rparr>) db;
                   db = emit (Space (Space_close (co_id saved))) db;
                   db = emit (Job (Push_status (co_id saved) ''taken_down'')) db;
                   db = emit (Job (Job_withdraw_listings (co_id saved))) db;
                   db = emit (Emit (Ev_coalition_taken_down (co_id coalition) adminUserId reason)) db
               in succeed saved db)"

definition reinstateCoalition ::
    "iso \<Rightarrow> string \<Rightarrow> ident \<Rightarrow> CoalitionDb \<Rightarrow> Coalition CoalitionResult \<times> CoalitionDb" where
  "reinstateCoalition now idOrSlug adminUserId db =
     (case getCoalition db idOrSlug of
        None \<Rightarrow> fail Not_found db
      | Some coalition \<Rightarrow>
          if \<not> truthy (co_takenDownAt coalition) then succeed coalition db
          else let (saved, db) = upsertCoalition now
                     (coalition\<lparr>co_takenDownAt := None, co_takedownReason := None,
                                co_reinstatedAt := Some now\<rparr>) db;
                   db = emit (Job (Push_status (co_id saved) ''active'')) db;
                   db = emit (Emit (Ev_coalition_reinstated (co_id coalition) adminUserId)) db
               in succeed saved db)"

definition archiveCoalition ::
    "iso \<Rightarrow> string \<Rightarrow> ident \<Rightarrow> CoalitionDb \<Rightarrow> Coalition CoalitionResult \<times> CoalitionDb" where
  "archiveCoalition now idOrSlug actorId db =
     (case getCoalition db idOrSlug of
        None \<Rightarrow> fail Not_found db
      | Some coalition \<Rightarrow>
          (case requirePermission db coalition actorId Coalition_archive of
             Inl err \<Rightarrow> fail err db
           | Inr _ \<Rightarrow>
               if isStopped coalition then succeed coalition db
               else let (saved, db) = upsertCoalition now (coalition\<lparr>co_archivedAt := Some now\<rparr>) db;
                        db = emit (Job (Job_withdraw_listings (co_id saved))) db;
                        db = emit (Emit (Ev_coalition_archived (co_id coalition))) db
                    in succeed saved db))"

section \<open>Properties\<close>

definition slugs_distinct :: "CoalitionDb \<Rightarrow> bool" where
  "slugs_distinct db \<longleftrightarrow> distinct (map co_slug (js_values (db_coalitions db)))"

lemma getCoalitionBySlug_iff:
  assumes "slugs_distinct db"
  shows "getCoalitionBySlug db s = Some c \<longleftrightarrow> c \<in> set (js_values (db_coalitions db)) \<and> co_slug c = s"
proof
  assume "c \<in> set (js_values (db_coalitions db)) \<and> co_slug c = s"
  then show "getCoalitionBySlug db s = Some c"
    unfolding getCoalitionBySlug_def
    using assms by (intro find_unique) (auto simp: slugs_distinct_def distinct_map inj_on_def)
qed (auto simp: getCoalitionBySlug_def dest: find_SomeD)

lemma slug_loop_free:
  "getCoalitionBySlug db (slug_loop db base ex slug n) = Some c \<Longrightarrow> ex = Some (co_id c)"
proof (induction db base ex slug n rule: slug_loop.induct)
  case (1 db base ex slug n)
  then show ?case
    by (cases "getCoalitionBySlug db slug")
      (auto simp: slug_loop.simps [of db base ex slug n] split: if_splits)
qed

lemma slug_loop_shape: "slug_loop db base ex slug n = slug \<or> (\<exists>k. slug_loop db base ex slug n = suffixed base k)"
proof (induction db base ex slug n rule: slug_loop.induct)
  case (1 db base ex slug n)
  then show ?case
    by (cases "getCoalitionBySlug db slug")
      (auto simp: slug_loop.simps [of db base ex slug n] split: if_splits)
qed

text \<open>
  C38: the slug search ends with a slug of its own.  The loop returns for every database;
  the slug it returns is the name's slug or that slug with a number, and no coalition but
  the excepted one has it.
\<close>

theorem uniqueSlug_is_free:
  assumes "slugs_distinct db"
  shows "(uniqueSlug db name ex = slugifyCoalitionName name \<or>
      (\<exists>k. uniqueSlug db name ex = slugifyCoalitionName name @ ''-'' @ show_nat k)) \<and>
    (\<forall>c \<in> set (js_values (db_coalitions db)). co_slug c = uniqueSlug db name ex \<longrightarrow> ex = Some (co_id c))"
  using slug_loop_shape [of db "slugifyCoalitionName name" ex "slugifyCoalitionName name" 2]
    slug_loop_free [of db "slugifyCoalitionName name" ex "slugifyCoalitionName name" 2]
    getCoalitionBySlug_iff [OF assms]
  by (auto simp: uniqueSlug_def Let_def suffixed_def)

text \<open>Rows for the concrete runs below and in the other theories.\<close>

definition sample_coalition :: "ident \<Rightarrow> string \<Rightarrow> Coalition" where
  "sample_coalition cid slug =
     \<lparr>co_id = cid, co_slug = slug, co_name = ''Food'', co_mission = ''Feed people'', co_bannerUrl = None,
      co_joinMode = JoinOpen, co_minTierToJoin = None, co_joinRequirements = None,
      co_externalReplyPolicy = None, co_spaceRoomId = None, co_createdBy = ''ana'', co_archivedAt = None,
      co_takenDownAt = None, co_takenDownBy = None, co_takedownReason = None, co_reinstatedAt = None,
      co_createdAt = ''2026-01-01T00:00:00.000Z'', co_updatedAt = ''2026-01-01T00:00:00.000Z''\<rparr>"

definition sample_member :: "ident \<Rightarrow> ident \<Rightarrow> CoalitionRole \<Rightarrow> CoalitionMembership" where
  "sample_member cid uid role =
     \<lparr>me_id = ''coam_'' @ uid, me_coalitionId = cid, me_userId = uid, me_role = role, me_active = True,
      me_createdAt = ''2026-01-01T00:00:00.000Z'', me_updatedAt = ''2026-01-01T00:00:00.000Z''\<rparr>"

definition sample_db :: "CoalitionMembership list \<Rightarrow> CoalitionDb" where
  "sample_db ms = empty_db
     \<lparr>db_coalitions := [(''coa_1'', sample_coalition ''coa_1'' ''food'')],
      db_memberships := map (\<lambda>m. (membership_key m, m)) ms\<rparr>"

lemma uniqueSlug_is_free_witness:
  "\<exists>db. slugs_distinct db \<and> uniqueSlug db ''Food!'' None = ''food-3'' \<and>
     (\<forall>c \<in> set (js_values (db_coalitions db)). co_slug c \<noteq> ''food-3'')"
proof -
  define db where "db = empty_db\<lparr>db_coalitions := [(''coa_1'', sample_coalition ''coa_1'' ''food''),
    (''coa_2'', sample_coalition ''coa_2'' ''food-2'')]\<rparr>"
  have d: "slugs_distinct db"
    by (simp add: slugs_distinct_def db_def js_values_def sample_coalition_def)
  have u: "uniqueSlug db ''Food!'' None = ''food-3''"
    unfolding db_def by code_simp
  from uniqueSlug_is_free [OF d, of "''Food!''" None] u d show ?thesis
    by (intro exI [of _ db]) auto
qed

end
