(* ===== verification/Coalition_Membership.thy ===== *)
theory Coalition_Membership
  imports Coalition_Lifecycle
begin

text \<open>
  \<^verbatim>\<open>services/coalitionNetworkStore.ts\<close>, second part: joining, the approval queue,
  invites, leaving, removal, roles, founder transfer and succession petitions, with
  \<^verbatim>\<open>revokeMemberLinks\<close> of \<^verbatim>\<open>services/coalitionConnectionCustody.ts\<close>.
\<close>

section \<open>Custody of personal links\<close>

definition revoke_row :: "iso \<Rightarrow> CoalitionMemberConnection \<Rightarrow> CoalitionDb \<Rightarrow> CoalitionDb" where
  "revoke_row now row db =
     snd (upsertCoalitionMemberConnection now (row\<lparr>mc_credentialRef := None, mc_revokedAt := Some now\<rparr>) db)"

definition revokeMemberLinks ::
    "iso \<Rightarrow> ident \<Rightarrow> CoalitionPlatform option \<Rightarrow> ident option \<Rightarrow> CoalitionDb \<Rightarrow> nat \<times> CoalitionDb" where
  "revokeMemberLinks now coalitionId platform userId db =
     (let rows = filter (\<lambda>row. \<not> truthy (mc_revokedAt row) \<and>
                           (case platform of None \<Rightarrow> True | Some p \<Rightarrow> mc_platform row = p))
            (listCoalitionMemberConnections db (Some coalitionId) (if truthy userId then userId else None))
      in (length rows, fold (revoke_row now) rows db))"

section \<open>Joining\<close>

definition admit ::
    "iso \<Rightarrow> entropy \<Rightarrow> Coalition \<Rightarrow> ident \<Rightarrow> CoalitionRole \<Rightarrow> JoinVia \<Rightarrow> CoalitionDb \<Rightarrow>
     CoalitionMembership \<times> CoalitionDb" where
  "admit now e coalition userId role via db =
     (let existing = getCoalitionMembership db (co_id coalition) userId;
          (membership, db) = upsertCoalitionMembership now
            \<lparr>me_id = (case existing of Some m \<Rightarrow> me_id m | None \<Rightarrow> newCoalitionMembershipId e),
             me_coalitionId = co_id coalition, me_userId = userId,
             me_role = (case existing of Some m \<Rightarrow> if me_active m then me_role m else role | None \<Rightarrow> role),
             me_active = True, me_createdAt = now, me_updatedAt = now\<rparr> db;
          db = emit (Space (Space_member (co_id coalition) userId (me_role membership))) db;
          db = emit (Emit (Ev_member_joined (co_id coalition) userId (me_role membership) via)) db
      in (membership, db))"

datatype JoinOutcome =
    Joined CoalitionMembership
  | Queued CoalitionJoinRequest "CoalitionJoinRequirementCheck list" "string option"

text \<open>The part of \<open>requestJoin\<close> after the invite check.\<close>

definition joinByPolicy ::
    "iso \<Rightarrow> entropy \<Rightarrow> ServiceEnv \<Rightarrow> int \<Rightarrow> Coalition \<Rightarrow> ident \<Rightarrow> string option \<Rightarrow>
     CoalitionJoinRequest option \<Rightarrow> CoalitionDb \<Rightarrow> JoinOutcome CoalitionResult \<times> CoalitionDb" where
  "joinByPolicy now e env nowMs coalition userId message existingRequest db =
     (let evaluation = evaluateJoinRequirements env db coalition userId nowMs
      in if co_joinMode coalition = JoinOpen \<and> ev_clear evaluation
         then let (membership, db) = admit now e coalition userId Member Via_open db
              in succeed (Joined membership) db
         else let (request, db) = upsertCoalitionJoinRequest now
                    \<lparr>jr_id = (case existingRequest of Some r \<Rightarrow> jr_id r | None \<Rightarrow> newJoinRequestId e),
                     jr_coalitionId = co_id coalition, jr_userId = userId,
                     jr_message = (if truthy message then message else None),
                     jr_status = Req_pending, jr_invitedBy = None, jr_reviewedBy = None,
                     jr_reviewedAt = None, jr_createdAt = now, jr_updatedAt = now\<rparr> db;
                  db = emit (Emit (Ev_join_requested (co_id coalition) userId
                         (map ck_key (ev_unmet evaluation)))) db
              in succeed (Queued request (ev_unmet evaluation) (describeUnmet (ev_unmet evaluation))) db)"

definition requestJoin ::
    "iso \<Rightarrow> entropy \<Rightarrow> ServiceEnv \<Rightarrow> int \<Rightarrow> string \<Rightarrow> ident \<Rightarrow> string option \<Rightarrow> CoalitionDb \<Rightarrow>
     JoinOutcome CoalitionResult \<times> CoalitionDb" where
  "requestJoin now e env nowMs idOrSlug userId message db =
     (case getCoalition db idOrSlug of
        None \<Rightarrow> fail Not_found db
      | Some coalition \<Rightarrow>
          if isStopped coalition then fail (stoppedError coalition) db
          else if activeMembership db (co_id coalition) userId \<noteq> None then fail Already_member db
          else let existingRequest = getCoalitionJoinRequest db (co_id coalition) userId
               in case existingRequest of
                    Some r \<Rightarrow>
                      if jr_status r = Req_invited
                      then let (_, db) = upsertCoalitionJoinRequest now
                                 (r\<lparr>jr_status := Req_approved,
                                    jr_reviewedBy := (case jr_invitedBy r of Some i \<Rightarrow> Some i | None \<Rightarrow> jr_reviewedBy r),
                                    jr_reviewedAt := Some now\<rparr>) db;
                               (membership, db) = admit now e coalition userId Member Via_invited db
                           in succeed (Joined membership) db
                      else joinByPolicy now e env nowMs coalition userId message (Some r) db
                  | None \<Rightarrow> joinByPolicy now e env nowMs coalition userId message None db)"

section \<open>The approval queue and invites\<close>

definition listJoinRequests ::
    "CoalitionDb \<Rightarrow> string \<Rightarrow> ident \<Rightarrow> CoalitionJoinRequest list CoalitionResult" where
  "listJoinRequests db idOrSlug actorId =
     (case getCoalition db idOrSlug of
        None \<Rightarrow> Inl Not_found
      | Some coalition \<Rightarrow>
          (case requirePermission db coalition actorId Members_approve of
             Inl err \<Rightarrow> Inl err
           | Inr _ \<Rightarrow>
               Inr (js_sort (\<lambda>a b. iso_le (jr_createdAt a) (jr_createdAt b))
                 (listCoalitionJoinRequests db (Some (co_id coalition)) None (Some Req_pending)))))"

definition reviewJoinRequest ::
    "iso \<Rightarrow> entropy \<Rightarrow> string \<Rightarrow> ident \<Rightarrow> ident \<Rightarrow> bool \<Rightarrow> CoalitionDb \<Rightarrow>
     (CoalitionJoinRequest \<times> CoalitionMembership option) CoalitionResult \<times> CoalitionDb" where
  "reviewJoinRequest now e idOrSlug actorId userId approve db =
     (case getCoalition db idOrSlug of
        None \<Rightarrow> fail Not_found db
      | Some coalition \<Rightarrow>
          if isStopped coalition then fail (stoppedError coalition) db
          else case requirePermission db coalition actorId Members_approve of
                 Inl err \<Rightarrow> fail err db
               | Inr _ \<Rightarrow>
                   (case getCoalitionJoinRequest db (co_id coalition) userId of
                      None \<Rightarrow> fail Not_found db
                    | Some request \<Rightarrow>
                        if jr_status request \<noteq> Req_pending then fail Not_found db
                        else let (reviewed, db) = upsertCoalitionJoinRequest now
                                   (request\<lparr>jr_status := (if approve then Req_approved else Req_declined),
                                            jr_reviewedBy := Some actorId, jr_reviewedAt := Some now\<rparr>) db;
                                 db = emit (Emit (Ev_join_reviewed (co_id coalition) userId approve actorId)) db
                             in if \<not> approve then succeed (reviewed, None) db
                                else let (membership, db) = admit now e coalition userId Member Via_approved db
                                     in succeed (reviewed, Some membership) db))"

definition withdrawJoinRequest ::
    "iso \<Rightarrow> string \<Rightarrow> ident \<Rightarrow> CoalitionDb \<Rightarrow> CoalitionJoinRequest CoalitionResult \<times> CoalitionDb" where
  "withdrawJoinRequest now idOrSlug userId db =
     (case getCoalition db idOrSlug of
        None \<Rightarrow> fail Not_found db
      | Some coalition \<Rightarrow>
          (case getCoalitionJoinRequest db (co_id coalition) userId of
             None \<Rightarrow> fail Not_found db
           | Some request \<Rightarrow>
               if jr_status request \<noteq> Req_pending \<and> jr_status request \<noteq> Req_invited then fail Not_found db
               else let (saved, db) = upsertCoalitionJoinRequest now (request\<lparr>jr_status := Req_withdrawn\<rparr>) db
                    in succeed saved db))"

definition inviteMember ::
    "iso \<Rightarrow> entropy \<Rightarrow> string \<Rightarrow> ident \<Rightarrow> ident \<Rightarrow> CoalitionDb \<Rightarrow>
     CoalitionJoinRequest CoalitionResult \<times> CoalitionDb" where
  "inviteMember now e idOrSlug actorId userId db =
     (case getCoalition db idOrSlug of
        None \<Rightarrow> fail Not_found db
      | Some coalition \<Rightarrow>
          if isStopped coalition then fail (stoppedError coalition) db
          else case requirePermission db coalition actorId Members_invite of
                 Inl err \<Rightarrow> fail err db
               | Inr _ \<Rightarrow>
                   if activeMembership db (co_id coalition) userId \<noteq> None then fail Already_member db
                   else let existing = getCoalitionJoinRequest db (co_id coalition) userId;
                            (request, db) = upsertCoalitionJoinRequest now
                              \<lparr>jr_id = (case existing of Some r \<Rightarrow> jr_id r | None \<Rightarrow> newJoinRequestId e),
                               jr_coalitionId = co_id coalition, jr_userId = userId, jr_message = None,
                               jr_status = Req_invited, jr_invitedBy = Some actorId, jr_reviewedBy = None,
                               jr_reviewedAt = None, jr_createdAt = now, jr_updatedAt = now\<rparr> db;
                            db = emit (Emit (Ev_member_invited (co_id coalition) userId actorId)) db
                        in succeed request db)"

definition listInvitesFor :: "CoalitionDb \<Rightarrow> ident \<Rightarrow> (CoalitionJoinRequest \<times> Coalition) list" where
  "listInvitesFor db userId =
     List.map_filter (\<lambda>request.
         (case getCoalition_db db (jr_coalitionId request) of
            Some coalition \<Rightarrow> if \<not> isStopped coalition then Some (request, coalition) else None
          | None \<Rightarrow> None))
       (listCoalitionJoinRequests db None (Some userId) (Some Req_invited))"

section \<open>Leaving, removal and roles\<close>

definition leaveCoalition ::
    "iso \<Rightarrow> string \<Rightarrow> ident \<Rightarrow> CoalitionDb \<Rightarrow> CoalitionMembership CoalitionResult \<times> CoalitionDb" where
  "leaveCoalition now idOrSlug userId db =
     (case getCoalition db idOrSlug of
        None \<Rightarrow> fail Not_found db
      | Some coalition \<Rightarrow>
          (case activeMembership db (co_id coalition) userId of
             None \<Rightarrow> fail Not_member db
           | Some membership \<Rightarrow>
               if me_role membership = Founder then fail Last_founder db
               else let (saved, db) = upsertCoalitionMembership now (membership\<lparr>me_active := False\<rparr>) db;
                        db = emit (Space (Space_remove (co_id coalition) userId (''Left '' @ co_name coalition))) db;
                        (_, db) = revokeMemberLinks now (co_id coalition) None (Some userId) db;
                        db = emit (Emit (Ev_member_left (co_id coalition) userId None)) db
                    in succeed saved db))"

definition removeMember ::
    "iso \<Rightarrow> string \<Rightarrow> ident \<Rightarrow> ident \<Rightarrow> CoalitionDb \<Rightarrow> CoalitionMembership CoalitionResult \<times> CoalitionDb" where
  "removeMember now idOrSlug actorId userId db =
     (case getCoalition db idOrSlug of
        None \<Rightarrow> fail Not_found db
      | Some coalition \<Rightarrow>
          (case requirePermission db coalition actorId Members_remove of
             Inl err \<Rightarrow> fail err db
           | Inr gate \<Rightarrow>
               if actorId = userId then fail (Forbidden (Some Members_remove)) db
               else case activeMembership db (co_id coalition) userId of
                      None \<Rightarrow> fail Not_member db
                    | Some target \<Rightarrow>
                        if ROLE_RANK (me_role gate) \<le> ROLE_RANK (me_role target)
                        then fail (Forbidden (Some Members_remove)) db
                        else let (saved, db) = upsertCoalitionMembership now (target\<lparr>me_active := False\<rparr>) db;
                                 db = emit (Space (Space_remove (co_id coalition) userId
                                        (''Removed from '' @ co_name coalition))) db;
                                 (_, db) = revokeMemberLinks now (co_id coalition) None (Some userId) db;
                                 db = emit (Emit (Ev_member_left (co_id coalition) userId (Some actorId))) db
                             in succeed saved db))"

definition setMemberRole ::
    "iso \<Rightarrow> string \<Rightarrow> ident \<Rightarrow> ident \<Rightarrow> CoalitionRole \<Rightarrow> CoalitionDb \<Rightarrow>
     CoalitionMembership CoalitionResult \<times> CoalitionDb" where
  "setMemberRole now idOrSlug actorId userId role db =
     (case getCoalition db idOrSlug of
        None \<Rightarrow> fail Not_found db
      | Some coalition \<Rightarrow>
          (case requirePermission db coalition actorId Members_role of
             Inl err \<Rightarrow> fail err db
           | Inr gate \<Rightarrow>
               (case activeMembership db (co_id coalition) userId of
                  None \<Rightarrow> fail Not_member db
                | Some target \<Rightarrow>
                    if me_role target = Founder then fail Invalid_role db
                    else if role \<notin> set (assignableRolesFor (me_role gate)) then fail Invalid_role db
                    else if ROLE_RANK (me_role gate) \<le> ROLE_RANK (me_role target) \<and> me_role gate \<noteq> Founder
                    then fail (Forbidden (Some Members_role)) db
                    else let (saved, db) = upsertCoalitionMembership now (target\<lparr>me_role := role\<rparr>) db;
                             db = emit (Space (Space_role (co_id coalition) userId role)) db;
                             db = emit (Emit (Ev_role_changed (co_id coalition) userId role actorId)) db
                         in succeed saved db)))"

definition transferFounderUnchecked ::
    "iso \<Rightarrow> Coalition \<Rightarrow> ident \<Rightarrow> CoalitionDb \<Rightarrow>
     (CoalitionMembership \<times> CoalitionMembership) CoalitionResult \<times> CoalitionDb" where
  "transferFounderUnchecked now coalition userId db =
     (case activeMembership db (co_id coalition) userId of
        None \<Rightarrow> fail Not_member db
      | Some target \<Rightarrow>
          (let outgoing = find (\<lambda>m. me_role m = Founder) (activeMembers db (co_id coalition));
               (founder, db) = upsertCoalitionMembership now (target\<lparr>me_role := Founder\<rparr>) db;
               (previous, db) =
                 (case outgoing of
                    Some o1 \<Rightarrow> upsertCoalitionMembership now (o1\<lparr>me_role := Steward\<rparr>) db
                  | None \<Rightarrow> (founder, db));
               db = emit (Space (Space_role (co_id coalition) userId Founder)) db;
               db = (case outgoing of
                       Some o1 \<Rightarrow> emit (Space (Space_role (co_id coalition) (me_userId o1) Steward)) db
                     | None \<Rightarrow> db);
               db = emit (Emit (Ev_founder_transferred (co_id coalition) (map_option me_userId outgoing) userId)) db
           in succeed (founder, previous) db))"

definition transferFounder ::
    "iso \<Rightarrow> string \<Rightarrow> ident \<Rightarrow> ident \<Rightarrow> CoalitionDb \<Rightarrow>
     (CoalitionMembership \<times> CoalitionMembership) CoalitionResult \<times> CoalitionDb" where
  "transferFounder now idOrSlug actorId userId db =
     (case getCoalition db idOrSlug of
        None \<Rightarrow> fail Not_found db
      | Some coalition \<Rightarrow>
          (case activeMembership db (co_id coalition) actorId of
             None \<Rightarrow> fail Not_member db
           | Some actor \<Rightarrow>
               if me_role actor \<noteq> Founder then fail (Forbidden (Some Coalition_archive)) db
               else case activeMembership db (co_id coalition) userId of
                      None \<Rightarrow> fail Not_member db
                    | Some target \<Rightarrow>
                        if me_userId target = actorId then fail Not_member db
                        else transferFounderUnchecked now coalition userId db))"

section \<open>Succession petitions\<close>

definition newPetitionId :: "entropy \<Rightarrow> ident" where
  "newPetitionId e = new_id ''csuc'' e"

definition eligibleSeconders :: "CoalitionDb \<Rightarrow> ident \<Rightarrow> ident \<Rightarrow> ident list" where
  "eligibleSeconders db coalitionId candidateUserId =
     map me_userId (filter (\<lambda>m. me_role m = Steward \<and> me_userId m \<noteq> candidateUserId)
       (activeMembers db coalitionId))"

definition openSuccessionPetition ::
    "iso \<Rightarrow> entropy \<Rightarrow> string \<Rightarrow> ident \<Rightarrow> string \<Rightarrow> CoalitionDb \<Rightarrow>
     CoalitionSuccessionPetition CoalitionResult \<times> CoalitionDb" where
  "openSuccessionPetition now e idOrSlug actorId reason db =
     (case getCoalition db idOrSlug of
        None \<Rightarrow> fail Not_found db
      | Some coalition \<Rightarrow>
          if isStopped coalition then fail (stoppedError coalition) db
          else case requirePermission db coalition actorId Coalition_succeed of
                 Inl err \<Rightarrow> fail err db
               | Inr _ \<Rightarrow>
                   if getOpenCoalitionSuccessionPetition db (co_id coalition) \<noteq> None then fail Petition_open db
                   else let (petition, db) = upsertCoalitionSuccessionPetition now
                              \<lparr>pe_id = newPetitionId e, pe_coalitionId = co_id coalition,
                               pe_candidateUserId = actorId, pe_openedBy = actorId, pe_reason = reason,
                               pe_secondedBy = [], pe_status = Succ_open, pe_resolvedBy = None,
                               pe_resolvedAt = None, pe_createdAt = now, pe_updatedAt = now\<rparr> db;
                            db = emit (Emit (Ev_succession_opened (co_id coalition) (pe_id petition) actorId)) db
                        in succeed petition db)"

definition secondSuccessionPetition ::
    "iso \<Rightarrow> string \<Rightarrow> ident \<Rightarrow> CoalitionDb \<Rightarrow> CoalitionSuccessionPetition CoalitionResult \<times> CoalitionDb" where
  "secondSuccessionPetition now idOrSlug actorId db =
     (case getCoalition db idOrSlug of
        None \<Rightarrow> fail Not_found db
      | Some coalition \<Rightarrow>
          if isStopped coalition then fail (stoppedError coalition) db
          else case requirePermission db coalition actorId Coalition_succeed of
                 Inl err \<Rightarrow> fail err db
               | Inr _ \<Rightarrow>
                   (case getOpenCoalitionSuccessionPetition db (co_id coalition) of
                      None \<Rightarrow> fail Petition_not_found db
                    | Some petition \<Rightarrow>
                        if pe_candidateUserId petition = actorId then fail (Forbidden (Some Coalition_succeed)) db
                        else let secondedBy = (if actorId \<in> set (pe_secondedBy petition) then pe_secondedBy petition
                                               else pe_secondedBy petition @ [actorId]);
                                 eligible = length (eligibleSeconders db (co_id coalition) (pe_candidateUserId petition))
                             in if \<not> successionQuorumMet secondedBy eligible
                                then let (saved, db) = upsertCoalitionSuccessionPetition now
                                           (petition\<lparr>pe_secondedBy := secondedBy\<rparr>) db
                                     in succeed saved db
                                else case transferFounderUnchecked now coalition (pe_candidateUserId petition) db of
                                       (Inl err, db) \<Rightarrow> fail err db
                                     | (Inr _, db) \<Rightarrow>
                                         (let (saved, db) = upsertCoalitionSuccessionPetition now
                                                (petition\<lparr>pe_secondedBy := secondedBy, pe_status := Succ_approved,
                                                          pe_resolvedBy := Some actorId, pe_resolvedAt := Some now\<rparr>) db;
                                              db = emit (Emit (Ev_succession_approved (co_id coalition) (pe_id saved)
                                                     (pe_candidateUserId petition) (length secondedBy))) db
                                          in succeed saved db)))"

definition withdrawSuccessionPetition ::
    "iso \<Rightarrow> string \<Rightarrow> ident \<Rightarrow> CoalitionDb \<Rightarrow> CoalitionSuccessionPetition CoalitionResult \<times> CoalitionDb" where
  "withdrawSuccessionPetition now idOrSlug actorId db =
     (case getCoalition db idOrSlug of
        None \<Rightarrow> fail Not_found db
      | Some coalition \<Rightarrow>
          (case getOpenCoalitionSuccessionPetition db (co_id coalition) of
             None \<Rightarrow> fail Petition_not_found db
           | Some petition \<Rightarrow>
               if pe_candidateUserId petition \<noteq> actorId then fail (Forbidden (Some Coalition_succeed)) db
               else let (saved, db) = upsertCoalitionSuccessionPetition now
                          (petition\<lparr>pe_status := Succ_withdrawn, pe_resolvedBy := Some actorId,
                                    pe_resolvedAt := Some now\<rparr>) db
                    in succeed saved db))"

definition getSuccessionPetition ::
    "CoalitionDb \<Rightarrow> string \<Rightarrow> (CoalitionSuccessionPetition option \<times> nat) CoalitionResult" where
  "getSuccessionPetition db idOrSlug =
     (case getCoalition db idOrSlug of
        None \<Rightarrow> Inl Not_found
      | Some coalition \<Rightarrow>
          (let petition = getOpenCoalitionSuccessionPetition db (co_id coalition)
           in Inr (petition, successionQuorum (length (eligibleSeconders db (co_id coalition)
                 (case petition of Some p \<Rightarrow> pe_candidateUserId p | None \<Rightarrow> []))))))"

end
