(* ===== verification/Coalition_Roster.thy ===== *)
theory Coalition_Roster
  imports Coalition_Membership
begin

text \<open>
  The contract of the membership operations: an abstract roster (who holds which role in
  which coalition) that changes only by the steps of \<open>roster_step\<close>.  Each operation
  of \<open>Coalition_Membership\<close> refines one step or leaves the roster alone; the founder
  invariants are proved once, on the roster.
\<close>

type_synonym roster = "ident \<Rightarrow> ident \<rightharpoonup> CoalitionRole"

inductive roster_step :: "roster \<Rightarrow> roster \<Rightarrow> bool" where
  rs_found: "\<forall>u. r c u = None \<Longrightarrow> roster_step r (r(c := [f \<mapsto> Founder]))"
| rs_join: "r c u = None \<Longrightarrow> roster_step r (r(c := (r c)(u \<mapsto> Member)))"
| rs_leave: "r c u = Some k \<Longrightarrow> k \<noteq> Founder \<Longrightarrow> roster_step r (r(c := (r c)(u := None)))"
| rs_remove: "r c a = Some ka \<Longrightarrow> r c u = Some k \<Longrightarrow> ROLE_RANK k < ROLE_RANK ka \<Longrightarrow>
    roster_step r (r(c := (r c)(u := None)))"
| rs_role: "r c a = Some ka \<Longrightarrow> r c u = Some k \<Longrightarrow> k \<noteq> Founder \<Longrightarrow> k' \<in> set (assignableRolesFor ka) \<Longrightarrow>
    ROLE_RANK k < ROLE_RANK ka \<or> ka = Founder \<Longrightarrow> roster_step r (r(c := (r c)(u \<mapsto> k')))"
| rs_transfer: "r c f = Some Founder \<Longrightarrow> r c u = Some k \<Longrightarrow> u \<noteq> f \<Longrightarrow>
    roster_step r (r(c := (r c)(u \<mapsto> Founder, f \<mapsto> Steward)))"
| rs_claim: "r c u = Some k \<Longrightarrow> \<forall>v. r c v \<noteq> Some Founder \<Longrightarrow> roster_step r (r(c := (r c)(u \<mapsto> Founder)))"

text \<open>At most one founder everywhere; exactly one founder in a coalition.\<close>

definition one_founder :: "roster \<Rightarrow> bool" where
  "one_founder r \<longleftrightarrow> (\<forall>c u v. r c u = Some Founder \<longrightarrow> r c v = Some Founder \<longrightarrow> u = v)"

definition led_at :: "roster \<Rightarrow> ident \<Rightarrow> bool" where
  "led_at r c \<longleftrightarrow> (\<exists>!f. r c f = Some Founder)"

lemma assignable_not_Founder: "k \<in> set (assignableRolesFor ka) \<Longrightarrow> k \<noteq> Founder"
  by (auto simp: assignableRolesFor_def split: if_splits)

lemma ROLE_RANK_le_3: "ROLE_RANK k \<le> 3"
  by (cases k) auto

lemma roster_step_one_founder: "roster_step r r' \<Longrightarrow> one_founder r \<Longrightarrow> one_founder r'"
proof (induction rule: roster_step.induct)
  case (rs_remove r c a ka u k)
  then show ?case by (auto simp: one_founder_def)
next
  case (rs_role r c a ka u k k')
  then show ?case using assignable_not_Founder [OF rs_role(4)] by (auto simp: one_founder_def)
next
  case (rs_transfer r c f u k)
  then show ?case unfolding one_founder_def by (metis CoalitionRole.distinct(1) fun_upd_apply option.inject)
qed (auto simp: one_founder_def)

lemma roster_step_led_at: "roster_step r r' \<Longrightarrow> led_at r x \<Longrightarrow> led_at r' x"
proof (induction rule: roster_step.induct)
  case (rs_remove r c a ka u k)
  then have "k \<noteq> Founder" using ROLE_RANK_le_3 [of ka] by auto
  with rs_remove show ?case unfolding led_at_def by (auto simp: fun_upd_def) (metis option.inject)+
next
  case (rs_role r c a ka u k k')
  then show ?case using assignable_not_Founder [OF rs_role(4)]
    unfolding led_at_def by (auto simp: fun_upd_def) (metis option.inject)+
next
  case (rs_transfer r c f u k)
  then show ?case unfolding led_at_def by (auto simp: fun_upd_def)
next
  case (rs_leave r c u k)
  then show ?case unfolding led_at_def by (auto simp: fun_upd_def) (metis option.inject)+
next
  case (rs_claim r c u k)
  then show ?case unfolding led_at_def by (auto simp: fun_upd_def)
next
  case (rs_found r c f)
  then show ?case unfolding led_at_def by (auto simp: fun_upd_def)
next
  case (rs_join r c u)
  then show ?case unfolding led_at_def by (auto simp: fun_upd_def) (metis option.distinct(1))+
qed

section \<open>From the database to the roster\<close>

definition roster_of :: "CoalitionDb \<Rightarrow> roster" where
  "roster_of db c u = (if colon_free c then map_option me_role (activeMembership db c u) else None)"

definition wf_members :: "CoalitionDb \<Rightarrow> bool" where
  "wf_members db \<longleftrightarrow> js_table co_id (db_coalitions db) \<and> js_table membership_key (db_memberships db) \<and>
     (\<forall>c \<in> set (js_values (db_coalitions db)). colon_free (co_id c)) \<and>
     (\<forall>m \<in> set (js_values (db_memberships db)). \<exists>c \<in> set (js_values (db_coalitions db)). co_id c = me_coalitionId m)"

lemma wf_membersD:
  assumes "wf_members db"
  shows "js_table co_id (db_coalitions db)" "js_table membership_key (db_memberships db)"
    "c \<in> set (js_values (db_coalitions db)) \<Longrightarrow> colon_free (co_id c)"
    "m \<in> set (js_values (db_memberships db)) \<Longrightarrow> colon_free (me_coalitionId m)"
    "m \<in> set (js_values (db_memberships db)) \<Longrightarrow> \<exists>c \<in> set (js_values (db_coalitions db)). co_id c = me_coalitionId m"
  using assms by (auto simp: wf_members_def) metis

lemma roster_of_cong: "db_memberships db = db_memberships db' \<Longrightarrow> roster_of db = roster_of db'"
  by (intro ext) (simp add: roster_of_def activeMembership_def getCoalitionMembership_def)

lemma wf_members_cong:
  "wf_members db \<Longrightarrow> db_memberships db' = db_memberships db \<Longrightarrow> db_coalitions db' = db_coalitions db \<Longrightarrow>
   wf_members db'"
  by (simp add: wf_members_def)

lemma getCoalition_row:
  assumes "wf_members db" and "getCoalition db s = Some c"
  shows "c \<in> set (js_values (db_coalitions db)) \<and> colon_free (co_id c)"
proof -
  have "c \<in> set (js_values (db_coalitions db))"
    using assms js_table_lookup [OF wf_membersD(1) [OF assms(1)]]
    by (auto simp: getCoalition_def getCoalition_db_def getCoalitionBySlug_def
        dest: find_SomeD split: option.splits)
  with wf_membersD(3) [OF assms(1)] show ?thesis by blast
qed

lemma membership_lookup:
  assumes "wf_members db" and "colon_free c"
  shows "getCoalitionMembership db c u = Some m \<longleftrightarrow>
    m \<in> set (js_values (db_memberships db)) \<and> me_coalitionId m = c \<and> me_userId m = u"
  using js_table_lookup [OF wf_membersD(2) [OF assms(1)]] wf_membersD(4) [OF assms(1)]
    membership_key_eq [OF _ assms(2)]
  by (auto simp: getCoalitionMembership_def)

lemma activeMembership_Some:
  "activeMembership db c u = Some m \<longleftrightarrow> getCoalitionMembership db c u = Some m \<and> me_active m"
  by (auto simp: activeMembership_def split: option.splits)

lemma activeMembership_iff:
  assumes "wf_members db" and "colon_free c"
  shows "activeMembership db c u = Some m \<longleftrightarrow>
    m \<in> set (js_values (db_memberships db)) \<and> me_active m \<and> me_coalitionId m = c \<and> me_userId m = u"
  unfolding activeMembership_Some membership_lookup [OF assms] by blast

lemma activeMembers_iff:
  assumes "colon_free c"
  shows "m \<in> set (activeMembers db c) \<longleftrightarrow>
    m \<in> set (js_values (db_memberships db)) \<and> me_active m \<and> me_coalitionId m = c"
  using assms by (auto simp: activeMembers_def listCoalitionMemberships_def colon_free_def)

lemma roster_of_Some:
  assumes "wf_members db"
  shows "roster_of db c u = Some k \<longleftrightarrow> colon_free c \<and>
    (\<exists>m \<in> set (js_values (db_memberships db)). me_active m \<and> me_coalitionId m = c \<and> me_userId m = u \<and> me_role m = k)"
  using activeMembership_iff [OF assms] by (auto simp: roster_of_def)

lemma activeMembership_roster:
  "activeMembership db c u = Some m \<Longrightarrow> colon_free c \<Longrightarrow> roster_of db c u = Some (me_role m)"
  by (simp add: roster_of_def)

lemma activeMembership_None_roster:
  "activeMembership db c u = None \<Longrightarrow> roster_of db c u = None"
  by (simp add: roster_of_def)

text \<open>An upsert of a membership row is one point update of the roster.\<close>

definition entry :: "CoalitionMembership \<Rightarrow> CoalitionRole option" where
  "entry m = (if me_active m then Some (me_role m) else None)"

lemma roster_upsert:
  assumes "colon_free (me_coalitionId m)"
  shows "roster_of (snd (upsertCoalitionMembership now m db)) =
    (roster_of db)(me_coalitionId m := (roster_of db (me_coalitionId m))(me_userId m := entry m))"
proof (intro ext)
  fix c u
  show "roster_of (snd (upsertCoalitionMembership now m db)) c u =
    ((roster_of db)(me_coalitionId m := (roster_of db (me_coalitionId m))(me_userId m := entry m))) c u"
  proof (cases "colon_free c")
    case True
    then have "coalitionMembershipKey c u = membership_key m \<longleftrightarrow> c = me_coalitionId m \<and> u = me_userId m"
      using membership_key_eq [OF assms True, of u] by auto
    with assms True show ?thesis
      by (auto simp: roster_of_def activeMembership_def getCoalitionMembership_def entry_def)
  qed (use assms in \<open>auto simp: roster_of_def\<close>)
qed

lemma wf_members_upsert:
  assumes "wf_members db" and "\<exists>c \<in> set (js_values (db_coalitions db)). co_id c = me_coalitionId m"
  shows "wf_members (snd (upsertCoalitionMembership now m db))"
proof -
  let ?r = "fst (upsertCoalitionMembership now m db)"
  have t: "js_table membership_key (db_memberships db)" by (rule wf_membersD(2) [OF assms(1)])
  have k: "js_set (membership_key m) ?r = js_set (membership_key ?r) ?r" by simp
  have "r = ?r \<or> r \<in> set (js_values (db_memberships db))"
    if "r \<in> set (js_values (js_set (membership_key m) ?r (db_memberships db)))" for r
    using that membership_rows.set_rows_put [OF t, of ?r] unfolding k by auto
  then show ?thesis
    using assms t unfolding wf_members_def by (auto simp del: upsertCoalitionMembership_row(6) simp: k) fastforce+
qed

lemma revoke_fold_frame [simp]:
  "db_memberships (fold (revoke_row now) rows db) = db_memberships db"
  "db_coalitions (fold (revoke_row now) rows db) = db_coalitions db"
  "db_campaigns (fold (revoke_row now) rows db) = db_campaigns db"
  "db_petitions (fold (revoke_row now) rows db) = db_petitions db"
  "db_payees (fold (revoke_row now) rows db) = db_payees db"
  "db_boosts (fold (revoke_row now) rows db) = db_boosts db"
  "db_contributions (fold (revoke_row now) rows db) = db_contributions db"
  "db_joinRequests (fold (revoke_row now) rows db) = db_joinRequests db"
  "db_tips (fold (revoke_row now) rows db) = db_tips db"
  by (induction rows arbitrary: db) (simp_all add: revoke_row_def)

lemma revokeMemberLinks_frame [simp]:
  "db_memberships (snd (revokeMemberLinks now c p u db)) = db_memberships db"
  "db_coalitions (snd (revokeMemberLinks now c p u db)) = db_coalitions db"
  "db_campaigns (snd (revokeMemberLinks now c p u db)) = db_campaigns db"
  "db_petitions (snd (revokeMemberLinks now c p u db)) = db_petitions db"
  "db_payees (snd (revokeMemberLinks now c p u db)) = db_payees db"
  "db_boosts (snd (revokeMemberLinks now c p u db)) = db_boosts db"
  "db_contributions (snd (revokeMemberLinks now c p u db)) = db_contributions db"
  "db_joinRequests (snd (revokeMemberLinks now c p u db)) = db_joinRequests db"
  "db_tips (snd (revokeMemberLinks now c p u db)) = db_tips db"
  by (simp_all add: revokeMemberLinks_def Let_def)

section \<open>Refinement\<close>

definition refines :: "CoalitionDb \<Rightarrow> CoalitionDb \<Rightarrow> bool" where
  "refines db db' \<longleftrightarrow> wf_members db' \<and> (roster_of db' = roster_of db \<or> roster_step (roster_of db) (roster_of db'))"

lemma refines_same:
  "wf_members db \<Longrightarrow> db_memberships db' = db_memberships db \<Longrightarrow> db_coalitions db' = db_coalitions db \<Longrightarrow>
   refines db db'"
  unfolding refines_def using wf_members_cong roster_of_cong by metis

lemma refines_refl: "wf_members db \<Longrightarrow> refines db db"
  by (simp add: refines_def)

lemma refines_cong:
  assumes "refines db1 db2" and "db_memberships db1 = db_memberships db"
    and "db_memberships db3 = db_memberships db2" and "db_coalitions db3 = db_coalitions db2"
  shows "refines db db3"
  using assms roster_of_cong [OF assms(2)] roster_of_cong [OF assms(3)] wf_members_cong
  unfolding refines_def by metis

lemma refines_frame:
  "refines db db2 \<Longrightarrow> db_memberships db3 = db_memberships db2 \<Longrightarrow> db_coalitions db3 = db_coalitions db2 \<Longrightarrow>
   refines db db3"
  by (rule refines_cong) simp_all

lemma refines_upsert:
  assumes "wf_members db" and "c \<in> set (js_values (db_coalitions db))" and "co_id c = me_coalitionId m"
    and "roster_of db (me_coalitionId m) (me_userId m) = entry m \<or>
      roster_step (roster_of db)
        ((roster_of db)(me_coalitionId m := (roster_of db (me_coalitionId m))(me_userId m := entry m)))"
  shows "refines db (snd (upsertCoalitionMembership now m db))"
proof -
  have cf: "colon_free (me_coalitionId m)" using assms(1-3) wf_membersD(3) by metis
  have "wf_members (snd (upsertCoalitionMembership now m db))"
    using assms(1-3) by (intro wf_members_upsert) auto
  moreover have "(roster_of db)(me_coalitionId m := (roster_of db (me_coalitionId m))(me_userId m := entry m)) =
      roster_of db" if "roster_of db (me_coalitionId m) (me_userId m) = entry m"
    using that by (auto simp: fun_eq_iff)
  ultimately show ?thesis
    using assms(4) unfolding refines_def roster_upsert [OF cf] by auto
qed

lemma admit_refines:
  assumes "wf_members db" and "c \<in> set (js_values (db_coalitions db))"
  shows "refines db (snd (admit now e c u Member via db))"
proof -
  let ?ex = "getCoalitionMembership db (co_id c) u"
  define m where "m = \<lparr>me_id = (case ?ex of Some m \<Rightarrow> me_id m | None \<Rightarrow> newCoalitionMembershipId e),
     me_coalitionId = co_id c, me_userId = u,
     me_role = (case ?ex of Some m \<Rightarrow> if me_active m then me_role m else Member | None \<Rightarrow> Member),
     me_active = True, me_createdAt = now, me_updatedAt = now\<rparr>"
  have cf: "colon_free (co_id c)" using assms wf_membersD(3) by blast
  have "roster_of db (co_id c) u = entry m \<or>
      roster_step (roster_of db) ((roster_of db)(co_id c := (roster_of db (co_id c))(u := entry m)))"
  proof (cases "activeMembership db (co_id c) u")
    case None
    then have "entry m = Some Member"
      by (auto simp: entry_def m_def activeMembership_def split: option.splits if_splits)
    with None rs_join [of "roster_of db" "co_id c" u] show ?thesis
      using activeMembership_None_roster by simp
  next
    case (Some x)
    then have "entry m = Some (me_role x)"
      by (auto simp: entry_def m_def activeMembership_Some)
    with Some cf show ?thesis using activeMembership_roster by simp
  qed
  then have "refines db (snd (upsertCoalitionMembership now m db))"
    using assms by (intro refines_upsert) (auto simp: m_def)
  then show ?thesis
    by (rule refines_cong) (simp_all add: admit_def Let_def split_beta m_def [symmetric])
qed

lemmas op_simps = fail_def succeed_def Let_def split_beta

lemma requestJoin_refines:
  assumes "wf_members db"
  shows "refines db (snd (requestJoin now e env ms s u msg db))"
proof (cases "getCoalition db s")
  case (Some c)
  then have c: "c \<in> set (js_values (db_coalitions db))" using getCoalition_row [OF assms] by blast
  have adm: "refines db (snd (admit now e c u Member via (snd (upsertCoalitionJoinRequest now r db))))" for via r
    by (rule refines_cong, rule admit_refines) (use assms c wf_members_cong in auto)
  have pol: "refines db (snd (joinByPolicy now e env ms c u msg x db))" for x
    using refines_same [OF assms] admit_refines [OF assms c]
    by (auto simp: joinByPolicy_def op_simps)
  show ?thesis
    using refines_refl [OF assms] adm pol Some
    by (auto simp: requestJoin_def op_simps split: option.splits)
qed (use refines_refl [OF assms] in \<open>simp add: requestJoin_def op_simps\<close>)

lemma reviewJoinRequest_refines:
  assumes "wf_members db"
  shows "refines db (snd (reviewJoinRequest now e s a u ok db))"
proof (cases "getCoalition db s")
  case (Some c)
  then have c: "c \<in> set (js_values (db_coalitions db))" using getCoalition_row [OF assms] by blast
  have adm: "refines db (snd (admit now e c u Member via (emit x (snd (upsertCoalitionJoinRequest now r db)))))" for via r x
    by (rule refines_cong, rule admit_refines) (use assms c wf_members_cong in auto)
  show ?thesis
    using refines_refl [OF assms] refines_same [OF assms] adm Some
    by (auto simp: reviewJoinRequest_def op_simps split: option.splits sum.splits)
qed (use refines_refl [OF assms] in \<open>simp add: reviewJoinRequest_def op_simps\<close>)

lemma request_ops_refine:
  assumes "wf_members db"
  shows "refines db (snd (withdrawJoinRequest now s u db))"
    and "refines db (snd (inviteMember now e s a u db))"
    and "refines db (snd (openSuccessionPetition now e s a reason db))"
    and "refines db (snd (withdrawSuccessionPetition now s a db))"
  using refines_same [OF assms]
  by (auto simp: withdrawJoinRequest_def inviteMember_def openSuccessionPetition_def
      withdrawSuccessionPetition_def op_simps split: option.splits sum.splits)

lemma leaveCoalition_refines:
  assumes "wf_members db"
  shows "refines db (snd (leaveCoalition now s u db))"
proof (cases "getCoalition db s")
  case (Some c)
  then have c: "c \<in> set (js_values (db_coalitions db))" "colon_free (co_id c)"
    using getCoalition_row [OF assms] by blast+
  have up: "refines db (snd (upsertCoalitionMembership now (m\<lparr>me_active := False\<rparr>) db))"
    if m: "activeMembership db (co_id c) u = Some m" "me_role m \<noteq> Founder" for m
  proof -
    have i: "me_coalitionId m = co_id c" "me_userId m = u"
      using m(1) activeMembership_iff [OF assms c(2)] by auto
    with rs_leave [of "roster_of db" "co_id c" u "me_role m"] show ?thesis
      using activeMembership_roster [OF m(1) c(2)] m(2) assms c
      by (intro refines_upsert) (auto simp: entry_def)
  qed
  then show ?thesis
    using Some
    by (auto simp: leaveCoalition_def op_simps split: option.splits intro: refines_refl [OF assms] refines_frame [OF up])
qed (use refines_refl [OF assms] in \<open>simp add: leaveCoalition_def op_simps\<close>)

lemma requirePermission_Inr:
  "requirePermission db c a p = Inr g \<longleftrightarrow> activeMembership db (co_id c) a = Some g \<and> coalitionRoleCan (me_role g) p"
  by (auto simp: requirePermission_def split: option.splits)

lemma removeMember_refines:
  assumes "wf_members db"
  shows "refines db (snd (removeMember now s a u db))"
proof (cases "getCoalition db s")
  case (Some c)
  then have c: "c \<in> set (js_values (db_coalitions db))" "colon_free (co_id c)"
    using getCoalition_row [OF assms] by blast+
  have up: "refines db (snd (upsertCoalitionMembership now (m\<lparr>me_active := False\<rparr>) db))"
    if m: "activeMembership db (co_id c) u = Some m" "requirePermission db c a Members_remove = Inr g"
      "\<not> ROLE_RANK (me_role g) \<le> ROLE_RANK (me_role m)" for m g
  proof -
    have i: "me_coalitionId m = co_id c" "me_userId m = u"
      using m(1) activeMembership_iff [OF assms c(2)] by auto
    have "activeMembership db (co_id c) a = Some g" using m(2) by (simp add: requirePermission_Inr)
    from rs_remove [of "roster_of db" "co_id c" a _ u, OF activeMembership_roster [OF this c(2)] activeMembership_roster [OF m(1) c(2)]] i
    show ?thesis
      using m(3) assms c by (intro refines_upsert) (auto simp: entry_def)
  qed
  then show ?thesis
    using Some
    by (auto simp: removeMember_def op_simps split: option.splits sum.splits intro: refines_refl [OF assms] refines_frame [OF up])
qed (use refines_refl [OF assms] in \<open>simp add: removeMember_def op_simps\<close>)

lemma setMemberRole_refines:
  assumes "wf_members db"
  shows "refines db (snd (setMemberRole now s a u k' db))"
proof (cases "getCoalition db s")
  case (Some c)
  then have c: "c \<in> set (js_values (db_coalitions db))" "colon_free (co_id c)"
    using getCoalition_row [OF assms] by blast+
  have up: "refines db (snd (upsertCoalitionMembership now (m\<lparr>me_role := k'\<rparr>) db))"
    if m: "activeMembership db (co_id c) u = Some m" "requirePermission db c a Members_role = Inr g"
      "me_role m \<noteq> Founder" "k' \<in> set (assignableRolesFor (me_role g))"
      "ROLE_RANK (me_role m) < ROLE_RANK (me_role g) \<or> me_role g = Founder" for m g
  proof -
    have i: "me_coalitionId m = co_id c" "me_userId m = u" "me_active m"
      using m(1) activeMembership_iff [OF assms c(2)] by auto
    have "activeMembership db (co_id c) a = Some g" using m(2) by (simp add: requirePermission_Inr)
    from rs_role [of "roster_of db" "co_id c" a _ u, OF activeMembership_roster [OF this c(2)] activeMembership_roster [OF m(1) c(2)] m(3-5)] i
    show ?thesis
      using assms c by (intro refines_upsert) (auto simp: entry_def)
  qed
  then show ?thesis
    using Some
    by (auto simp: setMemberRole_def op_simps not_le split: option.splits sum.splits intro: refines_refl [OF assms] refines_frame [OF up])
qed (use refines_refl [OF assms] in \<open>simp add: setMemberRole_def op_simps\<close>)

text \<open>What the unchecked transfer does to the roster, on both of its branches.\<close>

definition handover :: "ident \<Rightarrow> ident \<Rightarrow> ident option \<Rightarrow> roster \<Rightarrow> roster" where
  "handover c u out r =
     (case out of
        None \<Rightarrow> r(c := (r c)(u \<mapsto> Founder))
      | Some f \<Rightarrow> r(c := (r c)(u \<mapsto> Founder, f \<mapsto> Steward)))"

definition outgoing_founder :: "CoalitionDb \<Rightarrow> ident \<Rightarrow> ident option" where
  "outgoing_founder db c = map_option me_userId (find (\<lambda>m. me_role m = Founder) (activeMembers db c))"

lemma transferFounderUnchecked_roster:
  assumes wf: "wf_members db" and c: "c \<in> set (js_values (db_coalitions db))"
    and t: "activeMembership db (co_id c) u = Some t"
  shows "wf_members (snd (transferFounderUnchecked now c u db)) \<and>
    roster_of (snd (transferFounderUnchecked now c u db)) =
      handover (co_id c) u (outgoing_founder db (co_id c)) (roster_of db)"
proof -
  have cf: "colon_free (co_id c)" using wf c wf_membersD(3) by blast
  have i: "me_coalitionId t = co_id c" "me_userId t = u" "me_active t"
    using t activeMembership_iff [OF wf cf] by auto
  let ?db1 = "snd (upsertCoalitionMembership now (t\<lparr>me_role := Founder\<rparr>) db)"
  have wf1: "wf_members ?db1" using wf c i by (intro wf_members_upsert) auto
  have r1: "roster_of ?db1 = (roster_of db)(co_id c := (roster_of db (co_id c))(u \<mapsto> Founder))"
    using roster_upsert [of "t\<lparr>me_role := Founder\<rparr>" now db] cf i by (simp add: entry_def)
  show ?thesis
  proof (cases "find (\<lambda>m. me_role m = Founder) (activeMembers db (co_id c))")
    case None
    let ?db2 = "snd (transferFounderUnchecked now c u db)"
    have m2: "db_memberships ?db2 = db_memberships ?db1" "db_coalitions ?db2 = db_coalitions ?db1"
      using t None by (simp_all add: transferFounderUnchecked_def op_simps)
    have "roster_of ?db2 = handover (co_id c) u (outgoing_founder db (co_id c)) (roster_of db)"
      unfolding roster_of_cong [OF m2(1)] r1 by (simp add: None handover_def outgoing_founder_def)
    with wf_members_cong [OF wf1 m2] show ?thesis by blast
  next
    case (Some f)
    let ?db2 = "snd (upsertCoalitionMembership now (f\<lparr>me_role := Steward\<rparr>) ?db1)"
    let ?db3 = "snd (transferFounderUnchecked now c u db)"
    have f: "f \<in> set (js_values (db_memberships db))" "me_active f" "me_coalitionId f = co_id c"
      using find_SomeD [OF Some] activeMembers_iff [OF cf] by auto
    have wf2: "wf_members ?db2" using c f(3) by (intro wf_members_upsert [OF wf1]) auto
    have r2: "roster_of ?db2 = handover (co_id c) u (outgoing_founder db (co_id c)) (roster_of db)"
      using roster_upsert [of "f\<lparr>me_role := Steward\<rparr>" now ?db1] cf f Some
      by (simp add: entry_def r1 handover_def outgoing_founder_def)
    have m3: "db_memberships ?db3 = db_memberships ?db2" "db_coalitions ?db3 = db_coalitions ?db2"
      using t Some by (simp_all add: transferFounderUnchecked_def op_simps)
    from wf_members_cong [OF wf2 m3] r2 show ?thesis unfolding roster_of_cong [OF m3(1)] by blast
  qed
qed

lemma outgoing_founder_roster:
  assumes "wf_members db" and "colon_free c"
  shows "outgoing_founder db c = Some f \<Longrightarrow> roster_of db c f = Some Founder"
    and "outgoing_founder db c = None \<Longrightarrow> roster_of db c v \<noteq> Some Founder"
  using activeMembers_iff [OF assms(2)] roster_of_Some [OF assms(1)] assms(2)
  by (auto simp: outgoing_founder_def dest!: find_SomeD dest: find_NoneD)

lemma transferFounderUnchecked_refines:
  assumes wf: "wf_members db" and c: "c \<in> set (js_values (db_coalitions db))"
    and one: "one_founder (roster_of db)" and nf: "roster_of db (co_id c) u \<noteq> Some Founder"
  shows "refines db (snd (transferFounderUnchecked now c u db))"
proof (cases "activeMembership db (co_id c) u")
  case None
  then show ?thesis using refines_refl [OF wf] by (simp add: transferFounderUnchecked_def op_simps)
next
  case (Some t)
  have cf: "colon_free (co_id c)" using wf c wf_membersD(3) by blast
  note o = outgoing_founder_roster [OF wf cf]
  have "roster_step (roster_of db) (handover (co_id c) u (outgoing_founder db (co_id c)) (roster_of db))"
  proof (cases "outgoing_founder db (co_id c)")
    case None
    with o(2) show ?thesis
      using rs_claim [of "roster_of db" "co_id c" u, OF activeMembership_roster [OF Some cf]] by (simp add: handover_def)
  next
    case (Some f)
    with o(1) nf have "roster_of db (co_id c) f = Some Founder" "u \<noteq> f" by auto
    then show ?thesis
      using rs_transfer [of "roster_of db" "co_id c" f u, OF _ activeMembership_roster [OF \<open>activeMembership db (co_id c) u = Some t\<close> cf]] Some
      by (simp add: handover_def)
  qed
  with transferFounderUnchecked_roster [OF wf c Some] show ?thesis by (simp add: refines_def)
qed

lemma transferFounder_refines:
  assumes wf: "wf_members db" and one: "one_founder (roster_of db)"
  shows "refines db (snd (transferFounder now s a u db))"
proof (cases "getCoalition db s")
  case (Some c)
  then have c: "c \<in> set (js_values (db_coalitions db))" "colon_free (co_id c)"
    using getCoalition_row [OF wf] by blast+
  have "refines db (snd (transferFounderUnchecked now c u db))"
    if a: "activeMembership db (co_id c) a = Some x" "me_role x = Founder"
      and t: "activeMembership db (co_id c) u = Some t" "me_userId t \<noteq> a" for x t
  proof (rule transferFounderUnchecked_refines [OF wf c(1) one])
    have "u \<noteq> a" using t activeMembership_iff [OF wf c(2)] by auto
    then show "roster_of db (co_id c) u \<noteq> Some Founder"
      using one activeMembership_roster [OF a(1) c(2)] a(2) by (auto simp: one_founder_def)
  qed
  then show ?thesis
    using Some by (auto simp: transferFounder_def op_simps split: option.splits intro: refines_refl [OF wf])
qed (use refines_refl [OF wf] in \<open>simp add: transferFounder_def op_simps\<close>)

text \<open>
  Seconding a petition refines the contract unless the candidate already is the founder;
  then a met quorum leaves the coalition without one.
\<close>

lemma transfer_unchecked_tables:
  "fst (transferFounderUnchecked now c u db) = Inl err \<Longrightarrow> snd (transferFounderUnchecked now c u db) = db"
  by (auto simp: transferFounderUnchecked_def op_simps split: option.splits)

lemma secondSuccessionPetition_tables:
  "(db_memberships (snd (secondSuccessionPetition now s a db)) = db_memberships db \<and>
    db_coalitions (snd (secondSuccessionPetition now s a db)) = db_coalitions db) \<or>
   (\<exists>c p. getCoalition db s = Some c \<and> getOpenCoalitionSuccessionPetition db (co_id c) = Some p \<and>
      db_memberships (snd (secondSuccessionPetition now s a db)) =
        db_memberships (snd (transferFounderUnchecked now c (pe_candidateUserId p) db)) \<and>
      db_coalitions (snd (secondSuccessionPetition now s a db)) =
        db_coalitions (snd (transferFounderUnchecked now c (pe_candidateUserId p) db)))"
proof (cases "getCoalition db s")
  case (Some c)
  show ?thesis
  proof (cases "getOpenCoalitionSuccessionPetition db (co_id c)")
    case p: (Some p)
    show ?thesis
      by (cases "transferFounderUnchecked now c (pe_candidateUserId p) db"; cases "requirePermission db c a Coalition_succeed")
        (auto simp: secondSuccessionPetition_def op_simps Some p split: sum.splits)
  qed (auto simp: secondSuccessionPetition_def op_simps Some split: sum.splits)
qed (simp add: secondSuccessionPetition_def op_simps)

lemma secondSuccessionPetition_refines:
  assumes wf: "wf_members db" and one: "one_founder (roster_of db)"
    and nf: "\<And>c p. getCoalition db s = Some c \<Longrightarrow> getOpenCoalitionSuccessionPetition db (co_id c) = Some p \<Longrightarrow>
      roster_of db (co_id c) (pe_candidateUserId p) \<noteq> Some Founder"
  shows "refines db (snd (secondSuccessionPetition now s a db))"
  using secondSuccessionPetition_tables [of now s a db]
proof (elim disjE conjE exE)
  fix c p
  assume 2: "getCoalition db s = Some c" "getOpenCoalitionSuccessionPetition db (co_id c) = Some p"
    "db_memberships (snd (secondSuccessionPetition now s a db)) =
      db_memberships (snd (transferFounderUnchecked now c (pe_candidateUserId p) db))"
    "db_coalitions (snd (secondSuccessionPetition now s a db)) =
      db_coalitions (snd (transferFounderUnchecked now c (pe_candidateUserId p) db))"
  then have "c \<in> set (js_values (db_coalitions db))" using getCoalition_row [OF wf] by blast
  from transferFounderUnchecked_refines [OF wf this one nf [OF 2(1,2)]] 2(3,4)
  show ?thesis by (rule refines_frame)
qed (rule refines_same [OF wf])

section \<open>Lifecycle operations\<close>

lemma wf_members_upsertCoalition:
  assumes "wf_members db" and "colon_free (co_id c)"
  shows "wf_members (snd (upsertCoalition now c db))"
proof -
  let ?r = "fst (upsertCoalition now c db)"
  have t: "js_table co_id (db_coalitions db)" by (rule wf_membersD(1) [OF assms(1)])
  have k: "js_set (co_id c) ?r = js_set (co_id ?r) ?r" by simp
  have s: "set (js_values (js_set (co_id c) ?r (db_coalitions db))) =
      insert ?r {x \<in> set (js_values (db_coalitions db)). co_id x \<noteq> co_id ?r}"
    using coalition_rows.set_rows_put [OF t, of ?r] unfolding k .
  have "js_table co_id (js_set (co_id c) ?r (db_coalitions db))" unfolding k by (rule js_table_set [OF t])
  then show ?thesis
    using assms unfolding wf_members_def by (auto simp: s) (metis upsertCoalition_row(1))
qed

lemma upsertCoalition_refines:
  assumes "wf_members db" and "colon_free (co_id c)"
  shows "refines db (snd (upsertCoalition now c db))"
  using wf_members_upsertCoalition [OF assms] roster_of_cong [of "snd (upsertCoalition now c db)" db]
  by (simp add: refines_def)

lemma refines_emit [simp]: "refines db (emit e x) \<longleftrightarrow> refines db x"
  using roster_of_cong [of "emit e x" x] by (simp add: refines_def wf_members_def)

lemma apply_patch_id [simp]: "co_id (apply_patch db patch c) = co_id c"
  by (simp add: apply_patch_def)

lemma lifecycle_refines:
  assumes wf: "wf_members db"
  shows "refines db (snd (updateCoalition now s a patch db))"
    and "refines db (snd (takeDownCoalition now s a reason db))"
    and "refines db (snd (reinstateCoalition now s a db))"
    and "refines db (snd (archiveCoalition now s a db))"
proof -
  have up: "refines db (snd (upsertCoalition now c' db))"
    if "getCoalition db s = Some c" "co_id c' = co_id c" for c c'
    using that getCoalition_row [OF wf] by (intro upsertCoalition_refines [OF wf]) auto
  show "refines db (snd (updateCoalition now s a patch db))"
    by (auto simp: updateCoalition_def op_simps split: option.splits sum.splits
        intro: refines_refl [OF wf] up)
  show "refines db (snd (takeDownCoalition now s a reason db))"
    by (auto simp: takeDownCoalition_def op_simps split: option.splits
        intro: refines_refl [OF wf] up)
  show "refines db (snd (reinstateCoalition now s a db))"
    by (auto simp: reinstateCoalition_def op_simps split: option.splits
        intro: refines_refl [OF wf] up)
  show "refines db (snd (archiveCoalition now s a db))"
    by (auto simp: archiveCoalition_def op_simps split: option.splits sum.splits
        intro: refines_refl [OF wf] up)
qed

lemma createCoalition_refines:
  assumes wf: "wf_members db" and fresh: "js_get (newCoalitionId e) (db_coalitions db) = None"
    and cf: "colon_free (newCoalitionId e)"
  shows "refines db (snd (createCoalition now e space input db)) \<and>
    led_at (roster_of (snd (createCoalition now e space input db))) (newCoalitionId e)"
proof -
  let ?cid = "newCoalitionId e"
  define c where "c = \<lparr>co_id = ?cid, co_slug = uniqueSlug db (cc_name input) None, co_name = cc_name input,
     co_mission = cc_mission input,
     co_bannerUrl = (if truthy (cc_bannerUrl input) then cc_bannerUrl input else None),
     co_joinMode = cc_joinMode input, co_minTierToJoin = cc_minTierToJoin input,
     co_joinRequirements = normalizeJoinRequirements (cc_joinRequirements input),
     co_externalReplyPolicy = None, co_spaceRoomId = None, co_createdBy = cc_createdBy input,
     co_archivedAt = None, co_takenDownAt = None, co_takenDownBy = None,
     co_takedownReason = None, co_reinstatedAt = None, co_createdAt = now, co_updatedAt = now\<rparr>"
  define m where "m = \<lparr>me_id = newCoalitionMembershipId e, me_coalitionId = ?cid, me_userId = cc_createdBy input,
     me_role = Founder, me_active = True, me_createdAt = now, me_updatedAt = now\<rparr>"
  define db1 where "db1 = snd (upsertCoalition now c db)"
  define db2 where "db2 = snd (upsertCoalitionMembership now m db1)"
  define db3 where "db3 = snd (createCoalition now e space input db)"
  have wf1: "wf_members db1"
    unfolding db1_def using cf by (intro wf_members_upsertCoalition [OF wf]) (simp add: c_def)
  have none: "roster_of db ?cid u = None" for u
  proof (rule ccontr)
    assume "roster_of db ?cid u \<noteq> None"
    then obtain k where "roster_of db ?cid u = Some k" by blast
    then obtain x where "x \<in> set (js_values (db_coalitions db))" "co_id x = ?cid"
      using roster_of_Some [OF wf] wf_membersD(5) [OF wf] by metis
    with coalition_rows.lookup_None [OF wf_membersD(1) [OF wf] fresh] show False by blast
  qed
  have r1: "roster_of db1 = roster_of db" unfolding db1_def by (rule roster_of_cong) simp
  have e: "\<exists>x \<in> set (js_values (db_coalitions db1)). co_id x = ?cid"
  proof -
    have "js_get ?cid (db_coalitions db1) = Some (fst (upsertCoalition now c db))"
      by (simp add: db1_def c_def)
    then show ?thesis
      using js_table_lookup [OF wf_membersD(1) [OF wf1]] by blast
  qed
  have wf2: "wf_members db2"
    unfolding db2_def using e by (intro wf_members_upsert [OF wf1]) (simp add: m_def)
  have "roster_of db2 = (roster_of db)(?cid := (roster_of db ?cid)(cc_createdBy input := Some Founder))"
    using roster_upsert [of m now db1] cf by (simp add: db2_def r1 m_def entry_def)
  also have "(roster_of db ?cid) = Map.empty" using none by auto
  finally have r2: "roster_of db2 = (roster_of db)(?cid := [cc_createdBy input \<mapsto> Founder])" .
  have mem: "db_memberships db3 = db_memberships db2"
    by (simp add: db3_def db2_def db1_def createCoalition_def op_simps c_def m_def)
  have "wf_members db3"
  proof (cases "sp_ok space \<and> truthy (sp_roomId space)")
    case True
    define c2 where "c2 = (fst (upsertCoalition now c db))\<lparr>co_spaceRoomId := sp_roomId space\<rparr>"
    have "wf_members (snd (upsertCoalition now c2 (emit (Space (Space_provision ?cid)) db2)))"
      using cf by (intro wf_members_upsertCoalition wf_members_cong [OF wf2]) (simp_all add: c2_def c_def)
    then show ?thesis
      by (rule wf_members_cong)
        (use True in \<open>simp_all add: db3_def db2_def db1_def createCoalition_def op_simps c_def m_def c2_def\<close>)
  next
    case False
    from wf2 show ?thesis
      by (rule wf_members_cong)
        (use False in \<open>auto simp: db3_def db2_def db1_def createCoalition_def op_simps c_def m_def\<close>)
  qed
  moreover have "roster_step (roster_of db) (roster_of db3)"
    using rs_found [of "roster_of db" ?cid "cc_createdBy input"] none
    unfolding roster_of_cong [OF mem] r2 by blast
  moreover have "led_at (roster_of db3) ?cid"
    unfolding roster_of_cong [OF mem] r2 by (auto simp: led_at_def split: if_splits)
  ultimately show ?thesis by (simp add: refines_def db3_def)
qed

end
