(* ===== verification/Payee_Allocation.thy ===== *)
theory Payee_Allocation
  imports Campaign_Domain
begin

text \<open>
  Splitting a campaign's money across its payees (\<^verbatim>\<open>coalitionNetwork.ts\<close>):
  validity of the shares and the largest-remainder allocation.  The loop of the
  source mutates entries through a second, sorted array of the same objects; here an
  entry is named by its index, so the sorted array is a permutation of indices.
\<close>

definition CAMPAIGN_PAYEE_BPS_DENOMINATOR :: int where
  "CAMPAIGN_PAYEE_BPS_DENOMINATOR = 10000"

text \<open>The shares arrive as JavaScript numbers: \<^verbatim>\<open>Number.isInteger\<close> is tested.\<close>

definition campaignPayeeSharesAreValid :: "(js_number \<times> bool) list \<Rightarrow> bool" where
  "campaignPayeeSharesAreValid payees =
     (let active = filter snd payees
      in if active = [] then False
         else if \<exists>p \<in> set active. (case js_integer (fst p) of None \<Rightarrow> True | Some n \<Rightarrow> n < 0) then False
         else sum_list (map (\<lambda>p. the (js_integer (fst p))) active) = CAMPAIGN_PAYEE_BPS_DENOMINATOR)"

record PayeeEntry =
  en_userId :: ident
  en_floor :: int
  en_remainder :: int

definition exact_entry :: "int \<Rightarrow> CampaignPayee \<Rightarrow> PayeeEntry" where
  "exact_entry netCents p =
     \<lparr>en_userId = pa_userId p,
      en_floor = (netCents * pa_shareBps p) div CAMPAIGN_PAYEE_BPS_DENOMINATOR,
      en_remainder = js_rem (netCents * pa_shareBps p) CAMPAIGN_PAYEE_BPS_DENOMINATOR\<rparr>"

text \<open>The \<^verbatim>\<open>for (const entry of order)\<close> loop, with its early exit.\<close>

fun hand_out :: "int \<Rightarrow> nat list \<Rightarrow> PayeeEntry list \<Rightarrow> PayeeEntry list" where
  "hand_out left [] exact = exact"
| "hand_out left (i # order) exact =
     (if left \<le> 0 then exact
      else hand_out (left - 1) order (exact[i := (exact ! i)\<lparr>en_floor := en_floor (exact ! i) + 1\<rparr>]))"

definition allocatePayeeCents :: "int \<Rightarrow> CampaignPayee list \<Rightarrow> (ident \<times> int) list" where
  "allocatePayeeCents netCents payees =
     (let active = filter pa_active payees
      in if active = [] \<or> netCents \<le> 0 then []
         else let exact = map (exact_entry netCents) active;
                  left = netCents - sum_list (map en_floor exact);
                  order = sort_desc (\<lambda>i. en_remainder (exact ! i)) [0..<length exact]
              in map (\<lambda>e. (en_userId e, en_floor e)) (hand_out left order exact))"

definition payee_shares :: "CampaignPayee list \<Rightarrow> (js_number \<times> bool) list" where
  "payee_shares payees = map (\<lambda>p. (Fin (of_int (pa_shareBps p)), pa_active p)) payees"

section \<open>Lemmas\<close>

lemma payee_shares_valid:
  "campaignPayeeSharesAreValid (payee_shares ps) \<longleftrightarrow>
     (let active = filter pa_active ps
      in active \<noteq> [] \<and> (\<forall>p \<in> set active. 0 \<le> pa_shareBps p) \<and> sum_list (map pa_shareBps active) = 10000)"
proof -
  have f: "filter snd (payee_shares ps) =
      map (\<lambda>p. (Fin (of_int (pa_shareBps p)), pa_active p)) (filter pa_active ps)"
    by (simp add: payee_shares_def filter_map o_def)
  show ?thesis
    unfolding campaignPayeeSharesAreValid_def f Let_def
    by (auto simp: CAMPAIGN_PAYEE_BPS_DENOMINATOR_def o_def not_less)
qed

lemma payee_share_nonneg:
  assumes "campaignPayeeSharesAreValid (payee_shares ps)" and "i < length (filter pa_active ps)"
  shows "0 \<le> pa_shareBps (filter pa_active ps ! i)"
  using assms nth_mem [OF assms(2)] by (auto simp: payee_shares_valid Let_def)

lemma length_hand_out [simp]: "length (hand_out left order es) = length es"
  by (induction left order es rule: hand_out.induct) auto

lemma hand_out_ids:
  "map en_userId (hand_out left order es) = map en_userId es"
proof (induction left order es rule: hand_out.induct)
  case (2 left i order exact)
  have "map en_userId (exact[i := (exact ! i)\<lparr>en_floor := en_floor (exact ! i) + 1\<rparr>]) = map en_userId exact"
    by (cases "i < length exact") (simp_all add: map_update list_update_same_conv list_update_beyond)
  with 2 show ?case by simp
qed simp

text \<open>The loop adds one cent to the first \<open>left\<close> entries of the order, and nothing else.\<close>

lemma hand_out_floor:
  assumes "distinct order" and "set order \<subseteq> {..<length es}" and "j < length es" and "0 \<le> left"
  shows "en_floor (hand_out left order es ! j) =
    en_floor (es ! j) + (if j \<in> set (take (nat left) order) then 1 else 0)"
  using assms
proof (induction left order es rule: hand_out.induct)
  case (2 left i order exact)
  show ?case
  proof (cases "left \<le> 0")
    case False
    let ?e = "exact[i := (exact ! i)\<lparr>en_floor := en_floor (exact ! i) + 1\<rparr>]"
    have "nat left = Suc (nat (left - 1))" using False by simp
    moreover have "i \<notin> set (take (nat (left - 1)) order)"
      using "2.prems"(1) by (auto dest: in_set_takeD)
    ultimately show ?thesis
      using 2 False by (auto simp: nth_list_update)
  qed (use 2 in simp)
qed simp

lemma sum_indicator:
  fixes n :: nat
  assumes "distinct xs" and "set xs \<subseteq> {..<n}"
  shows "(\<Sum>j<n. if j \<in> set xs then 1 else 0) = int (length xs)"
proof -
  have "(\<Sum>j<n. if j \<in> set xs then 1 else 0) = int (card (set xs))"
    using sum.inter_restrict [OF finite_lessThan, of "\<lambda>_. 1 :: int" n "set xs"] Int_absorb1 [OF assms(2)] by simp
  with assms(1) show ?thesis by (simp add: distinct_card)
qed

lemma hand_out_sum:
  assumes "distinct order" and "set order \<subseteq> {..<length es}" and "0 \<le> left" and "left \<le> int (length order)"
  shows "sum_list (map en_floor (hand_out left order es)) = sum_list (map en_floor es) + left"
proof -
  let ?t = "take (nat left) order"
  have t: "distinct ?t" "set ?t \<subseteq> {..<length es}" "length ?t = nat left"
    using assms by (auto dest: in_set_takeD)
  have "sum_list (map en_floor (hand_out left order es)) =
      (\<Sum>j<length es. en_floor (hand_out left order es ! j))"
    by (simp add: sum_list_sum_nth atLeast0LessThan)
  also have "\<dots> = (\<Sum>j<length es. en_floor (es ! j) + (if j \<in> set ?t then 1 else 0))"
    using hand_out_floor [OF assms(1,2) _ assms(3)] by (intro sum.cong) auto
  also have "\<dots> = sum_list (map en_floor es) + left"
    using sum_indicator [OF t(1,2)] t(3) assms(3)
    by (simp add: sum.distrib sum_list_sum_nth atLeast0LessThan)
  finally show ?thesis .
qed

lemma floors_bound:
  assumes "0 \<le> net" and "\<forall>p \<in> set ps. 0 \<le> pa_shareBps p"
  shows "10000 * sum_list (map (\<lambda>p. en_floor (exact_entry net p)) ps) \<le> net * sum_list (map pa_shareBps ps)"
    and "net * sum_list (map pa_shareBps ps) \<le>
      10000 * sum_list (map (\<lambda>p. en_floor (exact_entry net p)) ps) + 9999 * int (length ps)"
proof -
  have b: "10000 * (x div 10000) \<le> x \<and> x \<le> 10000 * (x div 10000) + 9999" for x :: int
    by presburger
  show "10000 * sum_list (map (\<lambda>p. en_floor (exact_entry net p)) ps) \<le> net * sum_list (map pa_shareBps ps)"
  proof (induction ps)
    case (Cons p ps)
    then show ?case
      using b [of "net * pa_shareBps p"]
      by (simp add: exact_entry_def CAMPAIGN_PAYEE_BPS_DENOMINATOR_def ring_distribs)
  qed simp
  show "net * sum_list (map pa_shareBps ps) \<le>
      10000 * sum_list (map (\<lambda>p. en_floor (exact_entry net p)) ps) + 9999 * int (length ps)"
  proof (induction ps)
    case (Cons p ps)
    then show ?case
      using b [of "net * pa_shareBps p"]
      by (simp add: exact_entry_def CAMPAIGN_PAYEE_BPS_DENOMINATOR_def ring_distribs)
  qed simp
qed

lemma leftover_bounds:
  assumes "0 \<le> net" and "\<forall>p \<in> set ps. 0 \<le> pa_shareBps p" and "sum_list (map pa_shareBps ps) = 10000"
  defines "left \<equiv> net - sum_list (map en_floor (map (exact_entry net) ps))"
  shows "0 \<le> left" and "left \<le> int (length ps)"
  using floors_bound [OF assms(1,2)] assms(3) by (simp_all add: left_def o_def)

lemma order_props:
  "distinct (sort_desc k [0..<n])" "set (sort_desc k [0..<n]) = {..<n}" "length (sort_desc k [0..<n]) = n"
  by auto

text \<open>What an allocation is for valid shares, for the two properties below.\<close>

lemma allocation_shape:
  assumes "campaignPayeeSharesAreValid (payee_shares payees)" and "0 < netCents"
  obtains left order where
    "allocatePayeeCents netCents payees = map (\<lambda>e. (en_userId e, en_floor e))
       (hand_out left order (map (exact_entry netCents) (filter pa_active payees)))"
    "left = netCents - sum_list (map (\<lambda>p. en_floor (exact_entry netCents p)) (filter pa_active payees))"
    "0 \<le> left" "left \<le> int (length (filter pa_active payees))"
    "order = sort_desc (\<lambda>i. en_remainder (map (exact_entry netCents) (filter pa_active payees) ! i))
       [0..<length (filter pa_active payees)]"
proof -
  define ps where "ps = filter pa_active payees"
  have v: "ps \<noteq> []" "\<forall>p \<in> set ps. 0 \<le> pa_shareBps p" "sum_list (map pa_shareBps ps) = 10000"
    using assms(1) by (auto simp: payee_shares_valid Let_def ps_def)
  show ?thesis
    using that [OF _ refl _ _ refl] leftover_bounds [of netCents ps] v assms(2)
    by (simp add: allocatePayeeCents_def Let_def ps_def [symmetric] o_def)
qed

section \<open>Properties\<close>

text \<open>
  C29: a split loses no cent and invents none.  For valid shares and a positive
  net amount, the allocated amounts sum to exactly the net amount, and the payees
  are the active ones in order.
\<close>

theorem allocatePayeeCents_conserves:
  assumes "campaignPayeeSharesAreValid (payee_shares payees)" and "0 < netCents"
  shows "sum_list (map snd (allocatePayeeCents netCents payees)) = netCents \<and>
    map fst (allocatePayeeCents netCents payees) = map pa_userId (filter pa_active payees)"
proof -
  obtain left order where a: "allocatePayeeCents netCents payees = map (\<lambda>e. (en_userId e, en_floor e))
       (hand_out left order (map (exact_entry netCents) (filter pa_active payees)))"
    "left = netCents - sum_list (map (\<lambda>p. en_floor (exact_entry netCents p)) (filter pa_active payees))"
    "0 \<le> left" "left \<le> int (length (filter pa_active payees))"
    "order = sort_desc (\<lambda>i. en_remainder (map (exact_entry netCents) (filter pa_active payees) ! i))
       [0..<length (filter pa_active payees)]"
    using allocation_shape [OF assms] .
  let ?es = "map (exact_entry netCents) (filter pa_active payees)"
  have "sum_list (map en_floor (hand_out left order ?es)) = sum_list (map en_floor ?es) + left"
    using a(3,4) by (intro hand_out_sum) (auto simp: a(5))
  moreover have "map en_userId ?es = map pa_userId (filter pa_active payees)"
    by (simp add: exact_entry_def)
  ultimately show ?thesis
    using hand_out_ids [of left order ?es] by (simp add: a(1,2) o_def)
qed

lemma allocatePayeeCents_conserves_witness:
  "\<exists>payees. sum_list (map snd (allocatePayeeCents 100 payees)) = 100 \<and>
     allocatePayeeCents 100 payees = [(''ana'', 33), (''bo'', 33), (''cy'', 34)]"
proof -
  define p where "p = (\<lambda>u b. \<lparr>pa_id = u, pa_campaignId = ''k'', pa_coalitionId = ''c'', pa_userId = u,
      pa_shareBps = b, pa_role = ''organiser'', pa_active = True, pa_createdAt = ''t'', pa_updatedAt = ''t''\<rparr>)"
  define ps where "ps = [p ''ana'' 3333, p ''bo'' 3333, p ''cy'' 3334]"
  have "campaignPayeeSharesAreValid (payee_shares ps)"
    by (simp add: payee_shares_valid Let_def ps_def p_def)
  then have "sum_list (map snd (allocatePayeeCents 100 ps)) = 100"
    using allocatePayeeCents_conserves [of ps 100] by simp
  moreover have "allocatePayeeCents 100 ps = [(''ana'', 33), (''bo'', 33), (''cy'', 34)]"
    unfolding ps_def p_def by code_simp
  ultimately show ?thesis by blast
qed

text \<open>
  C30: the split is fair to the cent.  For valid shares, every payee gets the floor
  of their exact share or one cent more, and an extra cent never goes to a payee
  whose remainder is smaller than that of a payee left at the floor.
\<close>

theorem allocatePayeeCents_fair:
  assumes "campaignPayeeSharesAreValid (payee_shares payees)" and "0 < netCents"
    and "ps = filter pa_active payees" and "i < length ps" and "j < length ps"
    and "share = (\<lambda>k. netCents * pa_shareBps (ps ! k))"
    and "extra = (\<lambda>k. snd (allocatePayeeCents netCents payees ! k) - share k div 10000)"
  shows "extra i \<in> {0, 1} \<and> (extra i = 1 \<and> extra j = 0 \<longrightarrow> share j mod 10000 \<le> share i mod 10000)"
proof -
  let ?es = "map (exact_entry netCents) ps"
  obtain left order where a: "allocatePayeeCents netCents payees = map (\<lambda>e. (en_userId e, en_floor e))
       (hand_out left order ?es)"
    "0 \<le> left" "order = sort_desc (\<lambda>i. en_remainder (?es ! i)) [0..<length ps]"
    using allocation_shape [OF assms(1,2)] assms(3) by metis
  have ord: "distinct order" "set order = {..<length ps}"
    unfolding a(3) by (rule order_props)+
  have x: "extra k = (if k \<in> set (take (nat left) order) then 1 else 0)" if "k < length ps" for k
    using that hand_out_floor [of order ?es k left] ord a(2)
    by (simp add: assms(6,7) a(1) exact_entry_def CAMPAIGN_PAYEE_BPS_DENOMINATOR_def)
  have "share j mod 10000 \<le> share i mod 10000"
    if i: "i \<in> set (take (nat left) order)" and j: "j \<notin> set (take (nat left) order)"
  proof -
    obtain u where u: "u < nat left" "u < length order" "order ! u = i"
      using i by (auto simp: in_set_conv_nth)
    obtain v where v: "v < length order" "order ! v = j"
      using assms(5) ord(2) by (metis in_set_conv_nth lessThan_iff)
    have "\<not> v < nat left"
      using j v by (auto simp: in_set_conv_nth)
    with u v have "u < v" by simp
    then have "en_remainder (?es ! j) \<le> en_remainder (?es ! i)"
      using sort_desc_nth_mono [of u v "[0..<length ps]" "\<lambda>i. en_remainder (?es ! i)"] u v
      by (simp add: a(3))
    moreover have "en_remainder (?es ! k) = share k mod 10000" if "k < length ps" for k
      using that assms payee_share_nonneg [OF assms(1)]
      by (auto simp: exact_entry_def CAMPAIGN_PAYEE_BPS_DENOMINATOR_def)
    ultimately show ?thesis using assms(4,5) by simp
  qed
  with x [OF assms(4)] x [OF assms(5)] show ?thesis by auto
qed

lemma allocatePayeeCents_fair_witness:
  "\<exists>payees. campaignPayeeSharesAreValid (payee_shares payees) \<and> length payees = 2 \<and>
     snd (allocatePayeeCents 7 payees ! 1) - 7 * pa_shareBps (payees ! 1) div 10000 = 1 \<and>
     snd (allocatePayeeCents 7 payees ! 1) - 7 * pa_shareBps (payees ! 1) div 10000 \<in> {0, 1}"
proof -
  define p where "p = (\<lambda>u b. \<lparr>pa_id = u, pa_campaignId = ''k'', pa_coalitionId = ''c'', pa_userId = u,
      pa_shareBps = b, pa_role = ''organiser'', pa_active = True, pa_createdAt = ''t'', pa_updatedAt = ''t''\<rparr>)"
  define ps where "ps = [p ''ana'' 3000, p ''bo'' 7000]"
  have v: "campaignPayeeSharesAreValid (payee_shares ps)" "filter pa_active ps = ps" "length ps = 2"
    by (simp_all add: payee_shares_valid Let_def ps_def p_def)
  moreover have "snd (allocatePayeeCents 7 ps ! 1) - 7 * pa_shareBps (ps ! 1) div 10000 \<in> {0, 1}"
    using allocatePayeeCents_fair [OF v(1) _ v(2) [symmetric] _ _ refl refl, of 7 1 0] v(3) by simp
  moreover have "snd (allocatePayeeCents 7 ps ! 1) - 7 * pa_shareBps (ps ! 1) div 10000 = 1"
    unfolding ps_def p_def by code_simp
  ultimately show ?thesis by blast
qed

end
