(* ===== verification/Coalition_Campaigns.thy ===== *)
theory Coalition_Campaigns
  imports Coalition_Roster Payee_Allocation
begin

text \<open>
  \<^verbatim>\<open>services/coalitionNetworkStore.ts\<close>, third part: campaigns and their status
  graph, boosts, raised aid posts and payees, with
  \<^verbatim>\<open>campaignHasCapturedContributions\<close> of \<^verbatim>\<open>services/coalitionDrives.ts\<close>.

  The bounty that a project may carry and the relay edge of a boost belong to other
  stores; here they are effects.
\<close>

section \<open>Launching\<close>

record BountyInput =
  bi_rewardType :: string
  bi_rewardSummary :: string
  bi_rewardAmountCents :: "int option"
  bi_requirements :: "string list option"
  bi_deliverables :: "string list option"

record CreateCampaignInput =
  cp_type :: CampaignType
  cp_title :: string
  cp_description :: string
  cp_goalCents :: "int option"
  cp_goalUnits :: "int option"
  cp_startsAt :: "iso option"
  cp_endsAt :: "iso option"
  cp_requiresStewardApproval :: "bool option"
  cp_projectId :: "ident option"
  cp_bountyId :: "ident option"
  cp_aidPostId :: "ident option"
  cp_fbmListingId :: "ident option"
  cp_fbmOrderCycleId :: "ident option"
  cp_bounty :: "BountyInput option"

definition if_truthy :: "string option \<Rightarrow> string option" where
  "if_truthy v = (if truthy v then v else None)"

text \<open>\<open>bountyId\<close> is the id \<^verbatim>\<open>newBountyId\<close> makes.\<close>

definition createCampaign ::
    "iso \<Rightarrow> entropy \<Rightarrow> ident \<Rightarrow> string \<Rightarrow> ident \<Rightarrow> CreateCampaignInput \<Rightarrow> CoalitionDb \<Rightarrow>
     CoalitionCampaign CoalitionResult \<times> CoalitionDb" where
  "createCampaign now e bountyId idOrSlug actorId input db =
     (case getCoalition db idOrSlug of
        None \<Rightarrow> fail Not_found db
      | Some coalition \<Rightarrow>
          if isStopped coalition then fail (stoppedError coalition) db
          else case activeMembership db (co_id coalition) actorId of
                 None \<Rightarrow> fail Not_member db
               | Some membership \<Rightarrow>
                   (let canLaunch = coalitionRoleCan (me_role membership) Campaigns_launch;
                        requiresStewardApproval =
                          (if canLaunch then cp_requiresStewardApproval input = Some True else True);
                        status = (if requiresStewardApproval then Camp_pending_approval else Camp_active);
                        (campaign, db) = upsertCoalitionCampaign now
                          \<lparr>ca_id = newCampaignId e, ca_coalitionId = co_id coalition, ca_type = cp_type input,
                           ca_title = cp_title input, ca_description = cp_description input,
                           ca_goalCents = cp_goalCents input, ca_goalUnits = cp_goalUnits input,
                           ca_raisedCents = 0, ca_contributorCount = 0, ca_status = status,
                           ca_requiresStewardApproval = requiresStewardApproval,
                           ca_createdBy = Some actorId,
                           ca_approvedBy = (if status = Camp_active then Some actorId else None),
                           ca_startsAt = if_truthy (cp_startsAt input), ca_endsAt = if_truthy (cp_endsAt input),
                           ca_completedAt = None, ca_projectId = if_truthy (cp_projectId input),
                           ca_bountyId = if_truthy (cp_bountyId input),
                           ca_aidPostId = if_truthy (cp_aidPostId input), ca_beneficiaryUserId = None,
                           ca_fbmListingId = if_truthy (cp_fbmListingId input),
                           ca_fbmOrderCycleId = if_truthy (cp_fbmOrderCycleId input),
                           ca_logisticsDriveRef = None, ca_createdAt = now, ca_updatedAt = now\<rparr> db;
                        (withBounty, db) =
                          (if cp_bounty input \<noteq> None \<and> (cp_type input = Project \<or> cp_type input = Drive)
                           then upsertCoalitionCampaign now (campaign\<lparr>ca_bountyId := Some bountyId\<rparr>)
                                  (emit (Job (Post_bounty bountyId (co_id coalition) actorId)) db)
                           else (campaign, db));
                        db = emit (EmitC (Ev_campaign_created (co_id coalition) (ca_id campaign)
                               (ca_type campaign) status (ca_bountyId withBounty))) db;
                        db = (if status = Camp_active
                              then emit (Job (Job_ensure_listing withBounty))
                                     (emit (Job (Job_open_window withBounty)) db)
                              else db)
                    in succeed withBounty db))"

definition getCampaign ::
    "CoalitionDb \<Rightarrow> string \<Rightarrow> ident \<Rightarrow> ident option \<Rightarrow> CoalitionCampaign CoalitionResult" where
  "getCampaign db idOrSlug campaignId viewerId =
     (case getCoalition db idOrSlug of
        None \<Rightarrow> Inl Not_found
      | Some coalition \<Rightarrow>
          (case getCoalitionCampaign db campaignId of
             None \<Rightarrow> Inl Not_found
           | Some campaign \<Rightarrow>
               if ca_coalitionId campaign \<noteq> co_id coalition then Inl Not_found
               else let isMember = truthy viewerId \<and> activeMembership db (co_id coalition) (the viewerId) \<noteq> None
                    in if \<not> isMember \<and> ca_status campaign \<noteq> Camp_active \<and> ca_status campaign \<noteq> Camp_completed
                       then Inl Not_found else Inr campaign))"

section \<open>The status graph\<close>

definition approveCampaign ::
    "iso \<Rightarrow> string \<Rightarrow> ident \<Rightarrow> ident \<Rightarrow> CoalitionDb \<Rightarrow> CoalitionCampaign CoalitionResult \<times> CoalitionDb" where
  "approveCampaign now idOrSlug actorId campaignId db =
     (case getCoalition db idOrSlug of
        None \<Rightarrow> fail Not_found db
      | Some coalition \<Rightarrow>
          (case requirePermission db coalition actorId Campaigns_approve of
             Inl err \<Rightarrow> fail err db
           | Inr _ \<Rightarrow>
               (case getCoalitionCampaign db campaignId of
                  None \<Rightarrow> fail Not_found db
                | Some campaign \<Rightarrow>
                    if ca_coalitionId campaign \<noteq> co_id coalition then fail Not_found db
                    else if \<not> canTransitionCampaign (ca_status campaign) Camp_active
                    then fail (Invalid_transition (ca_status campaign) Camp_active) db
                    else let (saved, db) = upsertCoalitionCampaign now
                               (campaign\<lparr>ca_status := Camp_active, ca_approvedBy := Some actorId\<rparr>) db;
                             db = emit (Job (Job_open_window saved)) db;
                             db = emit (Job (Job_ensure_listing saved)) db;
                             db = emit (EmitC (Ev_campaign_status (co_id coalition) campaignId Camp_active actorId)) db
                         in succeed saved db)))"

fun completionEventFor :: "CampaignType \<Rightarrow> CoalitionReputationEvent option" where
  "completionEventFor Drive = Some Drive_completed"
| "completionEventFor Goods_drive = Some Drive_completed"
| "completionEventFor Project = Some Project_delivered"
| "completionEventFor Mutual_aid = Some Mutual_aid_fulfilled"
| "completionEventFor Boost_campaign = None"

definition campaignHasCapturedContributions :: "CoalitionDb \<Rightarrow> ident \<Rightarrow> ident option \<Rightarrow> bool" where
  "campaignHasCapturedContributions db campaignId excludeUserId \<longleftrightarrow>
     (\<exists>row \<in> set (listCoalitionCampaignContributions db (Some campaignId) None None).
        Some (cn_supporterUserId row) \<noteq> excludeUserId)"

text \<open>What \<open>transitionCampaign\<close> starts after the row is saved, in order.\<close>

definition transition_jobs ::
    "CoalitionDb \<Rightarrow> Coalition \<Rightarrow> CoalitionCampaign \<Rightarrow> CoalitionCampaign \<Rightarrow> CampaignStatus \<Rightarrow> Effect list" where
  "transition_jobs db coalition campaign saved to =
     (if to = Camp_active \<and> ca_type saved = Goods_drive then [Job (Job_open_window saved)] else []) @
     (if to = Camp_active then [Job (Job_ensure_listing saved)] else []) @
     (if to = Camp_completed \<or> to = Camp_cancelled then [Job (Job_archive_listing saved)] else []) @
     (if to = Camp_completed
      then (case completionEventFor (ca_type campaign) of
              None \<Rightarrow> []
            | Some ev \<Rightarrow>
                (case ca_createdBy campaign of
                   None \<Rightarrow> []
                 | Some organiser \<Rightarrow>
                     if campaignHasCapturedContributions db (ca_id campaign) (ca_createdBy campaign)
                     then [Job (Award_karma ev organiser (co_id coalition) (ca_id campaign))] else [])) @
           [Job (Push_milestones (co_id coalition))]
      else [])"

definition transitionCampaign ::
    "iso \<Rightarrow> string \<Rightarrow> ident \<Rightarrow> ident \<Rightarrow> CampaignStatus \<Rightarrow> CoalitionDb \<Rightarrow>
     CoalitionCampaign CoalitionResult \<times> CoalitionDb" where
  "transitionCampaign now idOrSlug actorId campaignId to db =
     (case getCoalition db idOrSlug of
        None \<Rightarrow> fail Not_found db
      | Some coalition \<Rightarrow>
          (case activeMembership db (co_id coalition) actorId of
             None \<Rightarrow> fail Not_member db
           | Some membership \<Rightarrow>
               (case getCoalitionCampaign db campaignId of
                  None \<Rightarrow> fail Not_found db
                | Some campaign \<Rightarrow>
                    if ca_coalitionId campaign \<noteq> co_id coalition then fail Not_found db
                    else let isSteward = coalitionRoleCan (me_role membership) Campaigns_approve
                         in if to = Camp_active \<and> \<not> isSteward then fail (Forbidden (Some Campaigns_approve)) db
                            else if ca_createdBy campaign \<noteq> Some actorId \<and> \<not> isSteward
                            then fail (Forbidden (Some Campaigns_launch)) db
                            else if \<not> canTransitionCampaign (ca_status campaign) to
                            then fail (Invalid_transition (ca_status campaign) to) db
                            else let (saved, db) = upsertCoalitionCampaign now
                                       (campaign\<lparr>ca_status := to,
                                          ca_approvedBy := (if to = Camp_active then Some actorId else ca_approvedBy campaign),
                                          ca_completedAt := (if to = Camp_completed then Some now else ca_completedAt campaign)\<rparr>) db;
                                     db = emit (EmitC (Ev_campaign_status (co_id coalition) campaignId to actorId)) db;
                                     db = fold emit (transition_jobs db coalition campaign saved to) db
                                 in succeed saved db)))"

section \<open>Boosts\<close>

text \<open>\<^verbatim>\<open>Number.parseInt(s, 10)\<close>: leading space, a sign, then digits.\<close>

definition parse_int :: "string \<Rightarrow> int option" where
  "parse_int s =
     (let t = dropWhile js_space s;
          neg = (t \<noteq> [] \<and> hd t = CHR ''-'');
          u = (if t \<noteq> [] \<and> (hd t = CHR ''-'' \<or> hd t = CHR ''+'') then tl t else t);
          ds = takeWhile is_digit u
      in if ds = [] then None else Some (if neg then - int (read_nat ds) else int (read_nat ds)))"

definition boostDailyAllowance :: "ServiceEnv \<Rightarrow> nat" where
  "boostDailyAllowance env =
     (case parse_int (case env_boostAllowance env of None \<Rightarrow> [] | Some s \<Rightarrow> s) of
        Some raw \<Rightarrow> if raw > 0 then nat raw else DEFAULT_COALITION_BOOST_DAILY_ALLOWANCE
      | None \<Rightarrow> DEFAULT_COALITION_BOOST_DAILY_ALLOWANCE)"

definition campaignBoostMeter :: "CoalitionDb \<Rightarrow> ident \<Rightarrow> iso \<Rightarrow> BoostMeter option" where
  "campaignBoostMeter db campaignId now =
     computeBoostMeter (map (\<lambda>b. (bo_userId b, bo_day b)) (listCoalitionBoosts db (Some campaignId) None None None)) now"

text \<open>A meter of \<open>None\<close> is a clock reading that is not a date: the source throws there.\<close>

definition boostCampaign ::
    "iso \<Rightarrow> entropy \<Rightarrow> ServiceEnv \<Rightarrow> string \<Rightarrow> ident \<Rightarrow> ident \<Rightarrow> CoalitionDb \<Rightarrow>
     (BoostMeter option \<times> int) CoalitionResult \<times> CoalitionDb" where
  "boostCampaign now e env idOrSlug actorId campaignId db =
     (case getCoalition db idOrSlug of
        None \<Rightarrow> fail Not_found db
      | Some coalition \<Rightarrow>
          if isStopped coalition then fail (stoppedError coalition) db
          else case getCoalitionCampaign db campaignId of
                 None \<Rightarrow> fail Not_found db
               | Some campaign \<Rightarrow>
                   if ca_coalitionId campaign \<noteq> co_id coalition then fail Not_found db
                   else if ca_status campaign \<noteq> Camp_active then fail Campaign_inactive db
                   else let day = utcDayOf now;
                            allowance = boostDailyAllowance env;
                            spentToday = length (listCoalitionBoosts db None None (Some actorId) (Some day))
                        in if length (listCoalitionBoosts db (Some campaignId) None (Some actorId) (Some day)) > 0
                           then fail Already_boosted db
                           else if boostAllowanceRemaining spentToday allowance \<le> 0
                           then fail (Boost_allowance_exhausted allowance) db
                           else let (_, db) = upsertCoalitionBoost now
                                      \<lparr>bo_id = newBoostId e, bo_campaignId = campaignId, bo_coalitionId = co_id coalition,
                                       bo_userId = actorId, bo_day = day, bo_createdAt = now, bo_updatedAt = now\<rparr> db;
                                    db = emit (Job (Relay_campaign actorId campaignId)) db;
                                    meter = campaignBoostMeter db campaignId now;
                                    db = (case meter of
                                            None \<Rightarrow> db
                                          | Some m \<Rightarrow> emit (EmitC (Ev_campaign_boosted (co_id coalition) campaignId actorId (bm_total m))) db)
                                in succeed (meter, boostAllowanceRemaining (spentToday + 1) allowance) db)"

section \<open>Raised aid\<close>

definition raiseAidPost ::
    "iso \<Rightarrow> entropy \<Rightarrow> ServiceEnv \<Rightarrow> string \<Rightarrow> ident \<Rightarrow> ident \<Rightarrow> CoalitionDb \<Rightarrow>
     CoalitionCampaign CoalitionResult \<times> CoalitionDb" where
  "raiseAidPost now e env idOrSlug actorId aidPostId db =
     (case getCoalition db idOrSlug of
        None \<Rightarrow> fail Not_found db
      | Some coalition \<Rightarrow>
          if isStopped coalition then fail (stoppedError coalition) db
          else if activeMembership db (co_id coalition) actorId = None then fail Not_member db
          else case find (\<lambda>row. ap_id row = aidPostId) (db_aidPosts db) of
                 None \<Rightarrow> fail Not_found db
               | Some post \<Rightarrow>
                   (let beneficiaryUserId = resolveBlackoutUserId (env_homeserver env) (db_users db) (ap_customerId post)
                    in case find (\<lambda>row. ca_aidPostId row = Some aidPostId)
                              (listCoalitionCampaigns db (Some (co_id coalition)) None (Some Mutual_aid)) of
                         Some existing \<Rightarrow> succeed existing db
                       | None \<Rightarrow>
                           (let (campaign, db) = upsertCoalitionCampaign now
                                  \<lparr>ca_id = newCampaignId e, ca_coalitionId = co_id coalition, ca_type = Mutual_aid,
                                   ca_title = ap_title post, ca_description = ap_description post,
                                   ca_goalCents = None, ca_goalUnits = None, ca_raisedCents = 0,
                                   ca_contributorCount = 0, ca_status = Camp_active,
                                   ca_requiresStewardApproval = False, ca_createdBy = Some actorId,
                                   ca_approvedBy = Some actorId, ca_startsAt = None, ca_endsAt = None,
                                   ca_completedAt = None, ca_projectId = None, ca_bountyId = None,
                                   ca_aidPostId = Some aidPostId, ca_beneficiaryUserId = if_truthy beneficiaryUserId,
                                   ca_fbmListingId = None, ca_fbmOrderCycleId = None, ca_logisticsDriveRef = None,
                                   ca_createdAt = now, ca_updatedAt = now\<rparr> db;
                                db = emit (EmitC (Ev_aid_raised (co_id coalition) (ca_id campaign) aidPostId actorId)) db
                            in succeed campaign db)))"

section \<open>Payees\<close>

record PayeeInput =
  pi_userId :: string
  pi_shareBps :: js_number
  pi_role :: string

text \<open>The checking loop; \<open>resolved\<close> collects the accepted entries.\<close>

fun resolve_payees ::
    "ServiceEnv \<Rightarrow> CoalitionDb \<Rightarrow> Coalition \<Rightarrow> CoalitionCampaign \<Rightarrow> PayeeInput list \<Rightarrow> PayeeInput list \<Rightarrow>
     PayeeInput list CoalitionResult" where
  "resolve_payees env db coalition campaign resolved [] = Inr resolved"
| "resolve_payees env db coalition campaign resolved (inp # rest) =
     (case resolveBlackoutUserId (env_homeserver env) (db_users db) (pi_userId inp) of
        None \<Rightarrow> Inl (Payees_invalid ''unknown_user'')
      | Some userId \<Rightarrow>
          if userId = [] then Inl (Payees_invalid ''unknown_user'')
          else if activeMembership db (co_id coalition) userId = None \<and>
                  ca_beneficiaryUserId campaign \<noteq> Some userId
          then Inl (Payees_invalid ''not_a_member'')
          else if \<exists>r \<in> set resolved. pi_userId r = userId then Inl (Payees_invalid ''duplicate'')
          else resolve_payees env db coalition campaign (resolved @ [inp\<lparr>pi_userId := userId\<rparr>]) rest)"

definition deactivate_payee :: "iso \<Rightarrow> CampaignPayee \<Rightarrow> CoalitionDb \<Rightarrow> CoalitionDb" where
  "deactivate_payee now existing db = snd (upsertCoalitionCampaignPayee now (existing\<lparr>pa_active := False\<rparr>) db)"

fun save_payees ::
    "iso \<Rightarrow> Coalition \<Rightarrow> CoalitionCampaign \<Rightarrow> (entropy \<times> PayeeInput) list \<Rightarrow> CoalitionDb \<Rightarrow>
     CampaignPayee list \<times> CoalitionDb" where
  "save_payees now coalition campaign [] db = ([], db)"
| "save_payees now coalition campaign ((e, inp) # rest) db =
     (let (row, db) = upsertCoalitionCampaignPayee now
            \<lparr>pa_id = newPayeeId e, pa_campaignId = ca_id campaign, pa_coalitionId = co_id coalition,
             pa_userId = pi_userId inp, pa_shareBps = the (js_integer (pi_shareBps inp)),
             pa_role = pi_role inp, pa_active = True, pa_createdAt = now, pa_updatedAt = now\<rparr> db;
          (rows, db) = save_payees now coalition campaign rest db
      in (row # rows, db))"

definition setCampaignPayees ::
    "iso \<Rightarrow> (nat \<Rightarrow> entropy) \<Rightarrow> ServiceEnv \<Rightarrow> string \<Rightarrow> ident \<Rightarrow> ident \<Rightarrow> PayeeInput list \<Rightarrow> CoalitionDb \<Rightarrow>
     CampaignPayee list CoalitionResult \<times> CoalitionDb" where
  "setCampaignPayees now es env idOrSlug actorId campaignId payees db =
     (case getCoalition db idOrSlug of
        None \<Rightarrow> fail Not_found db
      | Some coalition \<Rightarrow>
          if isStopped coalition then fail (stoppedError coalition) db
          else case requirePermission db coalition actorId Campaigns_launch of
                 Inl err \<Rightarrow> fail err db
               | Inr _ \<Rightarrow>
                   (case getCoalitionCampaign db campaignId of
                      None \<Rightarrow> fail Not_found db
                    | Some campaign \<Rightarrow>
                        if ca_coalitionId campaign \<noteq> co_id coalition then fail Not_found db
                        else case resolve_payees env db coalition campaign [] payees of
                               Inl err \<Rightarrow> fail err db
                             | Inr resolved \<Rightarrow>
                                 if \<not> campaignPayeeSharesAreValid (map (\<lambda>r. (pi_shareBps r, True)) resolved)
                                 then fail (Payees_invalid ''shares_must_total_100'') db
                                 else let stale = filter (\<lambda>x. pa_userId x \<notin> pi_userId ` set resolved \<and> pa_active x)
                                                    (listCoalitionCampaignPayees db (Some (ca_id campaign)) None None);
                                          db = fold (deactivate_payee now) stale db;
                                          (saved, db) = save_payees now coalition campaign
                                            (map (\<lambda>i. (es i, resolved ! i)) [0..<length resolved]) db;
                                          db = emit (EmitC (Ev_payees_set (co_id coalition) (ca_id campaign)
                                                 (length saved) actorId)) db
                                      in succeed saved db))"

definition listCampaignPayees :: "CoalitionDb \<Rightarrow> ident \<Rightarrow> CampaignPayee list" where
  "listCampaignPayees db campaignId = filter pa_active (listCoalitionCampaignPayees db (Some campaignId) None None)"

section \<open>Properties of the status graph\<close>

lemma getCoalitionCampaign_upsert:
  "getCoalitionCampaign (snd (upsertCoalitionCampaign now k db)) i =
     (if i = ca_id k then Some (fst (upsertCoalitionCampaign now k db)) else getCoalitionCampaign db i)"
  by (simp add: getCoalitionCampaign_def)

lemma fold_emit_frame [simp]:
  "db_campaigns (fold emit es db) = db_campaigns db" "db_memberships (fold emit es db) = db_memberships db"
  "db_coalitions (fold emit es db) = db_coalitions db" "db_boosts (fold emit es db) = db_boosts db"
  "db_payees (fold emit es db) = db_payees db" "db_contributions (fold emit es db) = db_contributions db"
  "db_petitions (fold emit es db) = db_petitions db" "db_joinRequests (fold emit es db) = db_joinRequests db"
  "db_users (fold emit es db) = db_users db"
  by (induction es arbitrary: db) simp_all


lemma effects_fold_emit [simp]: "effects (fold emit es db) = effects db @ es"
  by (induction es arbitrary: db) (simp_all add: emit_def)

lemma transition_jobs_award:
  assumes "Job (Award_karma ev u c ref) \<in> set (transition_jobs db co k saved to)"
  shows "to = Camp_completed \<and> ca_createdBy k = Some u \<and> completionEventFor (ca_type k) = Some ev \<and>
   c = co_id co \<and> ref = ca_id k \<and>
   (\<exists>row \<in> set (listCoalitionCampaignContributions db (Some (ca_id k)) None None). cn_supporterUserId row \<noteq> u)"
  using assms by (auto simp: transition_jobs_def campaignHasCapturedContributions_def split: option.splits if_splits)

text \<open>Rows for the concrete runs below and in the theories that follow.\<close>

definition sample_campaign :: "ident \<Rightarrow> CampaignType \<Rightarrow> CampaignStatus \<Rightarrow> ident \<Rightarrow> CoalitionCampaign" where
  "sample_campaign cid ty st creator =
     \<lparr>ca_id = cid, ca_coalitionId = ''coa_1'', ca_type = ty, ca_title = ''Soup'', ca_description = ''Kitchen'',
      ca_goalCents = Some 5000, ca_goalUnits = None, ca_raisedCents = 0, ca_contributorCount = 0, ca_status = st,
      ca_requiresStewardApproval = False, ca_createdBy = Some creator, ca_approvedBy = Some creator,
      ca_startsAt = None, ca_endsAt = None, ca_completedAt = None, ca_projectId = None, ca_bountyId = None,
      ca_aidPostId = None, ca_beneficiaryUserId = None, ca_fbmListingId = None, ca_fbmOrderCycleId = None,
      ca_logisticsDriveRef = None, ca_createdAt = ''2026-01-02T00:00:00.000Z'',
      ca_updatedAt = ''2026-01-02T00:00:00.000Z''\<rparr>"

definition sample_contribution :: "ident \<Rightarrow> ident \<Rightarrow> ident \<Rightarrow> int \<Rightarrow> CoalitionCampaignContribution" where
  "sample_contribution i campaign supporter cents =
     \<lparr>cn_id = i, cn_campaignId = campaign, cn_coalitionId = ''coa_1'', cn_supporterUserId = supporter,
      cn_tipId = ''tip_'' @ i, cn_amountCents = cents, cn_currency = ''USD'',
      cn_createdAt = ''2026-01-03T00:00:00.000Z'', cn_updatedAt = ''2026-01-03T00:00:00.000Z''\<rparr>"

definition sample_drive_db :: CoalitionDb where
  "sample_drive_db = sample_db [sample_member ''coa_1'' ''ana'' Founder, sample_member ''coa_1'' ''bo'' Member]
     \<lparr>db_campaigns := [(''k1'', sample_campaign ''k1'' Drive Camp_active ''ana'')]\<rparr>"

lemmas sample_defs = sample_drive_db_def sample_db_def sample_campaign_def sample_contribution_def
  sample_member_def sample_coalition_def empty_db_def

text \<open>
  C34: a completed campaign credits its organiser once somebody else paid.  A status
  change awards karma only when it completes the campaign, only to the campaign's creator,
  and only when a contribution by another person was captured.
\<close>

theorem completion_award_needs_contribution:
  assumes "Job (Award_karma ev u c ref) \<in> set (effects (snd (transitionCampaign now s a cid to db)))"
    and "Job (Award_karma ev u c ref) \<notin> set (effects db)"
  shows "to = Camp_completed \<and> (\<exists>k. getCoalitionCampaign db cid = Some k \<and> ca_createdBy k = Some u \<and>
    completionEventFor (ca_type k) = Some ev \<and> c = ca_coalitionId k \<and> ref = ca_id k \<and>
    (\<exists>row \<in> set (listCoalitionCampaignContributions db (Some (ca_id k)) None None). cn_supporterUserId row \<noteq> u))"
proof -
  have e: "effects (snd (upsertCoalitionCampaign now k db)) = effects db" for k
    by simp
  have l: "listCoalitionCampaignContributions (emit ev (snd (upsertCoalitionCampaign now k db))) x y z =
      listCoalitionCampaignContributions db x y z" for ev k x y z
    by (simp add: listCoalitionCampaignContributions_def)
  show ?thesis
    using assms
    by (auto simp: transitionCampaign_def op_simps emit_def [of "EmitC _"] e split: option.splits if_splits
        dest!: transition_jobs_award) (auto simp: listCoalitionCampaignContributions_def)
qed

lemma completion_award_needs_contribution_witness:
  "let db = sample_drive_db\<lparr>db_contributions := [(''c1'', sample_contribution ''c1'' ''k1'' ''bo'' 700)]\<rparr>;
       award = Job (Award_karma Drive_completed ''ana'' ''coa_1'' ''k1'')
   in award \<in> set (effects (snd (transitionCampaign ''2026-02-01T00:00:00.000Z'' ''food'' ''ana'' ''k1'' Camp_completed db))) \<and>
      (\<exists>k. getCoalitionCampaign db ''k1'' = Some k \<and> ca_createdBy k = Some ''ana'' \<and>
        completionEventFor (ca_type k) = Some Drive_completed \<and> ca_id k = ''k1'')"
proof -
  define db where "db = sample_drive_db\<lparr>db_contributions := [(''c1'', sample_contribution ''c1'' ''k1'' ''bo'' 700)]\<rparr>"
  define award where "award = Job (Award_karma Drive_completed ''ana'' ''coa_1'' ''k1'')"
  have e: "award \<in> set (effects (snd (transitionCampaign ''2026-02-01T00:00:00.000Z'' ''food'' ''ana'' ''k1'' Camp_completed db)))"
    unfolding db_def award_def by code_simp
  have "award \<notin> set (effects db)" by (simp add: db_def sample_defs)
  from completion_award_needs_contribution [OF e [unfolded award_def] this [unfolded award_def]] e show ?thesis
    by (auto simp: db_def award_def)
qed

section \<open>Properties of boosts\<close>

definition boosts_of :: "CoalitionDb \<Rightarrow> ident \<Rightarrow> string \<Rightarrow> nat" where
  "boosts_of db u d = length (filter (\<lambda>b. bo_userId b = u \<and> bo_day b = d) (js_values (db_boosts db)))"

lemma length_filter_js_set:
  "length (filter P (js_values (js_set k r m))) \<le> length (filter P (js_values m)) + (if P r then 1 else 0)"
  by (induction m) (auto simp: js_values_def)

lemma boosts_of_le_list:
  "boosts_of db u d \<le> length (listCoalitionBoosts db None None (Some u) (Some d))"
  unfolding boosts_of_def listCoalitionBoosts_def by (rule length_filter_mono) auto

text \<open>What a boost does to the table: nothing, or one row within the allowance.\<close>

lemma boostCampaign_effect:
  "db_boosts (snd (boostCampaign now e env s a cid db)) = db_boosts db \<or>
   (\<exists>r. db_boosts (snd (boostCampaign now e env s a cid db)) = js_set (boost_key r) r (db_boosts db) \<and>
      bo_userId r = a \<and> bo_day r = utcDayOf now \<and> bo_campaignId r = cid \<and>
      length (listCoalitionBoosts db None None (Some a) (Some (utcDayOf now))) < boostDailyAllowance env)"
proof -
  define r where "r c = fst (upsertCoalitionBoost now \<lparr>bo_id = newBoostId e, bo_campaignId = cid,
     bo_coalitionId = co_id c, bo_userId = a, bo_day = utcDayOf now, bo_createdAt = now, bo_updatedAt = now\<rparr> db)" for c :: Coalition
  have k: "boost_key \<lparr>bo_id = newBoostId e, bo_campaignId = cid, bo_coalitionId = co_id c, bo_userId = a,
      bo_day = utcDayOf now, bo_createdAt = now, bo_updatedAt = now\<rparr> = boost_key (r c)" for c :: Coalition
    by (simp add: r_def)
  have "bo_userId (r c) = a \<and> bo_day (r c) = utcDayOf now \<and> bo_campaignId (r c) = cid" for c
    by (simp add: r_def)
  then show ?thesis
    by (cases "getCoalition db s"; cases "getCoalitionCampaign db cid")
      (auto simp: boostCampaign_def op_simps boostAllowanceRemaining_def k r_def [symmetric]
        split: option.splits intro!: exI [of _ "r (the (getCoalition db s))"])
qed

lemma boostCampaign_cap:
  assumes "\<And>u d. boosts_of db u d \<le> boostDailyAllowance env"
  shows "boosts_of (snd (boostCampaign now e env s a cid db)) u d \<le> boostDailyAllowance env"
  using boostCampaign_effect [of now e env s a cid db]
proof (elim disjE exE conjE)
  fix r
  assume r: "db_boosts (snd (boostCampaign now e env s a cid db)) = js_set (boost_key r) r (db_boosts db)"
    "bo_userId r = a" "bo_day r = utcDayOf now"
    "length (listCoalitionBoosts db None None (Some a) (Some (utcDayOf now))) < boostDailyAllowance env"
  have "boosts_of (snd (boostCampaign now e env s a cid db)) u d \<le>
      boosts_of db u d + (if bo_userId r = u \<and> bo_day r = d then 1 else 0)"
    unfolding boosts_of_def r(1) by (rule length_filter_js_set)
  with assms [of u d] boosts_of_le_list [of db a "utcDayOf now"] r(2-4) show ?thesis
    by (auto split: if_splits)
qed (use assms in \<open>simp add: boosts_of_def\<close>)

section \<open>Properties of payees\<close>

definition wf_payees :: "CoalitionDb \<Rightarrow> bool" where
  "wf_payees db \<longleftrightarrow> js_table payee_key (db_payees db) \<and>
     (\<forall>p \<in> set (js_values (db_payees db)). colon_free (pa_campaignId p))"

lemma payee_lookup:
  assumes "wf_payees db" and "colon_free cid"
  shows "js_get (pair_key cid u) (db_payees db) = Some p \<longleftrightarrow>
    p \<in> set (js_values (db_payees db)) \<and> pa_campaignId p = cid \<and> pa_userId p = u"
  using assms js_table_lookup [of payee_key "db_payees db" "pair_key cid u" p]
  by (auto simp: wf_payees_def payee_key_def colon_free_def pair_key_inject)

lemma payee_lookup_key:
  "wf_payees db \<Longrightarrow> p \<in> set (js_values (db_payees db)) \<Longrightarrow> js_get (payee_key p) (db_payees db) = Some p"
  using payee_rows.lookup_key by (simp add: wf_payees_def)

lemma wf_payees_upsert:
  assumes "wf_payees db" and "colon_free (pa_campaignId p)"
  shows "wf_payees (snd (upsertCoalitionCampaignPayee now p db))"
proof -
  let ?r = "fst (upsertCoalitionCampaignPayee now p db)"
  have t: "js_table payee_key (db_payees db)" using assms by (simp add: wf_payees_def)
  have k: "js_set (payee_key p) ?r = js_set (payee_key ?r) ?r" by simp
  have "js_table payee_key (js_set (payee_key p) ?r (db_payees db))" unfolding k by (rule js_table_set [OF t])
  moreover have "r = ?r \<or> r \<in> set (js_values (db_payees db))"
    if "r \<in> set (js_values (js_set (payee_key p) ?r (db_payees db)))" for r
    using that payee_rows.set_rows_put [OF t, of ?r] unfolding k by auto
  ultimately show ?thesis using assms unfolding wf_payees_def
    by (simp, metis upsertCoalitionCampaignPayee_row(2))
qed

lemma deactivate_fold:
  assumes "wf_payees db" and "\<forall>p \<in> set ps. colon_free (pa_campaignId p)"
  shows "wf_payees (fold (deactivate_payee now) ps db) \<and>
    (\<forall>k. k \<notin> payee_key ` set ps \<longrightarrow>
       js_get k (db_payees (fold (deactivate_payee now) ps db)) = js_get k (db_payees db)) \<and>
    (\<forall>k \<in> payee_key ` set ps. \<exists>p. js_get k (db_payees (fold (deactivate_payee now) ps db)) = Some p \<and> \<not> pa_active p)"
  using assms
proof (induction ps arbitrary: db)
  case (Cons p ps)
  let ?db = "deactivate_payee now p db"
  have wf: "wf_payees ?db"
    unfolding deactivate_payee_def using Cons.prems by (intro wf_payees_upsert) auto
  have g: "js_get k (db_payees ?db) =
      (if k = payee_key p then Some (fst (upsertCoalitionCampaignPayee now (p\<lparr>pa_active := False\<rparr>) db))
       else js_get k (db_payees db))" for k
    by (simp add: deactivate_payee_def payee_key_def)
  from Cons.IH [OF wf] Cons.prems(2) have ih:
    "wf_payees (fold (deactivate_payee now) ps ?db)"
    "\<And>k. k \<notin> payee_key ` set ps \<Longrightarrow>
       js_get k (db_payees (fold (deactivate_payee now) ps ?db)) = js_get k (db_payees ?db)"
    "\<And>k. k \<in> payee_key ` set ps \<Longrightarrow>
       \<exists>p. js_get k (db_payees (fold (deactivate_payee now) ps ?db)) = Some p \<and> \<not> pa_active p"
    by auto
  have "\<exists>q. js_get k (db_payees (fold (deactivate_payee now) ps ?db)) = Some q \<and> \<not> pa_active q"
    if "k \<in> payee_key ` set (p # ps)" for k
    using that ih(2,3) by (cases "k \<in> payee_key ` set ps") (auto simp: g)
  then show ?case using ih by (auto simp: g)
qed simp

lemma resolve_payees_distinct:
  "resolve_payees env db c k acc xs = Inr out \<Longrightarrow> distinct (map pi_userId acc) \<Longrightarrow> distinct (map pi_userId out)"
proof (induction env db c k acc xs rule: resolve_payees.induct)
  case (2 env db c k acc x rest)
  from 2(2) obtain u where u: "resolveBlackoutUserId (env_homeserver env) (db_users db) (pi_userId x) = Some u"
    "u \<noteq> []" "activeMembership db (co_id c) u \<noteq> None \<or> ca_beneficiaryUserId k = Some u"
    "\<not> (\<exists>r \<in> set acc. pi_userId r = u)"
    "resolve_payees env db c k (acc @ [x\<lparr>pi_userId := u\<rparr>]) rest = Inr out"
    by (auto split: option.splits if_splits)
  have "distinct (map pi_userId (acc @ [x\<lparr>pi_userId := u\<rparr>]))" using 2(3) u(4) by auto
  with 2(1) [OF u(1) u(2)] u show ?case by auto
qed simp

lemma save_payees_rows:
  assumes "save_payees now c k xs db = (rows, db')"
  shows "map pa_userId rows = map (\<lambda>x. pi_userId (snd x)) xs \<and>
    map pa_shareBps rows = map (\<lambda>x. the (js_integer (pi_shareBps (snd x)))) xs \<and>
    (\<forall>p \<in> set rows. pa_active p \<and> pa_campaignId p = ca_id k)"
  using assms
proof (induction xs arbitrary: db rows db')
  case (Cons x xs)
  obtain e i where x: "x = (e, i)" by (cases x)
  define q where "q = \<lparr>pa_id = newPayeeId e, pa_campaignId = ca_id k, pa_coalitionId = co_id c,
     pa_userId = pi_userId i, pa_shareBps = the (js_integer (pi_shareBps i)), pa_role = pi_role i,
     pa_active = True, pa_createdAt = now, pa_updatedAt = now\<rparr>"
  define db1 where "db1 = snd (upsertCoalitionCampaignPayee now q db)"
  obtain rs db2 where r: "save_payees now c k xs db1 = (rs, db2)" by fastforce
  have "rows = fst (upsertCoalitionCampaignPayee now q db) # rs"
    using Cons.prems r by (simp add: x Let_def split_beta q_def [symmetric] db1_def [symmetric])
  with Cons.IH [OF r] show ?case by (simp add: x) (simp add: q_def)
qed simp

lemma map_eq_set_image: "map f xs = map g ys \<Longrightarrow> f ` set xs = g ` set ys"
  by (metis list.set_map)

lemma save_payees_table:
  assumes "save_payees now c k xs db = (rows, db')" and "wf_payees db" and "colon_free (ca_id k)"
    and "distinct (map (\<lambda>x. pi_userId (snd x)) xs)"
  shows "wf_payees db' \<and>
    (\<forall>p \<in> set rows. js_get (payee_key p) (db_payees db') = Some p) \<and>
    (\<forall>u. u \<notin> (\<lambda>x. pi_userId (snd x)) ` set xs \<longrightarrow>
       js_get (pair_key (ca_id k) u) (db_payees db') = js_get (pair_key (ca_id k) u) (db_payees db))"
  using assms
proof (induction xs arbitrary: db rows db')
  case (Cons x xs)
  obtain e i where x: "x = (e, i)" by (cases x)
  define q where "q = \<lparr>pa_id = newPayeeId e, pa_campaignId = ca_id k, pa_coalitionId = co_id c,
     pa_userId = pi_userId i, pa_shareBps = the (js_integer (pi_shareBps i)), pa_role = pi_role i,
     pa_active = True, pa_createdAt = now, pa_updatedAt = now\<rparr>"
  define row where "row = fst (upsertCoalitionCampaignPayee now q db)"
  define db1 where "db1 = snd (upsertCoalitionCampaignPayee now q db)"
  obtain rs db2 where r: "save_payees now c k xs db1 = (rs, db2)" by fastforce
  have eq: "rows = row # rs" "db' = db2"
    using Cons.prems(1) r by (simp_all add: x Let_def split_beta q_def [symmetric] db1_def [symmetric] row_def)
  have wf1: "wf_payees db1" unfolding db1_def using Cons.prems by (intro wf_payees_upsert) (simp_all add: q_def)
  have key: "payee_key row = pair_key (ca_id k) (pi_userId i)" by (simp add: row_def q_def payee_key_def)
  have g1: "js_get (pair_key (ca_id k) u) (db_payees db1) =
      (if u = pi_userId i then Some row else js_get (pair_key (ca_id k) u) (db_payees db))" for u
    using Cons.prems(3)
    by (auto simp: db1_def row_def q_def payee_key_def pair_key_inject colon_free_def)
  have ih: "wf_payees db2" "\<And>p. p \<in> set rs \<Longrightarrow> js_get (payee_key p) (db_payees db2) = Some p"
    "\<And>u. u \<notin> (\<lambda>x. pi_userId (snd x)) ` set xs \<Longrightarrow>
       js_get (pair_key (ca_id k) u) (db_payees db2) = js_get (pair_key (ca_id k) u) (db_payees db1)"
    using Cons.IH [OF r wf1 Cons.prems(3)] Cons.prems(4) by auto
  have "js_get (payee_key row) (db_payees db2) = Some row"
    using ih(3) [of "pi_userId i"] Cons.prems(4) g1 [of "pi_userId i"] by (auto simp: x key)
  with ih g1 show ?case by (auto simp: eq x)
qed simp

lemma shares_of_resolved:
  assumes "campaignPayeeSharesAreValid (map (\<lambda>r. (pi_shareBps r, True)) rs)"
  shows "rs \<noteq> []" and "r \<in> set rs \<Longrightarrow> 0 \<le> the (js_integer (pi_shareBps r))"
    and "sum_list (map (\<lambda>r. the (js_integer (pi_shareBps r))) rs) = 10000"
proof -
  have f: "filter snd (map (\<lambda>r. (pi_shareBps r, True)) rs) = map (\<lambda>r. (pi_shareBps r, True)) rs"
    by (simp add: filter_map o_def)
  show "rs \<noteq> []" "sum_list (map (\<lambda>r. the (js_integer (pi_shareBps r))) rs) = 10000"
    using assms unfolding campaignPayeeSharesAreValid_def f Let_def
    by (auto simp: CAMPAIGN_PAYEE_BPS_DENOMINATOR_def o_def split: if_splits)
  show "0 \<le> the (js_integer (pi_shareBps r))" if "r \<in> set rs"
    using assms that unfolding campaignPayeeSharesAreValid_def f Let_def
    by (fastforce split: if_splits option.splits)
qed

text \<open>Deactivating the stale rows and saving the new ones leaves exactly the new ones active.\<close>

lemma active_after_save:
  assumes wf: "wf_payees db" and cf: "colon_free cid" and k: "ca_id k = cid"
    and du: "distinct (map (\<lambda>x. pi_userId (snd x)) xs)"
    and st: "\<And>x. x \<in> set stale \<longleftrightarrow> x \<in> set (js_values (db_payees db)) \<and> pa_campaignId x = cid \<and> pa_active x \<and>
      pa_userId x \<notin> (\<lambda>x. pi_userId (snd x)) ` set xs"
    and sv: "save_payees now c k xs (fold (deactivate_payee now) stale db) = (rows, db2)"
  shows "wf_payees db2 \<and>
    {p \<in> set (js_values (db_payees db2)). pa_campaignId p = cid \<and> pa_active p} = set rows"
proof -
  define db1 where "db1 = fold (deactivate_payee now) stale db"
  note d1 = deactivate_fold [OF wf, of stale now, folded db1_def]
  have wf1: "wf_payees db1" using d1 st cf by auto
  have t: "wf_payees db2" "\<And>p. p \<in> set rows \<Longrightarrow> js_get (payee_key p) (db_payees db2) = Some p"
    "\<And>u. u \<notin> (\<lambda>x. pi_userId (snd x)) ` set xs \<Longrightarrow>
       js_get (pair_key cid u) (db_payees db2) = js_get (pair_key cid u) (db_payees db1)"
    using save_payees_table [OF sv [folded db1_def] wf1, unfolded k, OF cf du] by blast+
  have d: "\<And>k. k \<notin> payee_key ` set stale \<Longrightarrow> js_get k (db_payees db1) = js_get k (db_payees db)"
    "\<And>k. k \<in> payee_key ` set stale \<Longrightarrow> \<exists>p. js_get k (db_payees db1) = Some p \<and> \<not> pa_active p"
    using d1 st cf by auto
  note r = save_payees_rows [OF sv, unfolded k]
  have ru: "pa_userId ` set rows = (\<lambda>x. pi_userId (snd x)) ` set xs" using r by (metis list.set_map)
  have key: "payee_key p = pair_key cid (pa_userId p)" if "pa_campaignId p = cid" for p
    using that by (simp add: payee_key_def)
  have "p \<in> set rows" if p: "p \<in> set (js_values (db_payees db2))" "pa_campaignId p = cid" "pa_active p" for p
  proof (cases "pa_userId p \<in> (\<lambda>x. pi_userId (snd x)) ` set xs")
    case True
    then obtain q where q: "q \<in> set rows" "pa_userId q = pa_userId p" using ru by (metis imageE)
    then have "payee_key q = payee_key p" using r key p(2) by simp
    moreover have "js_get (payee_key q) (db_payees db2) = Some q" using t(2) q(1) by blast
    moreover have "js_get (payee_key p) (db_payees db2) = Some p" by (rule payee_lookup_key [OF t(1) p(1)])
    ultimately have "q = p" by (metis option.inject)
    with q(1) show ?thesis by blast
  next
    case False
    from payee_lookup_key [OF t(1) p(1)] have g: "js_get (payee_key p) (db_payees db1) = Some p"
      using t(3) [OF False] key [OF p(2)] by simp
    then have ns: "payee_key p \<notin> payee_key ` set stale"
      using d(2) p(3) by fastforce
    then have "js_get (pair_key cid (pa_userId p)) (db_payees db) = Some p"
      using d(1) g key [OF p(2)] by metis
    with payee_lookup [OF wf cf] have "p \<in> set stale" using p False st by blast
    with ns show ?thesis by blast
  qed
  moreover have "p \<in> set (js_values (db_payees db2)) \<and> pa_campaignId p = cid \<and> pa_active p" if "p \<in> set rows" for p
    using that t(2) [OF that] r payee_lookup [OF t(1) cf] key [of p] by simp
  ultimately show ?thesis using t(1) by blast
qed

text \<open>The stored active rows of the campaign are the saved ones, up to order.\<close>

lemma setCampaignPayees_rows:
  assumes "fst (setCampaignPayees now es env s a cid ps db) = Inr saved"
    and "wf_payees db" and "colon_free cid" and "js_table ca_id (db_campaigns db)"
  shows "mset (listCampaignPayees (snd (setCampaignPayees now es env s a cid ps db)) cid) = mset saved \<and>
    saved \<noteq> [] \<and> (\<forall>p \<in> set saved. 0 \<le> pa_shareBps p) \<and> sum_list (map pa_shareBps saved) = 10000"
proof -
  obtain c k rs where
    res: "resolve_payees env db c k [] ps = Inr rs"
    and valid: "campaignPayeeSharesAreValid (map (\<lambda>r. (pi_shareBps r, True)) rs)"
    and k: "getCoalitionCampaign db cid = Some k"
    and eq: "setCampaignPayees now es env s a cid ps db =
      (let stale = filter (\<lambda>x. pa_userId x \<notin> pi_userId ` set rs \<and> pa_active x)
             (listCoalitionCampaignPayees db (Some (ca_id k)) None None);
           db = fold (deactivate_payee now) stale db;
           (saved, db) = save_payees now c k (map (\<lambda>i. (es i, rs ! i)) [0..<length rs]) db;
           db = emit (EmitC (Ev_payees_set (co_id c) (ca_id k) (length saved) a)) db
       in succeed saved db)"
    using assms(1)
    by (auto simp: setCampaignPayees_def fail_def split: option.splits sum.splits if_splits)
  define stale where "stale = filter (\<lambda>x. pa_userId x \<notin> pi_userId ` set rs \<and> pa_active x)
    (listCoalitionCampaignPayees db (Some (ca_id k)) None None)"
  define xs where "xs = map (\<lambda>i. (es i, rs ! i)) [0..<length rs]"
  obtain rows db2 where sv: "save_payees now c k xs (fold (deactivate_payee now) stale db) = (rows, db2)"
    by fastforce
  then have db': "db_payees (snd (setCampaignPayees now es env s a cid ps db)) = db_payees db2" and "rows = saved"
    using assms(1) unfolding eq by (simp_all add: Let_def succeed_def stale_def xs_def)
  note sv = sv [unfolded this(2)]
  have cid: "ca_id k = cid" using k js_table_lookup [OF assms(4)] by (auto simp: getCoalitionCampaign_def)
  have xs: "map snd xs = rs" by (simp add: xs_def o_def map_nth)
  have users: "map (\<lambda>x. pi_userId (snd x)) xs = map pi_userId rs"
    and shares: "map (\<lambda>x. the (js_integer (pi_shareBps (snd x)))) xs = map (\<lambda>r. the (js_integer (pi_shareBps r))) rs"
    by (subst xs [symmetric], simp add: o_def)+
  have du: "distinct (map pi_userId rs)" using resolve_payees_distinct [OF res] by simp
  have "x \<in> set stale \<longleftrightarrow> x \<in> set (js_values (db_payees db)) \<and> pa_campaignId x = cid \<and> pa_active x \<and>
      pa_userId x \<notin> (\<lambda>x. pi_userId (snd x)) ` set xs" for x
    using assms(3) users by (auto simp: stale_def listCoalitionCampaignPayees_def cid colon_free_def dest: map_eq_set_image)
  note ac = active_after_save [OF assms(2,3) cid _ this sv, unfolded users, OF du]
  let ?l = "listCampaignPayees (snd (setCampaignPayees now es env s a cid ps db)) cid"
  note r = save_payees_rows [OF sv, unfolded users shares]
  have "set ?l = set saved"
    using ac assms(3) by (auto simp: listCampaignPayees_def listCoalitionCampaignPayees_def db' colon_free_def)
  moreover have "distinct ?l"
    using ac payee_rows.wf_distinct
    by (auto simp: wf_payees_def distinct_map listCampaignPayees_def listCoalitionCampaignPayees_def db')
  moreover have "distinct saved" using r du by (metis distinct_map)
  ultimately have "mset ?l = mset saved" by (simp add: set_eq_iff_mset_eq_distinct)
  moreover have "0 \<le> pa_shareBps p" if "p \<in> set saved" for p
  proof -
    have "pa_shareBps p \<in> (\<lambda>r. the (js_integer (pi_shareBps r))) ` set rs"
      using that r by (metis imageI list.set_map)
    then show ?thesis using shares_of_resolved(2) [OF valid] by auto
  qed
  ultimately show ?thesis
    using r shares_of_resolved(1,3) [OF valid] by auto
qed

text \<open>
  C32: agreed shares always divide the whole.  After a successful \<open>setCampaignPayees\<close>
  the stored active shares of the campaign are valid, so every later positive
  contribution is split among them to the cent.
\<close>

theorem setCampaignPayees_shares_valid:
  assumes "fst (setCampaignPayees now es env s a cid ps db) = Inr saved"
    and "wf_payees db" and "colon_free cid" and "js_table ca_id (db_campaigns db)"
  shows "campaignPayeeSharesAreValid
      (payee_shares (listCampaignPayees (snd (setCampaignPayees now es env s a cid ps db)) cid))"
proof -
  let ?l = "listCampaignPayees (snd (setCampaignPayees now es env s a cid ps db)) cid"
  note m = setCampaignPayees_rows [OF assms]
  have "set ?l = set saved" using m by (metis set_mset_mset)
  moreover have "sum_list (map pa_shareBps ?l) = sum_list (map pa_shareBps saved)"
    using m by (metis mset_map sum_mset_sum_list)
  moreover have "filter pa_active ?l = ?l" by (simp add: listCampaignPayees_def)
  ultimately show ?thesis
    using m by (auto simp: payee_shares_valid Let_def)
qed

lemma setCampaignPayees_shares_valid_witness:
  "let env = \<lparr>env_homeserver = None, env_boostAllowance = None, env_entitlements = None\<rparr>;
       db = sample_drive_db\<lparr>db_users := map (\<lambda>i. (i, sample_user\<lparr>us_id := i, us_username := i\<rparr>)) [''ana'', ''bo'']\<rparr>;
       run = setCampaignPayees ''2026-02-01T10:00:00.000Z'' (\<lambda>i. (show_nat i, ''x'')) env ''food'' ''ana'' ''k1''
               [\<lparr>pi_userId = ''ana'', pi_shareBps = Fin 2500, pi_role = ''cook''\<rparr>,
                \<lparr>pi_userId = ''bo'', pi_shareBps = Fin 7500, pi_role = ''driver''\<rparr>] db
   in isl (fst run) = False \<and> campaignPayeeSharesAreValid (payee_shares (listCampaignPayees (snd run) ''k1''))"
proof -
  define env where "env = \<lparr>env_homeserver = None, env_boostAllowance = None, env_entitlements = None\<rparr>"
  define db where "db = sample_drive_db\<lparr>db_users := map (\<lambda>i. (i, sample_user\<lparr>us_id := i, us_username := i\<rparr>)) [''ana'', ''bo'']\<rparr>"
  define ps where "ps = [\<lparr>pi_userId = ''ana'', pi_shareBps = Fin 2500, pi_role = ''cook''\<rparr>,
                \<lparr>pi_userId = ''bo'', pi_shareBps = Fin 7500, pi_role = ''driver''\<rparr>]"
  let ?run = "setCampaignPayees ''2026-02-01T10:00:00.000Z'' (\<lambda>i. (show_nat i, ''x'')) env ''food'' ''ana'' ''k1'' ps db"
  have ok: "isl (fst ?run) = False" unfolding env_def db_def ps_def by code_simp
  then obtain saved where "fst ?run = Inr saved" by (cases "fst ?run") auto
  moreover have "wf_payees db" by (simp add: wf_payees_def db_def sample_defs js_table_def js_keys_def js_values_def)
  moreover have "colon_free ''k1''" by (simp add: colon_free_def)
  moreover have "js_table ca_id (db_campaigns db)" by (simp add: db_def sample_defs js_table_def js_keys_def)
  ultimately have "campaignPayeeSharesAreValid (payee_shares (listCampaignPayees (snd ?run) ''k1''))"
    by (rule setCampaignPayees_shares_valid)
  with ok show ?thesis by (simp add: Let_def env_def db_def ps_def)
qed

end
