(* ===== verification/Tips.thy ===== *)
theory Tips
  imports Coalition_Db
begin

text \<open>
  Tips, the one record every monetary flow rides on (\<^verbatim>\<open>services/tips.ts\<close>):
  creation and refund.  Capture is in \<open>Tip_Capture\<close>, after the drives it advances.
  A tip view copies every field of the row, so it is the row.
\<close>

definition DEFAULT_PROVIDER :: MarketplaceProviderId where
  "DEFAULT_PROVIDER = Freeblackmarket"

definition MIN_TIP_CENTS :: int where
  "MIN_TIP_CENTS = 100"

definition MAX_TIP_CENTS :: int where
  "MAX_TIP_CENTS = 1000000"

definition MAX_NOTE_LEN :: nat where
  "MAX_NOTE_LEN = 280"

text \<open>\<open>Range_error\<close> is what \<^verbatim>\<open>computePlatformCommission\<close> throws.\<close>

datatype TipValidationError =
    Self_tip_forbidden | Recipient_unknown | Amount_below_floor | Amount_above_ceiling
  | Invalid_currency | Note_too_long | Duplicate_order | Range_error

record CreateTipInput =
  ct_senderUserId :: ident
  ct_recipientUserId :: ident
  ct_contextKind :: TipContextKind
  ct_contextRef :: "string option"
  ct_grossCents :: js_number
  ct_currency :: string
  ct_note :: "string option"
  ct_giftSku :: "string option"
  ct_providerId :: "MarketplaceProviderId option"
  ct_feeBpsOverride :: "js_number option"
  ct_fbmOrderId :: "string option"
  ct_metadata :: "(string \<times> js_value) list option"

text \<open>
  \<^verbatim>\<open>trim\<close> and \<^verbatim>\<open>toUpperCase\<close> below U+0100.  The two letters whose capital
  is above U+00FF stay as they are; the pattern that follows rejects them either way.
\<close>

definition js_trim :: "string \<Rightarrow> string" where
  "js_trim s = rev (dropWhile js_space (rev (dropWhile js_space s)))"

definition to_upper_char :: "char \<Rightarrow> string" where
  "to_upper_char c =
     (let n = (of_char c :: nat)
      in if (97 \<le> n \<and> n \<le> 122) \<or> (224 \<le> n \<and> n \<le> 254 \<and> n \<noteq> 247) then [char_of (n - 32)]
         else if n = 223 then ''SS'' else [c])"

definition toUpperCase :: "string \<Rightarrow> string" where
  "toUpperCase s = concat (map to_upper_char s)"

definition currency_ok :: "string \<Rightarrow> bool" where
  "currency_ok c \<longleftrightarrow> 3 \<le> length c \<and> length c \<le> 8 \<and> (\<forall>x \<in> set c. is_upper x)"

text \<open>\<open>tipId\<close> is the random UUID of the new row.\<close>

definition createTip ::
    "iso \<Rightarrow> ident \<Rightarrow> CreateTipInput \<Rightarrow> CoalitionDb \<Rightarrow> (TipValidationError + TipRecord) \<times> CoalitionDb" where
  "createTip now tipId input db =
     (if ct_senderUserId input = ct_recipientUserId input then (Inl Self_tip_forbidden, db)
      else if getUserById (db_users db) (ct_recipientUserId input) = None then (Inl Recipient_unknown, db)
      else case js_integer (ct_grossCents input) of
             None \<Rightarrow> (Inl Amount_below_floor, db)
           | Some gross \<Rightarrow>
               if gross < MIN_TIP_CENTS then (Inl Amount_below_floor, db)
               else if gross > MAX_TIP_CENTS then (Inl Amount_above_ceiling, db)
               else let currency = toUpperCase (js_trim (ct_currency input))
                    in if \<not> currency_ok currency then (Inl Invalid_currency, db)
                       else if truthy (ct_note input) \<and> length (the (ct_note input)) > MAX_NOTE_LEN
                       then (Inl Note_too_long, db)
                       else let providerId = (case ct_providerId input of Some p \<Rightarrow> p | None \<Rightarrow> DEFAULT_PROVIDER)
                            in case computePlatformCommission (ct_grossCents input) providerId (ct_feeBpsOverride input) of
                                 None \<Rightarrow> (Inl Range_error, db)
                               | Some split \<Rightarrow>
                                   if truthy (ct_fbmOrderId input) \<and>
                                      findTipByOrderId db providerId (the (ct_fbmOrderId input)) \<noteq> None
                                   then (Inl Duplicate_order, db)
                                   else let row = \<lparr>ti_id = tipId, ti_senderUserId = ct_senderUserId input,
                                              ti_recipientUserId = ct_recipientUserId input,
                                              ti_contextKind = ct_contextKind input,
                                              ti_contextRef = ct_contextRef input,
                                              ti_grossCents = ps_grossCents split,
                                              ti_feeCents = ps_feeCents split, ti_netCents = ps_netCents split,
                                              ti_feeBps = ps_feeBps split, ti_currency = currency,
                                              ti_providerId = providerId, ti_fbmOrderId = ct_fbmOrderId input,
                                              ti_status = Tip_pending, ti_note = ct_note input,
                                              ti_giftSku = ct_giftSku input, ti_createdAt = now,
                                              ti_capturedAt = None, ti_refundedAt = None,
                                              ti_metadata = ct_metadata input\<rparr>
                                        in (Inr row, insertTip row db))"

definition refundTip :: "iso \<Rightarrow> ident \<Rightarrow> CoalitionDb \<Rightarrow> TipRecord option \<times> CoalitionDb" where
  "refundTip now tipId db =
     (case getTip_db db tipId of
        None \<Rightarrow> (None, db)
      | Some existing \<Rightarrow>
          if ti_status existing = Tip_refunded then (Some existing, db)
          else let updated = existing\<lparr>ti_status := Tip_refunded, ti_refundedAt := Some now\<rparr>;
                   db = updateTip updated db;
                   db = emit (EmitT (Ev_tip_refunded updated)) db
               in (Some updated, db))"

section \<open>Properties\<close>

text \<open>What a stored tip satisfies.\<close>

definition tip_ok :: "TipRecord \<Rightarrow> bool" where
  "tip_ok t \<longleftrightarrow> ti_feeCents t + ti_netCents t = ti_grossCents t \<and> 0 \<le> ti_feeCents t \<and> 0 \<le> ti_netCents t \<and>
     0 \<le> ti_feeBps t \<and> ti_feeBps t \<le> 10000 \<and>
     ti_feeCents t = js_round_div (ti_grossCents t * ti_feeBps t) 10000 \<and>
     ti_senderUserId t \<noteq> ti_recipientUserId t"

lemma commission_split_facts:
  assumes "computePlatformCommission g p ov = Some s"
  shows "ps_feeCents s + ps_netCents s = ps_grossCents s" "0 \<le> ps_feeCents s" "0 \<le> ps_netCents s"
proof -
  note r = commission_bps_range [OF assms] and f = commission_fee [OF assms]
  show "ps_feeCents s + ps_netCents s = ps_grossCents s"
    using assms by (auto simp: computePlatformCommission_def Let_def split: option.splits if_splits)
  moreover show "0 \<le> ps_feeCents s" unfolding f using r by (intro js_round_div_nonneg) auto
  moreover have "ps_feeCents s \<le> js_round_div (ps_grossCents s * 10000) 10000"
    unfolding f using r by (intro js_round_div_mono mult_left_mono) auto
  ultimately show "0 \<le> ps_netCents s" by (simp add: js_round_div_mult)
qed

lemma tip_ok_of_split:
  assumes "computePlatformCommission g p ov = Some s" and "ti_grossCents t = ps_grossCents s"
    and "ti_feeCents t = ps_feeCents s" and "ti_netCents t = ps_netCents s" and "ti_feeBps t = ps_feeBps s"
    and "ti_senderUserId t \<noteq> ti_recipientUserId t"
  shows "tip_ok t"
  using commission_split_facts [OF assms(1)] commission_bps_range [OF assms(1)] commission_fee [OF assms(1)] assms(2-)
  by (simp add: tip_ok_def)

lemma createTip_Inl: "createTip now tid input db = (Inl err, db') \<Longrightarrow> db' = db"
  by (auto simp: createTip_def Let_def split: if_splits option.splits)

lemma createTip_Inr:
  assumes "createTip now tid input db = (Inr t, db')"
  shows "db' = insertTip t db \<and> ti_id t = tid \<and> ti_recipientUserId t = ct_recipientUserId input \<and>
    ti_senderUserId t = ct_senderUserId input \<and> ti_status t = Tip_pending \<and>
    ti_contextKind t = ct_contextKind input \<and> ti_contextRef t = ct_contextRef input \<and>
    (\<forall>b. ct_feeBpsOverride input = Some (Fin (of_int b)) \<longrightarrow> ti_feeBps t = b)"
  using assms
  by (auto simp: createTip_def Let_def computePlatformCommission_def split: if_splits option.splits)

lemma createTip_tip_ok: "createTip now tid input db = (Inr t, db') \<Longrightarrow> tip_ok t"
  by (auto simp: createTip_def Let_def split: if_splits option.splits intro: tip_ok_of_split)

text \<open>
  C28: a recorded tip is within its limits.  When a tip is created, it is pending, its
  amount is between one dollar and ten thousand dollars, its split adds up, sender and
  recipient differ, the recipient exists, and the row is stored; on every error the
  database is unchanged.
\<close>

theorem createTip_within_limits:
  "case createTip now tid input db of
     (Inl err, db') \<Rightarrow> db' = db
   | (Inr t, db') \<Rightarrow>
       tip_ok t \<and> 100 \<le> ti_grossCents t \<and> ti_grossCents t \<le> 1000000 \<and> ti_status t = Tip_pending \<and>
       getUserById (db_users db) (ti_recipientUserId t) \<noteq> None \<and> getTip_db db' tid = Some t"
proof -
  have g: "ps_grossCents s = n" if "computePlatformCommission g p ov = Some s" "js_integer g = Some n" for g p ov s n
    using that by (auto simp: computePlatformCommission_def Let_def split: if_splits)
  show ?thesis
    by (auto simp: createTip_def Let_def getTip_db_def MIN_TIP_CENTS_def MAX_TIP_CENTS_def g
        split: option.splits intro: tip_ok_of_split)
qed

end
