(* ===== verification/Coalition_Drives.thy ===== *)
theory Coalition_Drives
  imports Coalition_Campaigns Tips
begin

text \<open>
  The money leg of a campaign (\<^verbatim>\<open>services/coalitionDrives.ts\<close>): quoting the
  commission, starting a contribution, recording it on capture, and publishing and
  withdrawing a drive's listing.

  The marketplace provider is outside the program; \<open>MarketplaceProvider\<close> is the
  interface the code calls.  A call that throws answers \<open>None\<close> (or \<open>Inl\<close>, with
  the status the code reads).  Publishing and withdrawing await the provider between two
  reads of the database, so each is a first and a second half: anything may run between
  them.
\<close>

definition COALITION_COMMISSION_BPS :: int where
  "COALITION_COMMISSION_BPS = 300"

record MarketplaceProvider =
  mp_enabled :: bool
  mp_embeddedCheckout :: bool
  mp_getListingFeeBps :: "(ident \<Rightarrow> js_number option option) option"
  mp_createCreatorListing :: "(ident \<Rightarrow> CoalitionCampaign \<Rightarrow> int option + ident) option"
  mp_publishCreatorListing :: "(ident \<Rightarrow> ident \<Rightarrow> int option + unit) option"
  mp_archiveCreatorListing :: "(ident \<Rightarrow> ident \<Rightarrow> unit option) option"
  mp_createCheckoutSession :: "ident \<Rightarrow> ident \<Rightarrow> int \<Rightarrow> string \<Rightarrow> (string \<times> string) option"

section \<open>Commission\<close>

definition assertFlatCommission :: "MarketplaceProviderId \<Rightarrow> bool" where
  "assertFlatCommission providerId \<longleftrightarrow>
     fs_feeBps (marketplaceProviderFees providerId) \<le> COALITION_COMMISSION_BPS"

definition commissionWithinCeiling :: "js_number \<Rightarrow> bool" where
  "commissionWithinCeiling bps =
     (case js_integer bps of None \<Rightarrow> False | Some n \<Rightarrow> 0 \<le> n \<and> n \<le> COALITION_COMMISSION_BPS)"

definition quoteCommissionBps :: "MarketplaceProvider option \<Rightarrow> ident option \<Rightarrow> int option" where
  "quoteCommissionBps provider listingId =
     (if \<not> truthy listingId then Some COALITION_COMMISSION_BPS
      else case provider of
             None \<Rightarrow> Some COALITION_COMMISSION_BPS
           | Some p \<Rightarrow>
               if \<not> mp_enabled p then Some COALITION_COMMISSION_BPS
               else case mp_getListingFeeBps p of
                      None \<Rightarrow> Some COALITION_COMMISSION_BPS
                    | Some getListingFeeBps \<Rightarrow>
                        (case getListingFeeBps (the listingId) of
                           Some (Some quoted) \<Rightarrow>
                             if commissionWithinCeiling quoted then js_integer quoted else None
                         | _ \<Rightarrow> Some COALITION_COMMISSION_BPS))"

record ContributionSplit =
  sp_grossCents :: int
  sp_feeCents :: int
  sp_netCents :: int
  sp_feeBps :: int

text \<open>\<open>None\<close> is a thrown error: a bad amount, or a fee table above the ceiling.\<close>

definition previewContribution ::
    "MarketplaceProvider option \<Rightarrow> js_number \<Rightarrow> ident option \<Rightarrow> ContributionSplit option" where
  "previewContribution provider grossCents listingId =
     (if \<not> assertFlatCommission DEFAULT_PROVIDER then None
      else let bps = (case quoteCommissionBps provider listingId of
                        Some b \<Rightarrow> b | None \<Rightarrow> COALITION_COMMISSION_BPS)
           in map_option (\<lambda>split. \<lparr>sp_grossCents = ps_grossCents split, sp_feeCents = ps_feeCents split,
                                   sp_netCents = ps_netCents split, sp_feeBps = ps_feeBps split\<rparr>)
                (computePlatformCommission grossCents DEFAULT_PROVIDER (Some (Fin (of_int bps)))))"

section \<open>Starting a contribution\<close>

record StartContributionInput =
  sc_campaign :: CoalitionCampaign
  sc_supporterUserId :: ident
  sc_beneficiaryUserId :: "ident option"
  sc_grossCents :: js_number
  sc_currency :: "string option"
  sc_note :: "string option"
  sc_embed :: "bool option"

record StartContributionResult =
  sr_tip :: "TipRecord option"
  sr_split :: ContributionSplit
  sr_redirectUrl :: "string option"
  sr_sessionId :: "string option"
  sr_embed :: bool
  sr_checkoutError :: "string option"

definition refused ::
    "string \<Rightarrow> ContributionSplit option \<Rightarrow> CoalitionDb \<Rightarrow>
     (TipValidationError + StartContributionResult) \<times> CoalitionDb" where
  "refused reason split db =
     (case split of
        None \<Rightarrow> (Inl Range_error, db)
      | Some sp \<Rightarrow> (Inr \<lparr>sr_tip = None, sr_split = sp, sr_redirectUrl = None, sr_sessionId = None,
                        sr_embed = False, sr_checkoutError = Some reason\<rparr>, db))"

fun campaignType_tag :: "CampaignType \<Rightarrow> string" where
  "campaignType_tag Drive = ''drive''"
| "campaignType_tag Project = ''project''"
| "campaignType_tag Boost_campaign = ''boost''"
| "campaignType_tag Mutual_aid = ''mutual_aid''"
| "campaignType_tag Goods_drive = ''goods_drive''"

text \<open>The parts of \<open>startContribution\<close>: whom the money is for, the tip, and the checkout.\<close>

definition contribution_beneficiary :: "StartContributionInput \<Rightarrow> ident option" where
  "contribution_beneficiary input =
     (case sc_beneficiaryUserId input of
        Some b \<Rightarrow> Some b
      | None \<Rightarrow> (case ca_beneficiaryUserId (sc_campaign input) of
                   Some b \<Rightarrow> Some b | None \<Rightarrow> ca_createdBy (sc_campaign input)))"

definition contribution_payable :: "CoalitionDb \<Rightarrow> StartContributionInput \<Rightarrow> bool" where
  "contribution_payable db input \<longleftrightarrow>
     \<not> (ca_type (sc_campaign input) = Mutual_aid \<and> \<not> truthy (ca_beneficiaryUserId (sc_campaign input))) \<and>
     (case contribution_beneficiary input of None \<Rightarrow> False | Some b \<Rightarrow> getUserById (db_users db) b \<noteq> None)"

definition contribution_tip :: "StartContributionInput \<Rightarrow> int \<Rightarrow> CreateTipInput" where
  "contribution_tip input feeBps =
     (let campaign = sc_campaign input
      in \<lparr>ct_senderUserId = sc_supporterUserId input,
          ct_recipientUserId = the (contribution_beneficiary input),
          ct_contextKind = Ctx_coalition_drive, ct_contextRef = Some (ca_id campaign),
          ct_grossCents = sc_grossCents input,
          ct_currency = (case sc_currency input of Some c \<Rightarrow> c | None \<Rightarrow> ''USD''),
          ct_note = sc_note input, ct_giftSku = None, ct_providerId = None,
          ct_feeBpsOverride = Some (Fin (of_int feeBps)), ct_fbmOrderId = None,
          ct_metadata = Some [(''coalitionId'', JString (ca_coalitionId campaign)),
            (''campaignId'', JString (ca_id campaign)),
            (''campaignType'', JString (campaignType_tag (ca_type campaign)))]\<rparr>)"

definition open_checkout ::
    "MarketplaceProvider \<Rightarrow> StartContributionInput \<Rightarrow> ident \<Rightarrow> int \<Rightarrow> TipRecord \<Rightarrow> CoalitionDb \<Rightarrow>
     (TipValidationError + StartContributionResult) \<times> CoalitionDb" where
  "open_checkout p input listing feeBps tip db =
     (let split = \<lparr>sp_grossCents = ti_grossCents tip, sp_feeCents = ti_feeCents tip,
                   sp_netCents = ti_netCents tip, sp_feeBps = feeBps\<rparr>;
          embed = (sc_embed input = Some True \<and> mp_embeddedCheckout p);
          key = ''coalition-drive:'' @ ti_id tip;
          db = emit (Provider (Open_checkout (sc_supporterUserId input) listing (ti_grossCents tip) key)) db
      in case mp_createCheckoutSession p (sc_supporterUserId input) listing (ti_grossCents tip) key of
           Some (url, session) \<Rightarrow>
             (Inr \<lparr>sr_tip = Some tip, sr_split = split, sr_redirectUrl = Some url, sr_sessionId = Some session,
                   sr_embed = embed, sr_checkoutError = None\<rparr>, db)
         | None \<Rightarrow>
             (Inr \<lparr>sr_tip = Some tip, sr_split = split, sr_redirectUrl = None, sr_sessionId = None,
                   sr_embed = False, sr_checkoutError = Some ''checkout_unavailable''\<rparr>, db))"

definition startContribution ::
    "iso \<Rightarrow> ident \<Rightarrow> MarketplaceProvider option \<Rightarrow> StartContributionInput \<Rightarrow> CoalitionDb \<Rightarrow>
     (TipValidationError + StartContributionResult) \<times> CoalitionDb" where
  "startContribution now tipId provider input db =
     (let campaign = sc_campaign input; listing = ca_fbmListingId campaign
      in if \<not> assertFlatCommission DEFAULT_PROVIDER then (Inl Range_error, db)
         else case provider of
           None \<Rightarrow> refused (if truthy listing then ''provider_unavailable'' else ''no_listing'')
                     (previewContribution provider (sc_grossCents input) listing) db
         | Some p \<Rightarrow>
             if \<not> mp_enabled p \<or> \<not> truthy listing
             then refused (if truthy listing then ''provider_unavailable'' else ''no_listing'')
                    (previewContribution provider (sc_grossCents input) listing) db
             else case quoteCommissionBps provider listing of
                    None \<Rightarrow> refused ''commission_above_ceiling''
                              (previewContribution provider (sc_grossCents input) None) db
                  | Some feeBps \<Rightarrow>
                      if \<not> contribution_payable db input
                      then refused ''no_beneficiary''
                             (previewContribution provider (sc_grossCents input) listing) db
                      else case createTip now tipId (contribution_tip input feeBps) db of
                             (Inl err, db) \<Rightarrow> (Inl err, db)
                           | (Inr tip, db) \<Rightarrow> open_checkout p input (the listing) feeBps tip db)"

section \<open>Recording a captured contribution\<close>

definition newContributionId :: "entropy \<Rightarrow> ident" where
  "newContributionId e = new_id ''coac'' e"

record RecordContributionInput =
  rc_campaignId :: ident
  rc_supporterUserId :: ident
  rc_tipId :: ident
  rc_amountCents :: int
  rc_currency :: string

definition recordContribution ::
    "iso \<Rightarrow> entropy \<Rightarrow> RecordContributionInput \<Rightarrow> CoalitionDb \<Rightarrow>
     (CoalitionCampaign \<times> CoalitionCampaignContribution) option \<times> CoalitionDb" where
  "recordContribution now e input db =
     (case getCoalitionCampaign db (rc_campaignId input) of
        None \<Rightarrow> (None, db)
      | Some campaign \<Rightarrow>
          (case findCoalitionCampaignContributionByTip db (rc_tipId input) of
             Some existing \<Rightarrow> (Some (campaign, existing), db)
           | None \<Rightarrow>
               (let (contribution, db) = upsertCoalitionCampaignContribution now
                      \<lparr>cn_id = newContributionId e, cn_campaignId = ca_id campaign,
                       cn_coalitionId = ca_coalitionId campaign, cn_supporterUserId = rc_supporterUserId input,
                       cn_tipId = rc_tipId input, cn_amountCents = rc_amountCents input,
                       cn_currency = rc_currency input, cn_createdAt = now, cn_updatedAt = now\<rparr> db;
                    priorSupporters = map cn_supporterUserId
                      (filter (\<lambda>row. cn_id row \<noteq> cn_id contribution)
                        (listCoalitionCampaignContributions db (Some (ca_id campaign)) None None));
                    (updated, db) = upsertCoalitionCampaign now
                      (campaign\<lparr>ca_raisedCents := ca_raisedCents campaign + rc_amountCents input,
                        ca_contributorCount := (if rc_supporterUserId input \<in> set priorSupporters
                          then ca_contributorCount campaign else ca_contributorCount campaign + 1)\<rparr>) db;
                    db = emit (Job (Award_karma Drive_contributed (rc_supporterUserId input)
                           (ca_coalitionId campaign) (rc_tipId input))) db;
                    payees = filter pa_active (listCoalitionCampaignPayees db (Some (ca_id campaign)) None None);
                    allocation = allocatePayeeCents (rc_amountCents input) payees;
                    db = emit (EmitC (Ev_contribution_recorded contribution (ca_raisedCents updated)
                           (case ca_beneficiaryUserId campaign of Some b \<Rightarrow> b
                            | None \<Rightarrow> (case ca_createdBy campaign of Some c \<Rightarrow> c | None \<Rightarrow> [])) allocation)) db;
                    db = (case ca_goalCents updated of
                            Some goal \<Rightarrow>
                              if goal \<noteq> 0 \<and> ca_raisedCents updated \<ge> goal \<and> ca_raisedCents campaign < goal
                              then emit (EmitC (Ev_goal_reached (ca_coalitionId campaign) (ca_id campaign) goal
                                     (ca_raisedCents updated) now)) db
                              else db
                          | None \<Rightarrow> db)
                in (Some (updated, contribution), db))))"

definition listContributions :: "CoalitionDb \<Rightarrow> ident \<Rightarrow> (ident \<times> int \<times> string \<times> iso) list" where
  "listContributions db campaignId =
     map (\<lambda>row. (cn_supporterUserId row, cn_amountCents row, cn_currency row, cn_createdAt row))
       (js_sort (\<lambda>a b. iso_le (cn_createdAt b) (cn_createdAt a))
         (listCoalitionCampaignContributions db (Some campaignId) None None))"

section \<open>Listings\<close>

definition driveBeneficiary :: "CoalitionCampaign \<Rightarrow> ident option" where
  "driveBeneficiary campaign =
     (if ca_type campaign = Mutual_aid then ca_beneficiaryUserId campaign
      else case ca_beneficiaryUserId campaign of Some b \<Rightarrow> Some b | None \<Rightarrow> ca_createdBy campaign)"

text \<open>The first half: checks and provider calls.  It yields the id of a published listing.\<close>

definition ensureDriveListing_call ::
    "MarketplaceProvider option \<Rightarrow> CoalitionCampaign \<Rightarrow> CoalitionDb \<Rightarrow> ident option \<times> CoalitionDb" where
  "ensureDriveListing_call provider campaign db =
     (if truthy (ca_fbmListingId campaign) then (None, db)
      else if ca_status campaign \<noteq> Camp_active then (None, db)
      else if ca_type campaign \<noteq> Drive \<and> ca_type campaign \<noteq> Mutual_aid then (None, db)
      else case driveBeneficiary campaign of
             None \<Rightarrow> (None, db)
           | Some beneficiary \<Rightarrow>
               if beneficiary = [] \<or> getUserById (db_users db) beneficiary = None then (None, db)
               else case provider of
                      None \<Rightarrow> (None, db)
                    | Some p \<Rightarrow>
                        if \<not> mp_enabled p then (None, db)
                        else case (mp_createCreatorListing p, mp_publishCreatorListing p) of
                               (Some createListing, Some publish) \<Rightarrow>
                                 (let db = emit (Provider (Create_listing beneficiary (ca_id campaign))) db
                                  in case createListing beneficiary campaign of
                                       Inl _ \<Rightarrow> (None, db)
                                     | Inr listing \<Rightarrow>
                                         (let db = emit (Provider (Publish_listing listing beneficiary)) db
                                          in case publish listing beneficiary of
                                               Inl _ \<Rightarrow> (None, db)
                                             | Inr _ \<Rightarrow> (Some listing, db)))
                             | _ \<Rightarrow> (None, db))"

text \<open>The second half, on the database as it is then.\<close>

definition ensureDriveListing_store ::
    "iso \<Rightarrow> CoalitionCampaign \<Rightarrow> ident \<Rightarrow> CoalitionDb \<Rightarrow> CoalitionDb" where
  "ensureDriveListing_store now campaign listing db =
     (case getCoalitionCampaign db (ca_id campaign) of
        None \<Rightarrow> db
      | Some current \<Rightarrow>
          if ca_status current \<noteq> Camp_active \<or> truthy (ca_fbmListingId current) then db
          else snd (upsertCoalitionCampaign now (current\<lparr>ca_fbmListingId := Some listing\<rparr>) db))"

definition archiveDriveListing_call ::
    "MarketplaceProvider option \<Rightarrow> CoalitionCampaign \<Rightarrow> CoalitionDb \<Rightarrow> ident option \<times> CoalitionDb" where
  "archiveDriveListing_call provider campaign db =
     (if \<not> truthy (ca_fbmListingId campaign) then (None, db)
      else let listing = the (ca_fbmListingId campaign);
               db = (case (provider, driveBeneficiary campaign) of
                       (Some p, Some beneficiary) \<Rightarrow>
                         if mp_enabled p \<and> mp_archiveCreatorListing p \<noteq> None \<and> beneficiary \<noteq> []
                         then emit (Provider (Archive_listing listing beneficiary)) db else db
                     | _ \<Rightarrow> db)
           in (Some listing, db))"

definition archiveDriveListing_store ::
    "iso \<Rightarrow> CoalitionCampaign \<Rightarrow> ident \<Rightarrow> CoalitionDb \<Rightarrow> CoalitionDb" where
  "archiveDriveListing_store now campaign listing db =
     (case getCoalitionCampaign db (ca_id campaign) of
        None \<Rightarrow> db
      | Some current \<Rightarrow>
          if ca_fbmListingId current \<noteq> Some listing then db
          else snd (upsertCoalitionCampaign now (current\<lparr>ca_fbmListingId := None\<rparr>) db))"

definition archiveDriveListing ::
    "iso \<Rightarrow> MarketplaceProvider option \<Rightarrow> CoalitionCampaign \<Rightarrow> CoalitionDb \<Rightarrow> CoalitionDb" where
  "archiveDriveListing now provider campaign db =
     (case archiveDriveListing_call provider campaign db of
        (None, db) \<Rightarrow> db
      | (Some listing, db) \<Rightarrow> archiveDriveListing_store now campaign listing db)"

text \<open>The background job of a takedown or an archive, of \<^verbatim>\<open>coalitionNetworkStore.ts\<close>.\<close>

definition withdrawCoalitionListings ::
    "iso \<Rightarrow> MarketplaceProvider option \<Rightarrow> ident \<Rightarrow> CoalitionDb \<Rightarrow> CoalitionDb" where
  "withdrawCoalitionListings now provider coalitionId db =
     fold (\<lambda>campaign db. if truthy (ca_fbmListingId campaign)
                         then archiveDriveListing now provider campaign db else db)
       (listCoalitionCampaigns db (Some coalitionId) None None) db"

section \<open>The contribution ledger\<close>

definition raised_of :: "CoalitionDb \<Rightarrow> ident \<Rightarrow> int" where
  "raised_of db c = sum_list (map cn_amountCents (filter (\<lambda>r. cn_campaignId r = c) (js_values (db_contributions db))))"

definition supporters_of :: "CoalitionDb \<Rightarrow> ident \<Rightarrow> ident set" where
  "supporters_of db c = cn_supporterUserId ` {r \<in> set (js_values (db_contributions db)). cn_campaignId r = c}"

text \<open>
  The totals on a campaign are those of its contribution rows, and a tip has at most one
  row.
\<close>

definition ledger_ok :: "CoalitionDb \<Rightarrow> bool" where
  "ledger_ok db \<longleftrightarrow> js_table ca_id (db_campaigns db) \<and> js_table cn_id (db_contributions db) \<and>
     distinct (map cn_tipId (js_values (db_contributions db))) \<and>
     (\<forall>k \<in> set (js_values (db_campaigns db)). ca_id k \<noteq> [] \<and> ca_raisedCents k = raised_of db (ca_id k) \<and>
        ca_contributorCount k = int (card (supporters_of db (ca_id k)))) \<and>
     (\<forall>r \<in> set (js_values (db_contributions db)). \<exists>k \<in> set (js_values (db_campaigns db)). ca_id k = cn_campaignId r)"

lemma ledger_cong:
  "db_campaigns db' = db_campaigns db \<Longrightarrow> db_contributions db' = db_contributions db \<Longrightarrow> ledger_ok db' = ledger_ok db"
  by (simp add: ledger_ok_def raised_of_def supporters_of_def)

text \<open>The state a recorded contribution reaches, before the effects.\<close>

definition new_row :: "iso \<Rightarrow> entropy \<Rightarrow> RecordContributionInput \<Rightarrow> CoalitionCampaign \<Rightarrow> CoalitionCampaignContribution" where
  "new_row now e input k =
     \<lparr>cn_id = newContributionId e, cn_campaignId = ca_id k, cn_coalitionId = ca_coalitionId k,
      cn_supporterUserId = rc_supporterUserId input, cn_tipId = rc_tipId input,
      cn_amountCents = rc_amountCents input, cn_currency = rc_currency input, cn_createdAt = now, cn_updatedAt = now\<rparr>"

lemma recordContribution_tables:
  assumes "getCoalitionCampaign db (rc_campaignId input) = Some k"
    and "findCoalitionCampaignContributionByTip db (rc_tipId input) = None"
    and "js_get (newContributionId e) (db_contributions db) = None" and "ca_id k \<noteq> []"
  obtains k' where
    "db_campaigns (snd (recordContribution now e input db)) = js_set (ca_id k') k' (db_campaigns db)"
    "db_contributions (snd (recordContribution now e input db)) =
       js_set (newContributionId e) (new_row now e input k) (db_contributions db)"
    "ca_id k' = ca_id k" "ca_raisedCents k' = ca_raisedCents k + rc_amountCents input"
    "ca_contributorCount k' = ca_contributorCount k +
       (if rc_supporterUserId input \<in> cn_supporterUserId `
          {r \<in> set (js_values (db_contributions db)). cn_campaignId r = ca_id k \<and> cn_id r \<noteq> newContributionId e}
        then 0 else 1)"
    "fst (recordContribution now e input db) = Some (k', new_row now e input k)"
proof -
  have r: "fst (upsertCoalitionCampaignContribution now (new_row now e input k) db) = new_row now e input k"
    using assms(3) by (simp add: upsertCoalitionCampaignContribution_def new_row_def Let_def)
  have v: "js_values (js_set (newContributionId e) (new_row now e input k) (db_contributions db)) =
      js_values (db_contributions db) @ [new_row now e input k]"
    by (rule js_values_set_new [OF assms(3)])
  have p: "set (map cn_supporterUserId
      (filter (\<lambda>row. cn_id row \<noteq> newContributionId e)
        (listCoalitionCampaignContributions
          (snd (upsertCoalitionCampaignContribution now (new_row now e input k) db)) (Some (ca_id k)) None None))) =
      cn_supporterUserId ` {r \<in> set (js_values (db_contributions db)). cn_campaignId r = ca_id k \<and> cn_id r \<noteq> newContributionId e}"
    using assms(4) v by (auto simp: listCoalitionCampaignContributions_def r) (auto simp: new_row_def)
  have id: "cn_id (new_row now e input k) = newContributionId e" by (simp add: new_row_def)
  show ?thesis
    by (rule that [of "fst (upsertCoalitionCampaign now
        (k\<lparr>ca_raisedCents := ca_raisedCents k + rc_amountCents input,
           ca_contributorCount := ca_contributorCount k + (if rc_supporterUserId input \<in> cn_supporterUserId `
             {r \<in> set (js_values (db_contributions db)). cn_campaignId r = ca_id k \<and> cn_id r \<noteq> newContributionId e}
             then 0 else 1)\<rparr>)
        (snd (upsertCoalitionCampaignContribution now (new_row now e input k) db)))"])
      (use p in \<open>auto simp: recordContribution_def assms(1,2) Let_def split_beta new_row_def [symmetric] r id
        split: option.splits\<close>)
qed

lemma finite_supporters [simp]: "finite (supporters_of db c)"
  by (simp add: supporters_of_def)

lemma ledger_append:
  assumes ok: "ledger_ok db" and k: "k \<in> set (js_values (db_campaigns db))"
    and cs: "js_values (db_contributions db') = js_values (db_contributions db) @ [r]"
    and t: "js_table cn_id (db_contributions db')"
    and ks: "db_campaigns db' = js_set (ca_id k') k' (db_campaigns db)"
    and k': "ca_id k' = ca_id k" "ca_raisedCents k' = ca_raisedCents k + cn_amountCents r"
      "ca_contributorCount k' = ca_contributorCount k + (if cn_supporterUserId r \<in> supporters_of db (ca_id k) then 0 else 1)"
    and r: "cn_campaignId r = ca_id k" "cn_tipId r \<notin> cn_tipId ` set (js_values (db_contributions db))"
  shows "ledger_ok db'"
proof -
  have tk: "js_table ca_id (db_campaigns db)" using ok by (simp add: ledger_ok_def)
  have rows: "set (js_values (db_campaigns db')) = insert k' {x \<in> set (js_values (db_campaigns db)). ca_id x \<noteq> ca_id k'}"
    unfolding ks by (rule campaign_rows.set_rows_put [OF tk])
  have ra: "raised_of db' c = raised_of db c + (if c = ca_id k then cn_amountCents r else 0)" for c
    by (simp add: raised_of_def cs r(1))
  have su: "supporters_of db' c = supporters_of db c \<union> (if c = ca_id k then {cn_supporterUserId r} else {})" for c
    by (auto simp: supporters_of_def cs r(1))
  have old: "ca_id x \<noteq> []" "ca_raisedCents x = raised_of db (ca_id x)"
      "ca_contributorCount x = int (card (supporters_of db (ca_id x)))"
    if "x \<in> set (js_values (db_campaigns db))" for x
    using ok that by (auto simp: ledger_ok_def)
  have "ca_id x \<noteq> [] \<and> ca_raisedCents x = raised_of db' (ca_id x) \<and>
      ca_contributorCount x = int (card (supporters_of db' (ca_id x)))"
    if "x \<in> set (js_values (db_campaigns db'))" for x
  proof (cases "x = k'")
    case True
    then show ?thesis using old [OF k] k' by (auto simp: ra su card_insert_if insert_absorb)
  next
    case False
    with that have "x \<in> set (js_values (db_campaigns db))" "ca_id x \<noteq> ca_id k" by (auto simp: rows k'(1))
    then show ?thesis using old by (simp add: ra su)
  qed
  moreover have "\<exists>x \<in> set (js_values (db_campaigns db')). ca_id x = cn_campaignId y"
    if "y \<in> set (js_values (db_contributions db'))" for y
    using that ok r(1) k'(1) by (auto simp: ledger_ok_def rows cs) metis
  moreover have "js_table ca_id (db_campaigns db')" unfolding ks by (rule js_table_set [OF tk])
  ultimately show ?thesis
    using ok t r(2) unfolding ledger_ok_def by (auto simp: cs)
qed

lemma recordContribution_ledger:
  assumes ok: "ledger_ok db" and fresh: "js_get (newContributionId e) (db_contributions db) = None"
  shows "ledger_ok (snd (recordContribution now e input db))"
proof (cases "getCoalitionCampaign db (rc_campaignId input)")
  case None
  then show ?thesis using ok by (simp add: recordContribution_def)
next
  case (Some k)
  have tk: "js_table ca_id (db_campaigns db)" and tc: "js_table cn_id (db_contributions db)"
    using ok by (simp_all add: ledger_ok_def)
  have k: "k \<in> set (js_values (db_campaigns db))" "ca_id k \<noteq> []"
    using Some js_table_lookup [OF tk] ok by (auto simp: getCoalitionCampaign_def ledger_ok_def)
  show ?thesis
  proof (cases "findCoalitionCampaignContributionByTip db (rc_tipId input)")
    case found: (Some x)
    then show ?thesis using ok Some by (simp add: recordContribution_def)
  next
    case None
    obtain k' where k':
      "db_campaigns (snd (recordContribution now e input db)) = js_set (ca_id k') k' (db_campaigns db)"
      "db_contributions (snd (recordContribution now e input db)) =
         js_set (newContributionId e) (new_row now e input k) (db_contributions db)"
      "ca_id k' = ca_id k" "ca_raisedCents k' = ca_raisedCents k + rc_amountCents input"
      "ca_contributorCount k' = ca_contributorCount k +
         (if rc_supporterUserId input \<in> cn_supporterUserId `
            {r \<in> set (js_values (db_contributions db)). cn_campaignId r = ca_id k \<and> cn_id r \<noteq> newContributionId e}
          then 0 else 1)"
      "fst (recordContribution now e input db) = Some (k', new_row now e input k)"
      by (rule recordContribution_tables [OF Some None fresh k(2)])
    have prior: "{r \<in> set (js_values (db_contributions db)). cn_campaignId r = ca_id k \<and> cn_id r \<noteq> newContributionId e} =
        {r \<in> set (js_values (db_contributions db)). cn_campaignId r = ca_id k}"
      using contribution_rows.lookup_None [OF tc fresh] by auto
    have "js_table cn_id (js_set (cn_id (new_row now e input k)) (new_row now e input k) (db_contributions db))"
      by (rule js_table_set [OF tc])
    then have t: "js_table cn_id (db_contributions (snd (recordContribution now e input db)))"
      by (simp add: k'(2) new_row_def)
    show ?thesis
    proof (rule ledger_append [OF ok k(1) _ t k'(1), where r = "new_row now e input k"])
      show "js_values (db_contributions (snd (recordContribution now e input db))) =
          js_values (db_contributions db) @ [new_row now e input k]"
        unfolding k'(2) by (rule js_values_set_new [OF fresh])
      show "cn_tipId (new_row now e input k) \<notin> cn_tipId ` set (js_values (db_contributions db))"
        using find_NoneD [OF None [unfolded findCoalitionCampaignContributionByTip_def]]
        by (fastforce simp: new_row_def)
    qed (simp_all add: k'(3-5) prior new_row_def supporters_of_def)
  qed
qed

definition sample_payment :: RecordContributionInput where
  "sample_payment = \<lparr>rc_campaignId = ''k1'', rc_supporterUserId = ''bo'', rc_tipId = ''t9'',
     rc_amountCents = 6000, rc_currency = ''USD''\<rparr>"

definition sample_ledger_db :: CoalitionDb where
  "sample_ledger_db = sample_drive_db
     \<lparr>db_campaigns := [(''k1'', (sample_campaign ''k1'' Drive Camp_active ''ana'')\<lparr>ca_raisedCents := 700, ca_contributorCount := 1\<rparr>)],
      db_contributions := [(''c1'', sample_contribution ''c1'' ''k1'' ''cy'' 700)]\<rparr>"

lemma sample_ledger_ok: "ledger_ok sample_ledger_db"
  "js_get (newContributionId (''a'', ''b'')) (db_contributions sample_ledger_db) = None"
proof -
  define k where "k = (sample_campaign ''k1'' Drive Camp_active ''ana'')\<lparr>ca_raisedCents := 700, ca_contributorCount := 1\<rparr>"
  define c where "c = sample_contribution ''c1'' ''k1'' ''cy'' 700"
  have k: "ca_id k = ''k1''" "ca_raisedCents k = 700" "ca_contributorCount k = 1"
    by (simp_all add: k_def sample_campaign_def)
  have c: "cn_id c = ''c1''" "cn_campaignId c = ''k1''" "cn_supporterUserId c = ''cy''" "cn_amountCents c = 700"
    by (simp_all add: c_def sample_contribution_def)
  have t: "db_campaigns sample_ledger_db = [(''k1'', k)]" "db_contributions sample_ledger_db = [(''c1'', c)]"
    by (simp_all add: sample_ledger_db_def k_def c_def)
  have "supporters_of sample_ledger_db ''k1'' = {''cy''}"
    using c(2,3) by (auto simp: supporters_of_def t js_values_def)
  then show "ledger_ok sample_ledger_db"
    by (simp add: ledger_ok_def t js_table_def js_keys_def js_values_def raised_of_def k c)
  show "js_get (newContributionId (''a'', ''b'')) (db_contributions sample_ledger_db) = None" by code_simp
qed

text \<open>
  A replayed capture changes nothing.  Recording a contribution for a tip that is
  already recorded returns the stored row and leaves the database as it is.
\<close>

theorem recordContribution_idempotent:
  assumes "fst (recordContribution now e input db) = Some (k, r)"
    and "js_table ca_id (db_campaigns db)" and "js_table cn_id (db_contributions db)"
    and "\<forall>c \<in> set (js_values (db_campaigns db)). ca_id c \<noteq> []"
    and "js_get (newContributionId e) (db_contributions db) = None"
  shows "\<exists>x. recordContribution now' e' input (snd (recordContribution now e input db)) =
    (Some (k, x), snd (recordContribution now e input db)) \<and> cn_tipId x = rc_tipId input"
proof -
  obtain k0 where k0: "getCoalitionCampaign db (rc_campaignId input) = Some k0"
    using assms(1) by (auto simp: recordContribution_def split: option.splits)
  then have row: "k0 \<in> set (js_values (db_campaigns db))" "ca_id k0 = rc_campaignId input"
    using js_table_lookup [OF assms(2)] by (auto simp: getCoalitionCampaign_def)
  show ?thesis
  proof (cases "findCoalitionCampaignContributionByTip db (rc_tipId input)")
    case (Some x)
    then have "cn_tipId x = rc_tipId input" by (auto simp: findCoalitionCampaignContributionByTip_def dest: find_SomeD)
    with Some k0 assms(1) show ?thesis by (simp add: recordContribution_def)
  next
    case None
    let ?db = "snd (recordContribution now e input db)"
    obtain k' where k':
      "db_campaigns ?db = js_set (ca_id k') k' (db_campaigns db)"
      "db_contributions ?db = js_set (newContributionId e) (new_row now e input k0) (db_contributions db)"
      "ca_id k' = ca_id k0" "ca_raisedCents k' = ca_raisedCents k0 + rc_amountCents input"
      "ca_contributorCount k' = ca_contributorCount k0 +
         (if rc_supporterUserId input \<in> cn_supporterUserId `
            {r \<in> set (js_values (db_contributions db)). cn_campaignId r = ca_id k0 \<and> cn_id r \<noteq> newContributionId e}
          then 0 else 1)"
      "fst (recordContribution now e input db) = Some (k', new_row now e input k0)"
      by (rule recordContribution_tables [OF k0 None assms(5)]) (use row(1) assms(4) in blast)
    have g: "getCoalitionCampaign ?db (rc_campaignId input) = Some k'"
      by (simp add: getCoalitionCampaign_def k'(1,3) row(2))
    have "new_row now e input k0 \<in> set (js_values (db_contributions ?db))"
      by (simp add: k'(2) js_values_set_new [OF assms(5)])
    moreover have "cn_tipId (new_row now e input k0) = rc_tipId input" by (simp add: new_row_def)
    ultimately have "findCoalitionCampaignContributionByTip ?db (rc_tipId input) \<noteq> None"
      unfolding findCoalitionCampaignContributionByTip_def using find_NoneD by fastforce
    then obtain x where x: "findCoalitionCampaignContributionByTip ?db (rc_tipId input) = Some x" by blast
    then have "cn_tipId x = rc_tipId input" by (auto simp: findCoalitionCampaignContributionByTip_def dest: find_SomeD)
    with g x k'(6) assms(1) show ?thesis
      by (simp add: recordContribution_def [of now' e' input ?db])
  qed
qed

section \<open>Starting a contribution: properties\<close>

lemma quote_range: "quoteCommissionBps p l = Some b \<Longrightarrow> 0 \<le> b \<and> b \<le> 300"
  by (auto simp: quoteCommissionBps_def commissionWithinCeiling_def COALITION_COMMISSION_BPS_def
      split: if_splits option.splits)

lemma refused_Inr:
  "refused reason sp db = (r, db') \<Longrightarrow> db' = db \<and> (\<forall>x. r = Inr x \<longrightarrow> sr_tip x = None \<and> sr_checkoutError x = Some reason)"
  by (auto simp: refused_def split: option.splits)

definition contribution_post ::
    "CoalitionDb \<Rightarrow> ident \<Rightarrow> StartContributionInput \<Rightarrow>
     (TipValidationError + StartContributionResult) \<times> CoalitionDb \<Rightarrow> bool" where
  "contribution_post db tid input x \<longleftrightarrow>
     (case x of
        (Inl err, db') \<Rightarrow> db' = db
      | (Inr r, db') \<Rightarrow>
          (case sr_tip r of
             None \<Rightarrow> db' = db \<and> sr_checkoutError r \<noteq> None
           | Some t \<Rightarrow>
               getTip_db db' tid = Some t \<and> ti_status t = Tip_pending \<and> 0 \<le> ti_feeBps t \<and> ti_feeBps t \<le> 300 \<and>
               ti_contextRef t = Some (ca_id (sc_campaign input)) \<and> truthy (ca_fbmListingId (sc_campaign input)) \<and>
               (sc_beneficiaryUserId input = None \<longrightarrow>
                  driveBeneficiary (sc_campaign input) = Some (ti_recipientUserId t))))"

lemma post_refused: "contribution_post db tid input (refused reason sp db)"
  by (auto simp: contribution_post_def refused_def split: option.splits)

lemma post_Inl: "contribution_post db tid input (Inl err, db)"
  by (simp add: contribution_post_def)

lemma post_checkout:
  assumes "createTip now tid (contribution_tip input b) db = (Inr t, db1)" and "0 \<le> b" and "b \<le> 300"
    and "contribution_payable db input" and "truthy (ca_fbmListingId (sc_campaign input))"
  shows "contribution_post db tid input (open_checkout p input l b t db1)"
proof -
  have "sc_beneficiaryUserId input = None \<longrightarrow>
      driveBeneficiary (sc_campaign input) = Some (the (contribution_beneficiary input))"
    using assms(4)
    by (auto simp: contribution_payable_def contribution_beneficiary_def driveBeneficiary_def split: option.splits)
  with createTip_Inr [OF assms(1)] assms(2-5) show ?thesis
    by (auto simp: contribution_post_def open_checkout_def contribution_tip_def getTip_db_def Let_def
        split: option.splits)
qed

text \<open>
  C26: a contribution is charged at most the standard rate and owed to the right person.
  Either no tip is recorded and the database is unchanged, or a pending tip for this
  campaign is stored, at a rate of at most 300 basis points, whose recipient (unless the
  caller names one) is the person the drive's listing pays.
\<close>

theorem startContribution_charges_within_ceiling:
  "contribution_post db tid input (startContribution now tid provider input db)"
proof -
  have "contribution_post db tid input
      (case createTip now tid (contribution_tip input b) db of
         (Inl err, db) \<Rightarrow> (Inl err, db)
       | (Inr tip, db) \<Rightarrow> open_checkout p input l b tip db)"
    if "quoteCommissionBps (Some p) (ca_fbmListingId (sc_campaign input)) = Some b"
      "contribution_payable db input" "truthy (ca_fbmListingId (sc_campaign input))" for p b l
    using that quote_range [OF that(1)]
    by (auto simp: post_Inl post_checkout dest: createTip_Inl split: prod.split sum.split)
  then show ?thesis
    by (auto simp: startContribution_def Let_def post_refused post_Inl split: option.split)
qed

section \<open>Listings: properties\<close>

lemma archiveDriveListing_row:
  assumes "js_get (ca_id k) (db_campaigns db) = Some k" and "truthy (ca_fbmListingId k)"
  shows "\<exists>k'. db_campaigns (archiveDriveListing now provider k db) = js_set (ca_id k') k' (db_campaigns db) \<and>
    ca_id k' = ca_id k \<and> ca_coalitionId k' = ca_coalitionId k \<and> ca_fbmListingId k' = None"
proof -
  obtain l where l: "ca_fbmListingId k = Some l" using assms(2) by (cases "ca_fbmListingId k") auto
  obtain db1 where db1: "archiveDriveListing_call provider k db = (Some l, db1)" "db_campaigns db1 = db_campaigns db"
    using assms(2) l by (auto simp: archiveDriveListing_call_def Let_def split: option.splits)
  show ?thesis
    by (rule exI [of _ "fst (upsertCoalitionCampaign now (k\<lparr>ca_fbmListingId := None\<rparr>) db1)"])
      (use assms l db1 in \<open>simp add: archiveDriveListing_def archiveDriveListing_store_def getCoalitionCampaign_def\<close>)
qed

lemma archive_fold:
  assumes "js_table ca_id (db_campaigns db)" and "distinct (map ca_id ks)"
    and "\<forall>k \<in> set ks. js_get (ca_id k) (db_campaigns db) = Some k"
  shows "let db' = fold (\<lambda>k db. if truthy (ca_fbmListingId k) then archiveDriveListing now provider k db else db) ks db
    in js_table ca_id (db_campaigns db') \<and>
       (\<forall>i. i \<notin> ca_id ` set ks \<longrightarrow> js_get i (db_campaigns db') = js_get i (db_campaigns db)) \<and>
       (\<forall>i \<in> ca_id ` set ks. \<exists>k'. js_get i (db_campaigns db') = Some k' \<and> \<not> truthy (ca_fbmListingId k'))"
  using assms
proof (induction ks arbitrary: db)
  case (Cons k ks)
  let ?f = "\<lambda>k db. if truthy (ca_fbmListingId k) then archiveDriveListing now provider k db else db"
  let ?db = "?f k db"
  obtain k' where k': "js_get (ca_id k) (db_campaigns ?db) = Some k'" "\<not> truthy (ca_fbmListingId k')"
    and g: "\<And>i. i \<noteq> ca_id k \<Longrightarrow> js_get i (db_campaigns ?db) = js_get i (db_campaigns db)"
    and t: "js_table ca_id (db_campaigns ?db)"
  proof (cases "truthy (ca_fbmListingId k)")
    case True
    with archiveDriveListing_row [of k db now provider] Cons.prems obtain k' where
      "db_campaigns ?db = js_set (ca_id k') k' (db_campaigns db)" "ca_id k' = ca_id k" "ca_fbmListingId k' = None"
      by auto
    with js_table_set [OF Cons.prems(1), of k'] show ?thesis by (intro that [of k']) simp_all
  next
    case False
    with Cons.prems show ?thesis by (intro that [of k]) simp_all
  qed
  define db1 where "db1 = ?f k db"
  note k' = k' [folded db1_def] and g = g [folded db1_def] and t = t [folded db1_def]
  have rest: "\<forall>x \<in> set ks. js_get (ca_id x) (db_campaigns db1) = Some x"
  proof
    fix x assume x: "x \<in> set ks"
    then have "ca_id x \<noteq> ca_id k" using Cons.prems(2) by (metis distinct.simps(2) imageI list.set_map list.simps(9))
    from g [OF this] x Cons.prems(3) show "js_get (ca_id x) (db_campaigns db1) = Some x" by simp
  qed
  define db2 where "db2 = fold ?f ks db1"
  have ih: "js_table ca_id (db_campaigns db2)"
    "\<And>i. i \<notin> ca_id ` set ks \<Longrightarrow> js_get i (db_campaigns db2) = js_get i (db_campaigns db1)"
    "\<And>i. i \<in> ca_id ` set ks \<Longrightarrow> \<exists>k'. js_get i (db_campaigns db2) = Some k' \<and> \<not> truthy (ca_fbmListingId k')"
    using Cons.IH [OF t _ rest] Cons.prems(2) by (auto simp add: Let_def db2_def)
  have eq: "fold ?f (k # ks) db = db2" by (simp add: db2_def db1_def)
  have "\<exists>k'. js_get i (db_campaigns db2) = Some k' \<and> \<not> truthy (ca_fbmListingId k')"
    if "i \<in> ca_id ` set (k # ks)" for i
    using that ih(2,3) [of i] k' by (cases "i \<in> ca_id ` set ks") auto
  then show ?case unfolding eq using ih(1,2) g by (auto simp: Let_def)
qed simp



text \<open>
  A listing is only ever attached to a running drive.  Whatever ran while the provider
  was being called, the second half of publishing changes at most one campaign, which is
  active and had no listing.
\<close>

theorem ensureDriveListing_store_only_active:
  "ensureDriveListing_store now k l db = db \<or>
   (\<exists>cur. getCoalitionCampaign db (ca_id k) = Some cur \<and> ca_status cur = Camp_active \<and>
      \<not> truthy (ca_fbmListingId cur) \<and>
      ensureDriveListing_store now k l db = snd (upsertCoalitionCampaign now (cur\<lparr>ca_fbmListingId := Some l\<rparr>) db))"
  by (auto simp: ensureDriveListing_store_def split: option.splits)

end
