(* ===== verification/Tip_Capture.thy ===== *)
theory Tip_Capture
  imports Coalition_Drives
begin

text \<open>
  Capturing a tip (\<^verbatim>\<open>captureTip\<close> of \<^verbatim>\<open>services/tips.ts\<close>) and the
  books it keeps: every contribution row is backed by one captured tip, and the totals of
  a campaign are those of its rows.  The project store and the outbound webhooks are
  outside the model, as effects.
\<close>

record CaptureDetail =
  cd_fbmOrderId :: "string option"
  cd_chargedCents :: "js_number option"

definition charged_usable :: "CaptureDetail \<Rightarrow> int option" where
  "charged_usable detail =
     (case cd_chargedCents detail of
        None \<Rightarrow> None
      | Some c \<Rightarrow> (case js_integer c of None \<Rightarrow> None | Some n \<Rightarrow> if n \<ge> 0 then Some n else None))"

text \<open>
  The row as it is captured.  \<open>None\<close> is the error that
  \<^verbatim>\<open>computePlatformCommission\<close> throws on a rate outside 0..10000.
\<close>

definition captured_row :: "iso \<Rightarrow> CaptureDetail \<Rightarrow> TipRecord \<Rightarrow> TipRecord option" where
  "captured_row now detail existing =
     (let finish = (\<lambda>t. t\<lparr>ti_status := Tip_captured, ti_capturedAt := Some now,
                          ti_fbmOrderId := (case cd_fbmOrderId detail of
                                              Some o' \<Rightarrow> Some o' | None \<Rightarrow> ti_fbmOrderId existing)\<rparr>)
      in case charged_usable detail of
           Some charged \<Rightarrow>
             if charged \<noteq> ti_grossCents existing
             then (case computePlatformCommission (Fin (of_int charged)) (ti_providerId existing)
                          (Some (Fin (of_int (ti_feeBps existing)))) of
                     None \<Rightarrow> None
                   | Some settled \<Rightarrow>
                       Some (finish (existing\<lparr>ti_grossCents := ps_grossCents settled,
                                              ti_feeCents := ps_feeCents settled,
                                              ti_netCents := ps_netCents settled\<rparr>)))
             else Some (finish existing)
         | None \<Rightarrow> Some (finish existing))"

definition drive_payment :: "TipRecord \<Rightarrow> RecordContributionInput" where
  "drive_payment t = \<lparr>rc_campaignId = the (ti_contextRef t), rc_supporterUserId = ti_senderUserId t,
     rc_tipId = ti_id t, rc_amountCents = ti_netCents t, rc_currency = ti_currency t\<rparr>"

definition captureTip ::
    "iso \<Rightarrow> entropy \<Rightarrow> ident \<Rightarrow> CaptureDetail \<Rightarrow> CoalitionDb \<Rightarrow>
     (TipValidationError + TipRecord option) \<times> CoalitionDb" where
  "captureTip now e tipId detail db =
     (case getTip_db db tipId of
        None \<Rightarrow> (Inr None, db)
      | Some existing \<Rightarrow>
          if ti_status existing = Tip_captured then (Inr (Some existing), db)
          else if ti_status existing = Tip_refunded \<or> ti_status existing = Tip_failed
          then (Inr (Some existing), db)
          else case captured_row now detail existing of
                 None \<Rightarrow> (Inl Range_error, db)
               | Some updated \<Rightarrow>
                   (let db = updateTip updated db;
                        db = emit (EmitT (Ev_tip_captured updated)) db;
                        db = (if ti_contextKind updated = Ctx_coalition_drive \<and> truthy (ti_contextRef updated)
                              then snd (recordContribution now e (drive_payment updated) db) else db);
                        db = (if ti_contextKind updated = Ctx_coalition_project \<and> truthy (ti_contextRef updated)
                              then emit (EmitT (Project_support (the (ti_contextRef updated)) (ti_senderUserId updated)
                                     (ti_id updated) (ti_netCents updated) (ti_currency updated))) db
                              else db);
                        db = emit (EmitT (Outbound_webhook updated)) db
                    in (Inr (Some updated), db)))"

section \<open>Lemmas\<close>

lemma captured_row_Some:
  assumes "captured_row now detail t = Some t'"
  shows "ti_id t' = ti_id t" "ti_status t' = Tip_captured" "ti_contextKind t' = ti_contextKind t"
    "ti_contextRef t' = ti_contextRef t" "ti_senderUserId t' = ti_senderUserId t"
    "ti_recipientUserId t' = ti_recipientUserId t" "ti_currency t' = ti_currency t"
    "ti_feeBps t' = ti_feeBps t"
    "charged_usable detail = None \<Longrightarrow> ti_grossCents t' = ti_grossCents t"
    "charged_usable detail = Some c \<Longrightarrow> ti_grossCents t' = c"
  using assms
  by (auto simp: captured_row_def Let_def computePlatformCommission_def split: option.splits if_splits)

lemma captured_row_total:
  assumes "tip_ok t"
  shows "\<exists>t'. captured_row now detail t = Some t' \<and> tip_ok t'"
proof (cases "charged_usable detail")
  case (Some c)
  then have c: "0 \<le> c" by (auto simp: charged_usable_def split: option.splits if_splits)
  have "isValidFeeBps (Fin (of_int (ti_feeBps t)))" using assms by (simp add: tip_ok_def isValidFeeBps_def)
  with c obtain s where s: "computePlatformCommission (Fin (of_int c)) (ti_providerId t) (Some (Fin (of_int (ti_feeBps t)))) = Some s"
    and b: "ps_feeBps s = ti_feeBps t"
    by (auto simp: computePlatformCommission_def Let_def)
  show ?thesis
  proof (cases "c = ti_grossCents t")
    case True
    with Some assms show ?thesis by (simp add: captured_row_def Let_def tip_ok_def)
  next
    case False
    with Some s show ?thesis
      using commission_split_facts [OF s] commission_fee [OF s] assms b
      by (simp add: captured_row_def Let_def tip_ok_def)
  qed
next
  case None
  with assms show ?thesis by (simp add: captured_row_def Let_def tip_ok_def)
qed

lemma recordContribution_tips [simp]: "db_tips (snd (recordContribution now e i db)) = db_tips db"
  by (simp add: recordContribution_def Let_def split_beta split: option.splits)

lemma captureTip_pending:
  assumes "getTip_db db tid = Some t" "ti_status t = Tip_pending" "captured_row now detail t = Some t'"
  shows "fst (captureTip now e tid detail db) = Inr (Some t')"
    "db_tips (snd (captureTip now e tid detail db)) = js_set (ti_id t') t' (db_tips db)"
  using assms by (auto simp: captureTip_def Let_def updateTip_def)

section \<open>The books\<close>

text \<open>Every contribution row is the capture of one tip, made out to its campaign.\<close>

definition backs :: "TipRecord \<Rightarrow> CoalitionCampaignContribution \<Rightarrow> bool" where
  "backs t r \<longleftrightarrow> ti_status t \<in> {Tip_captured, Tip_refunded} \<and> ti_contextKind t = Ctx_coalition_drive \<and>
     ti_contextRef t = Some (cn_campaignId r) \<and> ti_senderUserId t = cn_supporterUserId r \<and>
     ti_netCents t = cn_amountCents r"

definition books_ok :: "CoalitionDb \<Rightarrow> bool" where
  "books_ok db \<longleftrightarrow> ledger_ok db \<and> js_table ti_id (db_tips db) \<and> (\<forall>t \<in> set (js_values (db_tips db)). tip_ok t) \<and>
     (\<forall>r \<in> set (js_values (db_contributions db)). \<exists>t. js_get (cn_tipId r) (db_tips db) = Some t \<and> backs t r)"

lemma books_okD:
  assumes "books_ok db"
  shows "ledger_ok db" "js_table ti_id (db_tips db)" "\<And>t. t \<in> set (js_values (db_tips db)) \<Longrightarrow> tip_ok t"
    "\<And>r. r \<in> set (js_values (db_contributions db)) \<Longrightarrow> \<exists>t. js_get (cn_tipId r) (db_tips db) = Some t \<and> backs t r"
  using assms by (auto simp: books_ok_def)

interpretation tip_rows: row_table "js_table ti_id" js_values ti_id js_get "\<lambda>r. js_set (ti_id r) r"
  by (rule js_row_table)

text \<open>Writing one tip keeps the books when the rows it backs stay backed.\<close>

lemma books_put_tip:
  assumes ok: "books_ok db" and t: "tip_ok t"
    and tips: "db_tips db' = js_set (ti_id t) t (db_tips db)"
    and same: "db_campaigns db' = db_campaigns db" "db_contributions db' = db_contributions db"
    and keep: "\<And>r. r \<in> set (js_values (db_contributions db)) \<Longrightarrow> cn_tipId r = ti_id t \<Longrightarrow> backs t r"
  shows "books_ok db'"
proof -
  note o = books_okD [OF ok]
  have "ledger_ok db'" using o(1) ledger_cong [OF same] by simp
  moreover have "js_table ti_id (db_tips db')" unfolding tips by (rule js_table_set [OF o(2)])
  moreover have "tip_ok x" if "x \<in> set (js_values (db_tips db'))" for x
    using that t o(3) unfolding tips tip_rows.set_rows_put [OF o(2)] by auto
  moreover have "\<exists>x. js_get (cn_tipId r) (db_tips db') = Some x \<and> backs x r"
    if "r \<in> set (js_values (db_contributions db'))" for r
    using that o(4) [of r] keep [of r] unfolding tips same by (cases "cn_tipId r = ti_id t") auto
  ultimately show ?thesis by (simp add: books_ok_def)
qed

lemma no_row_yet:
  assumes "books_ok db" "js_get tid (db_tips db) = Some t" "ti_status t = Tip_pending"
  shows "findCoalitionCampaignContributionByTip db tid = None"
    "r \<in> set (js_values (db_contributions db)) \<Longrightarrow> cn_tipId r \<noteq> tid"
proof -
  show n: "r \<in> set (js_values (db_contributions db)) \<Longrightarrow> cn_tipId r \<noteq> tid" for r
    using books_okD(4) [OF assms(1), of r] assms(2,3) by (auto simp: backs_def)
  show "findCoalitionCampaignContributionByTip db tid = None"
    using n by (auto simp: findCoalitionCampaignContributionByTip_def find_None_iff)
qed

text \<open>What capturing a pending tip does to the campaigns and their rows.\<close>

lemma captureTip_drive_tables:
  assumes "getTip_db db tid = Some t" "ti_status t = Tip_pending" "captured_row now detail t = Some t'"
    and "ti_contextKind t = Ctx_coalition_drive" "truthy (ti_contextRef t)"
  shows "db_campaigns (snd (captureTip now e tid detail db)) = db_campaigns (snd (recordContribution now e (drive_payment t') db))"
    "db_contributions (snd (captureTip now e tid detail db)) = db_contributions (snd (recordContribution now e (drive_payment t') db))"
proof -
  note r = captured_row_Some [OF assms(3)]
  have eq: "getCoalitionCampaign (emit x (updateTip t' db)) i = getCoalitionCampaign db i"
    "findCoalitionCampaignContributionByTip (emit x (updateTip t' db)) i = findCoalitionCampaignContributionByTip db i" for x i
    by (simp_all add: getCoalitionCampaign_def findCoalitionCampaignContributionByTip_def)
  have "db_campaigns (snd (recordContribution now e i (emit x (updateTip t' db)))) = db_campaigns (snd (recordContribution now e i db))"
    "db_contributions (snd (recordContribution now e i (emit x (updateTip t' db)))) = db_contributions (snd (recordContribution now e i db))" for i x
    by (simp_all add: recordContribution_def eq Let_def split_beta upsertCoalitionCampaign_def
        upsertCoalitionCampaignContribution_def listCoalitionCampaignContributions_def split: option.splits)
  then show "db_campaigns (snd (captureTip now e tid detail db)) = db_campaigns (snd (recordContribution now e (drive_payment t') db))"
    "db_contributions (snd (captureTip now e tid detail db)) = db_contributions (snd (recordContribution now e (drive_payment t') db))"
    using assms r by (simp_all add: captureTip_def Let_def)
qed

lemma recordContribution_rows:
  assumes "r \<in> set (js_values (db_contributions (snd (recordContribution now e i db))))"
    and "js_get (newContributionId e) (db_contributions db) = None"
  shows "r \<in> set (js_values (db_contributions db)) \<or>
    (\<exists>k. getCoalitionCampaign db (rc_campaignId i) = Some k \<and> r = new_row now e i k)"
  using assms js_values_set_new [OF assms(2)]
  by (auto simp: recordContribution_def Let_def split_beta upsertCoalitionCampaignContribution_def new_row_def
      split: option.splits if_splits)

lemma captureTip_books:
  assumes ok: "books_ok db" and fresh: "js_get (newContributionId e) (db_contributions db) = None"
  shows "books_ok (snd (captureTip now e tid detail db))"
proof (cases "\<exists>t. getTip_db db tid = Some t \<and> ti_status t = Tip_pending")
  case False
  then have "snd (captureTip now e tid detail db) = db"
    by (cases "getTip_db db tid"; cases "ti_status (the (getTip_db db tid))") (auto simp: captureTip_def)
  then show ?thesis using ok by simp
next
  case True
  then obtain t where t: "getTip_db db tid = Some t" "ti_status t = Tip_pending" by blast
  note o = books_okD [OF ok]
  have g: "js_get tid (db_tips db) = Some t" using t(1) by (simp add: getTip_db_def)
  then have tid: "ti_id t = tid" "tip_ok t" using js_table_lookup [OF o(2)] o(3) by auto
  then obtain t' where t': "captured_row now detail t = Some t'" "tip_ok t'" using captured_row_total by blast
  note r = captured_row_Some [OF t'(1)]
  note none = no_row_yet [OF ok g t(2)]
  define db1 where "db1 = updateTip t' db"
  have b1: "books_ok db1"
    by (rule books_put_tip [OF ok t'(2)]) (use r(1) tid none(2) in \<open>auto simp: db1_def updateTip_def\<close>)
  let ?db = "snd (captureTip now e tid detail db)"
  have tips: "db_tips ?db = db_tips db1"
    using captureTip_pending(2) [OF t t'(1)] by (simp add: db1_def updateTip_def)
  show ?thesis
  proof (cases "ti_contextKind t = Ctx_coalition_drive \<and> truthy (ti_contextRef t)")
    case False
    then have same: "db_campaigns ?db = db_campaigns db1" "db_contributions ?db = db_contributions db1"
      using t t'(1) r by (auto simp: captureTip_def Let_def db1_def updateTip_def)
    then show ?thesis using b1 ledger_cong [OF same] by (simp add: books_ok_def tips)
  next
    case True
    then obtain c where c: "ti_contextRef t = Some c" "c \<noteq> []" by (cases "ti_contextRef t") auto
    note tables = captureTip_drive_tables [OF t t'(1) conjunct1 [OF True] conjunct2 [OF True], of e]
    have "ledger_ok ?db"
      using ledger_cong [OF tables] recordContribution_ledger [OF o(1) fresh] by simp
    moreover have "\<exists>x. js_get (cn_tipId y) (db_tips ?db) = Some x \<and> backs x y"
      if y: "y \<in> set (js_values (db_contributions ?db))" for y
      using recordContribution_rows [OF y [unfolded tables(2)] fresh]
    proof
      assume "y \<in> set (js_values (db_contributions db))"
      then show ?thesis using books_okD(4) [OF b1, of y] by (simp add: tips db1_def updateTip_def)
    next
      assume "\<exists>k. getCoalitionCampaign db (rc_campaignId (drive_payment t')) = Some k \<and> y = new_row now e (drive_payment t') k"
      then obtain k where k: "getCoalitionCampaign db c = Some k" "y = new_row now e (drive_payment t') k"
        using r(4) c by (auto simp: drive_payment_def)
      have "ca_id k = c" using k(1) js_table_lookup [of ca_id "db_campaigns db" c k] o(1)
        by (auto simp: ledger_ok_def getCoalitionCampaign_def)
      then show ?thesis using k(2) r c True by (simp add: tips db1_def updateTip_def new_row_def drive_payment_def backs_def)
    qed
    ultimately show ?thesis using b1 by (simp add: books_ok_def tips)
  qed
qed

lemma refundTip_books:
  assumes "books_ok db"
  shows "books_ok (snd (refundTip now tid db))"
proof (cases "getTip_db db tid")
  case (Some t)
  note o = books_okD [OF assms]
  have t: "ti_id t = tid" "tip_ok t" using Some js_table_lookup [OF o(2)] o(3) by (auto simp: getTip_db_def)
  show ?thesis
  proof (cases "ti_status t = Tip_refunded")
    case False
    let ?t = "t\<lparr>ti_status := Tip_refunded, ti_refundedAt := Some now\<rparr>"
    have "backs ?t r" if "r \<in> set (js_values (db_contributions db))" "cn_tipId r = tid" for r
      using o(4) [OF that(1)] that(2) Some by (auto simp: getTip_db_def backs_def)
    moreover have "tip_ok ?t" using t(2) by (simp add: tip_ok_def)
    ultimately show ?thesis
      using Some t(1) False
      by (intro books_put_tip [OF assms, of ?t]) (simp_all add: refundTip_def Let_def updateTip_def)
  qed (use assms Some in \<open>simp add: refundTip_def\<close>)
qed (use assms in \<open>simp add: refundTip_def\<close>)

lemma createTip_books:
  assumes "books_ok db" and "js_get tid (db_tips db) = None"
  shows "books_ok (snd (createTip now tid input db))"
proof (cases "createTip now tid input db")
  case (Pair res db')
  show ?thesis
  proof (cases res)
    case (Inl err)
    with Pair createTip_Inl show ?thesis using assms(1) by fastforce
  next
    case (Inr t)
    have ok: "tip_ok t" using createTip_tip_ok [of now tid input db t db'] Pair Inr by simp
    have c: "db' = insertTip t db" "ti_id t = tid"
      using createTip_Inr [of now tid input db t db'] Pair Inr by auto
    have "cn_tipId r \<noteq> tid" if "r \<in> set (js_values (db_contributions db))" for r
      using books_okD(4) [OF assms(1) that] assms(2) by auto
    with Pair c show ?thesis
      by (intro books_put_tip [OF assms(1) ok]) (auto simp: insertTip_def)
  qed
qed

lemma startContribution_books:
  assumes "books_ok db" and "js_get tid (db_tips db) = None"
  shows "books_ok (snd (startContribution now tid provider input db))"
proof -
  have e: "books_ok (emit x d) = books_ok d" for x d
    by (simp add: books_ok_def ledger_cong [of "emit x d" d])
  have r: "snd (refused reason split db) = db" for reason split
    by (simp add: refused_def split: option.splits)
  have o: "books_ok (snd (open_checkout p i l f t d)) = books_ok d" for p i l f t d
    by (simp add: open_checkout_def Let_def e split: option.splits prod.splits)
  have "books_ok (snd (case createTip now tid i db of (Inl err, d) \<Rightarrow> (Inl err, d)
      | (Inr t, d) \<Rightarrow> open_checkout p input l f t d))" for i p l f
    using createTip_books [OF assms, of now i] by (auto simp: o split: prod.splits sum.splits)
  then show ?thesis
    using assms(1) by (simp add: startContribution_def Let_def r split: option.splits)
qed

section \<open>Properties\<close>

text \<open>A state of the books for the concrete runs: one captured tip and one pending.\<close>

definition sample_tip :: "ident \<Rightarrow> ident \<Rightarrow> int \<Rightarrow> int \<Rightarrow> TipStatus \<Rightarrow> TipRecord" where
  "sample_tip i sender gross bps st =
     \<lparr>ti_id = i, ti_senderUserId = sender, ti_recipientUserId = ''ana'', ti_contextKind = Ctx_coalition_drive,
      ti_contextRef = Some ''k1'', ti_grossCents = gross, ti_feeCents = js_round_div (gross * bps) 10000,
      ti_netCents = gross - js_round_div (gross * bps) 10000, ti_feeBps = bps, ti_currency = ''USD'',
      ti_providerId = Freeblackmarket, ti_fbmOrderId = None, ti_status = st, ti_note = None, ti_giftSku = None,
      ti_createdAt = ''2026-01-03T00:00:00.000Z'', ti_capturedAt = None, ti_refundedAt = None, ti_metadata = None\<rparr>"

definition sample_books_db :: CoalitionDb where
  "sample_books_db = sample_ledger_db
     \<lparr>db_tips := [(''tip_c1'', sample_tip ''tip_c1'' ''cy'' 700 0 Tip_captured), (''t2'', sample_tip ''t2'' ''bo'' 1000 300 Tip_pending)]\<rparr>"

lemma sample_books_ok: "books_ok sample_books_db"
  "js_get (newContributionId (''a'', ''b'')) (db_contributions sample_books_db) = None"
proof -
  have "ledger_ok sample_books_db"
    using ledger_cong [of sample_books_db sample_ledger_db] sample_ledger_ok(1) by (simp add: sample_books_db_def)
  moreover have "js_table ti_id (db_tips sample_books_db)"
    by (simp add: sample_books_db_def sample_tip_def js_table_def js_keys_def)
  moreover have "\<forall>t \<in> set (js_values (db_tips sample_books_db)). tip_ok t"
    by (simp add: sample_books_db_def sample_tip_def js_values_def tip_ok_def js_round_div_def)
  moreover have "\<forall>r \<in> set (js_values (db_contributions sample_books_db)).
      \<exists>t. js_get (cn_tipId r) (db_tips sample_books_db) = Some t \<and> backs t r"
    by (simp add: sample_books_db_def sample_ledger_db_def sample_tip_def sample_contribution_def js_values_def
        backs_def js_round_div_def)
  ultimately show "books_ok sample_books_db" by (simp add: books_ok_def)
  show "js_get (newContributionId (''a'', ''b'')) (db_contributions sample_books_db) = None" by code_simp
qed

text \<open>
  Capturing a tip keeps the books.  After a capture, whatever amount the provider says
  it charged, the totals of every campaign are those of its contribution rows and every
  row is backed by exactly the captured or refunded tip that paid for it, with the tip's
  net amount, sender and campaign.
\<close>

theorem captureTip_keeps_books:
  assumes "books_ok db" and "js_get (newContributionId e) (db_contributions db) = None"
  shows "books_ok (snd (captureTip now e tid detail db))"
  using assms by (rule captureTip_books)

text \<open>
  C25: a capture happens once.  A second capture of a captured tip, with any order id and
  any amount, returns the same row and changes nothing, and refunded and failed tips are
  never captured.
\<close>

theorem captureTip_idempotent:
  assumes "js_table ti_id (db_tips db)" and "fst (captureTip now e tid detail db) = Inr (Some t)"
  shows "captureTip now' e' tid detail' (snd (captureTip now e tid detail db)) =
      (Inr (Some t), snd (captureTip now e tid detail db))"
proof -
  obtain t0 where t0: "getTip_db db tid = Some t0"
    using assms(2) by (auto simp: captureTip_def split: option.splits)
  then have id: "ti_id t0 = tid" using js_table_lookup [OF assms(1)] by (auto simp: getTip_db_def)
  show ?thesis
  proof (cases "ti_status t0 = Tip_pending")
    case True
    with assms(2) t0 obtain t' where t': "captured_row now detail t0 = Some t'"
      by (auto simp: captureTip_def split: option.splits)
    note p = captureTip_pending [OF t0 True t', of e]
    have "t' = t" using p(1) assms(2) by simp
    with p(2) captured_row_Some(1,2) [OF t'] id
    have "getTip_db (snd (captureTip now e tid detail db)) tid = Some t" "ti_status t = Tip_captured"
      by (auto simp: getTip_db_def)
    then show ?thesis by (simp add: captureTip_def)
  next
    case False
    with assms(2) t0 show ?thesis by (cases "ti_status t0") (simp_all add: captureTip_def)
  qed
qed

lemma captureTip_idempotent_witness:
  "let db = snd (captureTip ''2026-02-02T00:00:00.000Z'' (''a'', ''b'') ''t2''
         \<lparr>cd_fbmOrderId = Some ''o1'', cd_chargedCents = None\<rparr> sample_books_db)
   in \<exists>t. ti_status t = Tip_captured \<and> captureTip ''2026-02-03T00:00:00.000Z'' (''c'', ''d'') ''t2''
        \<lparr>cd_fbmOrderId = None, cd_chargedCents = Some (Fin 9)\<rparr> db = (Inr (Some t), db)"
proof -
  let ?r = "captureTip ''2026-02-02T00:00:00.000Z'' (''a'', ''b'') ''t2''
         \<lparr>cd_fbmOrderId = Some ''o1'', cd_chargedCents = None\<rparr> sample_books_db"
  have "(case fst ?r of Inr (Some t) \<Rightarrow> ti_status t = Tip_captured | _ \<Rightarrow> False)" by code_simp
  then obtain t where t: "fst ?r = Inr (Some t)" "ti_status t = Tip_captured"
    by (auto split: sum.splits option.splits)
  from captureTip_idempotent [OF books_okD(2) [OF sample_books_ok(1)] t(1)] t(2) show ?thesis
    by (auto simp: Let_def)
qed

text \<open>
  C24: what a capture credits.  Capturing a pending tip of a campaign adds the tip's net
  amount to the campaign, once.  The gross amount is what the provider charged when it
  says so and what was asked otherwise, and it is the sum of net amount and fee at the
  rate the tip was quoted.
\<close>

theorem captureTip_credits_net:
  assumes "books_ok db" and "js_get (newContributionId e) (db_contributions db) = None"
    and "getTip_db db tid = Some t" and "ti_status t = Tip_pending"
    and "ti_contextKind t = Ctx_coalition_drive" and "ti_contextRef t = Some cid"
    and "getCoalitionCampaign db cid = Some k"
  shows "\<exists>t' k'. fst (captureTip now e tid detail db) = Inr (Some t') \<and>
    getCoalitionCampaign (snd (captureTip now e tid detail db)) cid = Some k' \<and>
    ca_raisedCents k' = ca_raisedCents k + ti_netCents t' \<and>
    ti_netCents t' + ti_feeCents t' = ti_grossCents t' \<and>
    ti_feeCents t' = js_round_div (ti_grossCents t' * ti_feeBps t) 10000 \<and>
    ti_grossCents t' = (case charged_usable detail of Some c \<Rightarrow> c | None \<Rightarrow> ti_grossCents t)"
proof -
  note o = books_okD [OF assms(1)]
  have g: "js_get tid (db_tips db) = Some t" using assms(3) by (simp add: getTip_db_def)
  then have "tip_ok t" using js_table_lookup [OF o(2)] o(3) by auto
  then obtain t' where t': "captured_row now detail t = Some t'" "tip_ok t'" using captured_row_total by blast
  note r = captured_row_Some [OF t'(1)]
  have k: "ca_id k = cid" "cid \<noteq> []"
    using assms(7) js_table_lookup [of ca_id "db_campaigns db" cid k] o(1)
    by (auto simp: ledger_ok_def getCoalitionCampaign_def)
  have c: "rc_campaignId (drive_payment t') = cid" "rc_tipId (drive_payment t') = tid" "rc_amountCents (drive_payment t') = ti_netCents t'"
    using r assms(6) js_table_lookup [OF o(2)] g by (auto simp: drive_payment_def)
  obtain k' where k': "db_campaigns (snd (recordContribution now e (drive_payment t') db)) = js_set (ca_id k') k' (db_campaigns db)"
    "ca_id k' = ca_id k" "ca_raisedCents k' = ca_raisedCents k + ti_netCents t'"
    by (rule recordContribution_tables [of db "drive_payment t'" k e now])
      (use c assms(2,7) k no_row_yet(1) [OF assms(1) g assms(4)] in auto)
  have "getCoalitionCampaign (snd (captureTip now e tid detail db)) cid = Some k'"
    using captureTip_drive_tables(1) [OF assms(3,4) t'(1) assms(5), of e] assms(6) k k'(1,2)
    by (simp add: getCoalitionCampaign_def)
  moreover have "ti_grossCents t' = (case charged_usable detail of Some c \<Rightarrow> c | None \<Rightarrow> ti_grossCents t)"
    using r(9,10) by (simp split: option.splits)
  ultimately show ?thesis
    using captureTip_pending(1) [OF assms(3,4) t'(1), of e] k'(3) t'(2) r(8)
    by (auto simp: tip_ok_def)
qed

lemma captureTip_credits_net_witness:
  "\<exists>t' k'. fst (captureTip ''2026-02-02T00:00:00.000Z'' (''a'', ''b'') ''t2''
         \<lparr>cd_fbmOrderId = Some ''o1'', cd_chargedCents = Some (Fin 2000)\<rparr> sample_books_db) = Inr (Some t') \<and>
     getCoalitionCampaign (snd (captureTip ''2026-02-02T00:00:00.000Z'' (''a'', ''b'') ''t2''
         \<lparr>cd_fbmOrderId = Some ''o1'', cd_chargedCents = Some (Fin 2000)\<rparr> sample_books_db)) ''k1'' = Some k' \<and>
     ca_raisedCents k' = 700 + ti_netCents t' \<and> ti_grossCents t' = 2000 \<and> ti_feeCents t' = 60"
proof -
  let ?k = "(sample_campaign ''k1'' Drive Camp_active ''ana'')\<lparr>ca_raisedCents := 700, ca_contributorCount := 1\<rparr>"
  have "getTip_db sample_books_db ''t2'' = Some (sample_tip ''t2'' ''bo'' 1000 300 Tip_pending)"
    by (simp add: getTip_db_def sample_books_db_def)
  moreover have "getCoalitionCampaign sample_books_db ''k1'' = Some ?k"
    by (simp add: getCoalitionCampaign_def sample_books_db_def sample_ledger_db_def)
  moreover have "charged_usable \<lparr>cd_fbmOrderId = Some ''o1'', cd_chargedCents = Some (Fin 2000)\<rparr> = Some 2000"
    by code_simp
  ultimately show ?thesis
    using captureTip_credits_net [OF sample_books_ok, of "''t2''" "sample_tip ''t2'' ''bo'' 1000 300 Tip_pending" "''k1''" ?k
      "''2026-02-02T00:00:00.000Z''" "\<lparr>cd_fbmOrderId = Some ''o1'', cd_chargedCents = Some (Fin 2000)\<rparr>"]
    by (auto simp: sample_tip_def sample_campaign_def js_round_div_def)
qed

end
