(* ===== verification/Campaign_History.thy ===== *)
theory Campaign_History
  imports Tip_Capture
begin

text \<open>
  What any operation may do to a stored campaign: its identity stays, its status moves
  along the graph, and its total grows only through captured tips.
\<close>

section \<open>Evolution of a campaign\<close>

definition evolves :: "CoalitionCampaign \<Rightarrow> CoalitionCampaign \<Rightarrow> bool" where
  "evolves k k' \<longleftrightarrow> ca_id k' = ca_id k \<and> ca_coalitionId k' = ca_coalitionId k \<and> ca_type k' = ca_type k \<and>
     ca_createdBy k' = ca_createdBy k \<and> ca_raisedCents k \<le> ca_raisedCents k' \<and>
     canTransitionCampaign\<^sup>*\<^sup>* (ca_status k) (ca_status k')"

lemma evolves_refl [simp]: "evolves k k"
  by (simp add: evolves_def)

lemma evolves_trans: "evolves a b \<Longrightarrow> evolves b c \<Longrightarrow> evolves a c"
  by (auto simp: evolves_def)

definition history :: "CoalitionDb \<Rightarrow> CoalitionDb \<Rightarrow> bool" where
  "history db db' \<longleftrightarrow> (\<forall>i k. getCoalitionCampaign db i = Some k \<longrightarrow>
     (\<exists>k'. getCoalitionCampaign db' i = Some k' \<and> evolves k k'))"

lemma history_refl: "history db db"
  by (simp add: history_def)

lemma history_trans: "history a b \<Longrightarrow> history b c \<Longrightarrow> history a c"
  unfolding history_def by (meson evolves_trans)

lemma history_same: "db_campaigns db' = db_campaigns db \<Longrightarrow> history db db'"
  by (simp add: history_def getCoalitionCampaign_def)

section \<open>Writes that leave the totals alone\<close>

text \<open>
  One write of a campaign row that keeps the totals of the row it replaces, or adds a row
  with totals of zero.
\<close>

definition keeps_totals :: "CoalitionCampaign option \<Rightarrow> CoalitionCampaign \<Rightarrow> bool" where
  "keeps_totals old k \<longleftrightarrow>
     (case old of
        Some k0 \<Rightarrow> evolves k0 k \<and> ca_raisedCents k = ca_raisedCents k0 \<and>
                   ca_contributorCount k = ca_contributorCount k0
      | None \<Rightarrow> ca_raisedCents k = 0 \<and> ca_contributorCount k = 0)"

inductive touches :: "CoalitionDb \<Rightarrow> CoalitionDb \<Rightarrow> bool" where
  touch_none: "db_campaigns db' = db_campaigns db \<Longrightarrow> db_contributions db' = db_contributions db \<Longrightarrow>
    db_tips db' = db_tips db \<Longrightarrow> touches db db'"
| touch_row: "touches db db1 \<Longrightarrow> ca_id k \<noteq> [] \<Longrightarrow>
    keeps_totals (js_get (ca_id k) (db_campaigns db1)) k \<Longrightarrow>
    db_campaigns db' = js_set (ca_id k) k (db_campaigns db1) \<Longrightarrow>
    db_contributions db' = db_contributions db1 \<Longrightarrow> db_tips db' = db_tips db1 \<Longrightarrow> touches db db'"

lemma touches_refl [intro]: "touches db db"
  by (rule touch_none) simp_all

lemma touches_frame:
  assumes "touches db db1" and "db_campaigns db2 = db_campaigns db1"
    and "db_contributions db2 = db_contributions db1" and "db_tips db2 = db_tips db1"
  shows "touches db db2"
  using assms by (cases rule: touches.cases) (auto intro: touches.intros)

lemma touches_emit [simp]: "touches db (emit e x) \<longleftrightarrow> touches db x"
  by (auto intro: touches_frame)

lemma touches_upsert:
  assumes "touches db db1" and "ca_id k \<noteq> []" and "keeps_totals (js_get (ca_id k) (db_campaigns db1)) k"
  shows "touches db (snd (upsertCoalitionCampaign now k db1))"
proof -
  let ?k = "fst (upsertCoalitionCampaign now k db1)"
  have "keeps_totals (js_get (ca_id ?k) (db_campaigns db1)) ?k"
    using assms(3) by (simp add: keeps_totals_def evolves_def split: option.splits)
  then show ?thesis by (rule touch_row [OF assms(1), of ?k, rotated]) (use assms(2) in simp_all)
qed

lemma touches_contributions: "touches db db' \<Longrightarrow> db_contributions db' = db_contributions db \<and> db_tips db' = db_tips db"
  by (induction rule: touches.induct) auto

lemma touches_table: "touches db db' \<Longrightarrow> js_table ca_id (db_campaigns db) \<Longrightarrow> js_table ca_id (db_campaigns db')"
  by (induction rule: touches.induct) (simp_all add: js_table_set)

lemma touches_history: "touches db db' \<Longrightarrow> history db db'"
proof (induction rule: touches.induct)
  case (touch_row db db1 k db')
  have "history db1 db'"
    using touch_row(3,4) by (auto simp: history_def getCoalitionCampaign_def keeps_totals_def)
  with touch_row show ?case by (blast intro: history_trans)
qed (rule history_same)

text \<open>Such writes keep the books.\<close>

lemma ledger_put_campaign:
  assumes ok: "ledger_ok db" and k: "ca_id k \<noteq> []" "keeps_totals (js_get (ca_id k) (db_campaigns db)) k"
    and t: "db_campaigns db' = js_set (ca_id k) k (db_campaigns db)" "db_contributions db' = db_contributions db"
  shows "ledger_ok db'"
proof -
  have tk: "js_table ca_id (db_campaigns db)" using ok by (simp add: ledger_ok_def)
  have rows: "set (js_values (db_campaigns db')) = insert k {x \<in> set (js_values (db_campaigns db)). ca_id x \<noteq> ca_id k}"
    unfolding t(1) by (rule campaign_rows.set_rows_put [OF tk])
  have eq: "raised_of db' c = raised_of db c" "supporters_of db' c = supporters_of db c" for c
    by (simp_all add: raised_of_def supporters_of_def t(2))
  have old: "ca_id x \<noteq> [] \<and> ca_raisedCents x = raised_of db (ca_id x) \<and>
      ca_contributorCount x = int (card (supporters_of db (ca_id x)))"
    if "x \<in> set (js_values (db_campaigns db))" for x
    using ok that by (auto simp: ledger_ok_def)
  have "ca_raisedCents k = raised_of db (ca_id k) \<and> ca_contributorCount k = int (card (supporters_of db (ca_id k)))"
  proof (cases "js_get (ca_id k) (db_campaigns db)")
    case None
    have "\<forall>r \<in> set (js_values (db_contributions db)). cn_campaignId r \<noteq> ca_id k"
      using ok campaign_rows.lookup_None [OF tk None] unfolding ledger_ok_def by metis
    then have "raised_of db (ca_id k) = 0" "supporters_of db (ca_id k) = {}"
      by (auto simp: raised_of_def supporters_of_def filter_empty_conv)
    with k(2) None show ?thesis by (simp add: keeps_totals_def)
  next
    case (Some k0)
    then have "k0 \<in> set (js_values (db_campaigns db))" "ca_id k0 = ca_id k"
      using js_table_lookup [OF tk] by auto
    with old [of k0] k(2) Some show ?thesis by (simp add: keeps_totals_def)
  qed
  moreover have "js_table ca_id (db_campaigns db')" unfolding t(1) by (rule js_table_set [OF tk])
  moreover have "\<exists>x \<in> set (js_values (db_campaigns db')). ca_id x = cn_campaignId r"
    if "r \<in> set (js_values (db_contributions db'))" for r
    using ok that unfolding ledger_ok_def rows t(2) by (metis (mono_tags, lifting) insert_iff mem_Collect_eq)
  ultimately show ?thesis
    using ok k(1) old unfolding ledger_ok_def rows eq t(2) by auto
qed

lemma touches_books: "touches db db' \<Longrightarrow> books_ok db \<Longrightarrow> books_ok db'"
proof (induction rule: touches.induct)
  case (touch_none db' db)
  then show ?case using ledger_cong [of db' db] by (simp add: books_ok_def)
next
  case (touch_row db db1 k db')
  then have "ledger_ok db'" using ledger_put_campaign [of db1 k db'] by (simp add: books_ok_def)
  with touch_row show ?case by (simp add: books_ok_def)
qed

section \<open>The campaign operations\<close>

lemma campaign_row:
  assumes "ledger_ok db" and "getCoalitionCampaign db i = Some k"
  shows "ca_id k = i" "i \<noteq> []" "js_get i (db_campaigns db) = Some k"
  using assms js_table_lookup [of ca_id "db_campaigns db" i k]
  by (auto simp: ledger_ok_def getCoalitionCampaign_def)

lemma keeps_totals_update:
  "ca_id k' = ca_id k \<Longrightarrow> ca_coalitionId k' = ca_coalitionId k \<Longrightarrow> ca_type k' = ca_type k \<Longrightarrow>
   ca_createdBy k' = ca_createdBy k \<Longrightarrow> ca_raisedCents k' = ca_raisedCents k \<Longrightarrow>
   ca_contributorCount k' = ca_contributorCount k \<Longrightarrow>
   ca_status k' = ca_status k \<or> canTransitionCampaign (ca_status k) (ca_status k') \<Longrightarrow>
   keeps_totals (Some k) k'"
  by (auto simp: keeps_totals_def evolves_def)

lemma newCampaignId_nonempty [simp]: "newCampaignId e \<noteq> []"
  by (simp add: newCampaignId_def new_id_def)

lemma createCampaign_touches:
  assumes "js_get (newCampaignId e) (db_campaigns db) = None"
  shows "touches db (snd (createCampaign now e b s a input db))"
proof -
  have one: "touches db (snd (upsertCoalitionCampaign now k db))"
    if "ca_id k = newCampaignId e" "ca_raisedCents k = 0" "ca_contributorCount k = 0" for k
    by (rule touches_upsert) (use that assms in \<open>auto simp: keeps_totals_def\<close>)
  have two: "touches db (snd (upsertCoalitionCampaign now ((fst (upsertCoalitionCampaign now k db))\<lparr>ca_bountyId := x\<rparr>)
      (emit ev (snd (upsertCoalitionCampaign now k db)))))"
    if "ca_id k = newCampaignId e" "ca_raisedCents k = 0" "ca_contributorCount k = 0" for k x ev
    by (rule touches_upsert) (use that one [OF that] in \<open>auto intro: keeps_totals_update\<close>)
  show ?thesis
    by (auto simp: createCampaign_def op_simps split: option.splits intro!: one two)
qed

lemma approveCampaign_touches:
  assumes "ledger_ok db"
  shows "touches db (snd (approveCampaign now s a cid db))"
  using campaign_row [OF assms, of cid]
  by (auto simp: approveCampaign_def op_simps split: option.splits sum.splits
      intro!: touches_upsert keeps_totals_update)

lemma touches_fold_emit [simp]: "touches db (fold emit es x) \<longleftrightarrow> touches db x"
  by (induction es arbitrary: x) simp_all

lemma transitionCampaign_touches:
  assumes "ledger_ok db"
  shows "touches db (snd (transitionCampaign now s a cid to db))"
  using campaign_row [OF assms, of cid]
  by (auto simp: transitionCampaign_def op_simps split: option.splits sum.splits
      intro!: touches_upsert keeps_totals_update)

lemma raiseAidPost_touches:
  assumes "js_get (newCampaignId e) (db_campaigns db) = None"
  shows "touches db (snd (raiseAidPost now e env s a post db))"
  using assms
  by (auto simp: raiseAidPost_def op_simps keeps_totals_def split: option.splits intro!: touches_upsert)

lemma ensureDriveListing_store_touches:
  assumes "ledger_ok db"
  shows "touches db (ensureDriveListing_store now k l db)"
proof (cases "getCoalitionCampaign db (ca_id k)")
  case (Some cur)
  note r = campaign_row [OF assms Some]
  have "touches db (snd (upsertCoalitionCampaign now (cur\<lparr>ca_fbmListingId := Some l\<rparr>) db))"
    by (rule touches_upsert) (use r in \<open>auto intro: keeps_totals_update\<close>)
  with Some show ?thesis by (auto simp: ensureDriveListing_store_def)
qed (auto simp: ensureDriveListing_store_def)

lemma archiveDriveListing_store_touches:
  assumes "touches db db1" and "ledger_ok db1"
  shows "touches db (archiveDriveListing_store now k l db1)"
proof (cases "getCoalitionCampaign db1 (ca_id k)")
  case (Some cur)
  note r = campaign_row [OF assms(2) Some]
  have "touches db (snd (upsertCoalitionCampaign now (cur\<lparr>ca_fbmListingId := None\<rparr>) db1))"
    by (rule touches_upsert [OF assms(1)]) (use r in \<open>auto intro: keeps_totals_update\<close>)
  with Some assms(1) show ?thesis by (auto simp: archiveDriveListing_store_def)
qed (use assms(1) in \<open>simp add: archiveDriveListing_store_def\<close>)

lemma listing_call_frame:
  "db_campaigns (snd (ensureDriveListing_call p k db)) = db_campaigns db"
  "db_contributions (snd (ensureDriveListing_call p k db)) = db_contributions db"
  "db_tips (snd (ensureDriveListing_call p k db)) = db_tips db"
  "db_campaigns (snd (archiveDriveListing_call p k db)) = db_campaigns db"
  "db_contributions (snd (archiveDriveListing_call p k db)) = db_contributions db"
  "db_tips (snd (archiveDriveListing_call p k db)) = db_tips db"
  by (auto simp: ensureDriveListing_call_def archiveDriveListing_call_def Let_def
      split: option.splits sum.splits prod.splits)

lemma archiveDriveListing_touches:
  assumes "touches db db1" and "ledger_ok db1"
  shows "touches db (archiveDriveListing now p k db1)"
proof -
  obtain l db2 where c: "archiveDriveListing_call p k db1 = (l, db2)" by fastforce
  then have f: "db_campaigns db2 = db_campaigns db1" "db_contributions db2 = db_contributions db1" "db_tips db2 = db_tips db1"
    using listing_call_frame(4-6) [of p k db1] by simp_all
  have "touches db db2" using touches_frame [OF assms(1) f] .
  moreover have "ledger_ok db2" using assms(2) ledger_cong [OF f(1,2)] by simp
  ultimately show ?thesis
    by (cases l) (simp_all add: archiveDriveListing_def c archiveDriveListing_store_touches)
qed

lemma touches_ledger: "touches db db' \<Longrightarrow> ledger_ok db \<Longrightarrow> ledger_ok db'"
proof (induction rule: touches.induct)
  case (touch_row db db1 k db')
  then show ?case using ledger_put_campaign [of db1 k db'] by simp
qed (use ledger_cong in blast)

lemma withdrawCoalitionListings_touches:
  assumes "ledger_ok db"
  shows "touches db (withdrawCoalitionListings now p cid db)"
proof -
  have "touches db (fold (\<lambda>k db. if truthy (ca_fbmListingId k) then archiveDriveListing now p k db else db) ks db1)"
    if "touches db db1" for ks db1
    using that
  proof (induction ks arbitrary: db1)
    case (Cons k ks)
    have "touches db (archiveDriveListing now p k db1)"
      by (rule archiveDriveListing_touches [OF Cons.prems touches_ledger [OF Cons.prems assms]])
    with Cons show ?case by simp
  qed simp
  then show ?thesis by (simp add: withdrawCoalitionListings_def touches_refl)
qed

section \<open>Captures only add\<close>

lemma recordContribution_history:
  assumes "ledger_ok db" and "0 \<le> rc_amountCents input"
  shows "history db (snd (recordContribution now e input db))"
proof (cases "getCoalitionCampaign db (rc_campaignId input)")
  case (Some k)
  note r = campaign_row [OF assms(1) Some]
  let ?db = "snd (recordContribution now e input db)"
  consider "?db = db" | k' where "db_campaigns ?db = js_set (ca_id k) k' (db_campaigns db)" "evolves k k'"
  proof (cases "findCoalitionCampaignContributionByTip db (rc_tipId input)")
    case None
    have "\<exists>k'. db_campaigns ?db = js_set (ca_id k) k' (db_campaigns db) \<and> evolves k k'"
      by (rule exI [of _ "fst (the (fst (recordContribution now e input db)))"])
        (use assms(2) in \<open>simp add: recordContribution_def Some None Let_def split_beta evolves_def split: option.split\<close>)
    then show ?thesis using that(2) by blast
  qed (use Some that(1) in \<open>simp add: recordContribution_def\<close>)
  then show ?thesis
  proof cases
    case 1
    then show ?thesis by (simp add: history_refl)
  next
    case 2
    then show ?thesis using r by (auto simp: history_def getCoalitionCampaign_def)
  qed
qed (simp add: recordContribution_def history_refl)

lemma captureTip_history:
  assumes "books_ok db"
  shows "history db (snd (captureTip now e tid detail db))"
proof (cases "\<exists>t. getTip_db db tid = Some t \<and> ti_status t = Tip_pending")
  case True
  then obtain t where t: "getTip_db db tid = Some t" "ti_status t = Tip_pending" by blast
  note o = books_okD [OF assms]
  have "tip_ok t" using t(1) js_table_lookup [OF o(2)] o(3) by (auto simp: getTip_db_def)
  then obtain t' where t': "captured_row now detail t = Some t'" "tip_ok t'" using captured_row_total by blast
  note r = captured_row_Some [OF t'(1)]
  show ?thesis
  proof (cases "ti_contextKind t = Ctx_coalition_drive \<and> truthy (ti_contextRef t)")
    case True
    have "0 \<le> rc_amountCents (drive_payment t')" using t'(2) by (simp add: drive_payment_def tip_ok_def)
    from recordContribution_history [OF o(1) this, of now e] show ?thesis
      using captureTip_drive_tables(1) [OF t t'(1) conjunct1 [OF True] conjunct2 [OF True], of e]
      by (simp add: history_def getCoalitionCampaign_def)
  next
    case False
    then show ?thesis using t t'(1) r by (intro history_same) (auto simp: captureTip_def Let_def)
  qed
next
  case False
  then have "snd (captureTip now e tid detail db) = db"
    by (cases "getTip_db db tid"; cases "ti_status (the (getTip_db db tid))") (auto simp: captureTip_def)
  then show ?thesis by (simp add: history_refl)
qed

end
