(* ===== verification/Coalition_Views.thy ===== *)
theory Coalition_Views
  imports Coalition_Campaigns
begin

text \<open>
  \<^verbatim>\<open>services/coalitionNetworkStore.ts\<close>, the read side: summaries, directory,
  member rosters and campaign projections, and what a viewer who is not a member may see.
\<close>

record CoalitionSummary =
  su_coalition :: Coalition
  su_memberCount :: nat
  su_activeCampaigns :: nat
  su_viewerRole :: "CoalitionRole option"

record CoalitionMemberView =
  mv_userId :: ident
  mv_role :: CoalitionRole
  mv_joinedAt :: iso

record CoalitionView =
  vi_summary :: CoalitionSummary
  vi_members :: "CoalitionMemberView list"
  vi_hiddenMemberCount :: int
  vi_campaigns :: "CoalitionCampaign list"
  vi_stats :: CoalitionImpactStats
  vi_membership :: "CoalitionMembership option"
  vi_request :: "CoalitionJoinRequest option"
  vi_permissions :: "CoalitionPermission list"

definition activeCampaignCount :: "CoalitionDb \<Rightarrow> ident \<Rightarrow> nat" where
  "activeCampaignCount db coalitionId = length (listCoalitionCampaigns db (Some coalitionId) (Some Camp_active) None)"

definition viewer_membership :: "CoalitionDb \<Rightarrow> ident \<Rightarrow> ident option \<Rightarrow> CoalitionMembership option" where
  "viewer_membership db coalitionId viewerId =
     (if truthy viewerId then activeMembership db coalitionId (the viewerId) else None)"

definition summarize :: "CoalitionDb \<Rightarrow> Coalition \<Rightarrow> ident option \<Rightarrow> CoalitionSummary" where
  "summarize db coalition viewerId =
     \<lparr>su_coalition = coalition, su_memberCount = memberCount db (co_id coalition),
      su_activeCampaigns = activeCampaignCount db (co_id coalition),
      su_viewerRole = map_option me_role (viewer_membership db (co_id coalition) viewerId)\<rparr>"

definition listed :: "ServiceEnv \<Rightarrow> CoalitionDb \<Rightarrow> ident \<Rightarrow> bool" where
  "listed env db uid = isPubliclyListed (env_homeserver env) (db_users db) (db_profiles db) uid"

definition listCoalitions ::
    "ServiceEnv \<Rightarrow> CoalitionDb \<Rightarrow> ident option \<Rightarrow> string option \<Rightarrow> bool \<Rightarrow> ident option \<Rightarrow> CoalitionSummary list" where
  "listCoalitions env db memberId q includeArchived viewerId =
     (if truthy memberId \<and> memberId \<noteq> viewerId \<and> \<not> listed env db (the memberId) then []
      else let rows = listCoalitions_db db;
               rows = (if \<not> includeArchived then filter (\<lambda>row. \<not> truthy (co_archivedAt row)) rows else rows);
               rows = (if truthy memberId
                       then let ids = map me_coalitionId
                                  (filter me_active (listCoalitionMemberships db None memberId))
                            in filter (\<lambda>row. co_id row \<in> set ids) rows
                       else rows);
               rows = (if truthy q
                       then let needle = toLowerCase (the q)
                            in filter (\<lambda>row. js_includes (toLowerCase (co_name row)) needle \<or>
                                         js_includes (toLowerCase (co_mission row)) needle \<or>
                                         js_includes (co_slug row) needle) rows
                       else rows)
           in map (\<lambda>row. summarize db row viewerId)
                (js_sort (\<lambda>a b. iso_le (co_createdAt b) (co_createdAt a)) rows))"

definition listUserCoalitions ::
    "ServiceEnv \<Rightarrow> CoalitionDb \<Rightarrow> ident \<Rightarrow> ident option \<Rightarrow> (CoalitionSummary \<times> CoalitionRole) list" where
  "listUserCoalitions env db userId viewerId =
     (if viewerId \<noteq> Some userId \<and> \<not> listed env db userId then []
      else List.map_filter (\<lambda>m.
             (case getCoalition_db db (me_coalitionId m) of
                Some coalition \<Rightarrow>
                  if \<not> isStopped coalition then Some (summarize db coalition None, me_role m) else None
              | None \<Rightarrow> None))
             (filter me_active (listCoalitionMemberships db None (Some userId))))"

definition redactCampaignIdentities :: "CoalitionCampaign \<Rightarrow> CoalitionCampaign" where
  "redactCampaignIdentities campaign =
     campaign\<lparr>ca_createdBy := None, ca_approvedBy := None, ca_beneficiaryUserId := None\<rparr>"

definition visibleCampaigns :: "CoalitionDb \<Rightarrow> ident \<Rightarrow> bool \<Rightarrow> CoalitionCampaign list" where
  "visibleCampaigns db coalitionId viewerIsMember =
     (let rows = listCoalitionCampaigns db (Some coalitionId) None None;
          visible = (if viewerIsMember then rows
                     else map redactCampaignIdentities
                            (filter (\<lambda>row. ca_status row = Camp_active \<or> ca_status row = Camp_completed) rows))
      in js_sort (\<lambda>a b. iso_le (ca_createdAt b) (ca_createdAt a)) visible)"

text \<open>The roster order: higher rank first, then the earlier joiner.\<close>

definition roster_le :: "CoalitionMembership \<Rightarrow> CoalitionMembership \<Rightarrow> bool" where
  "roster_le a b \<longleftrightarrow> ROLE_RANK (me_role a) > ROLE_RANK (me_role b) \<or>
     (ROLE_RANK (me_role a) = ROLE_RANK (me_role b) \<and> iso_le (me_createdAt a) (me_createdAt b))"

definition member_view :: "CoalitionMembership \<Rightarrow> CoalitionMemberView" where
  "member_view m = \<lparr>mv_userId = me_userId m, mv_role = me_role m, mv_joinedAt = me_createdAt m\<rparr>"

definition getCoalitionView ::
    "ServiceEnv \<Rightarrow> CoalitionDb \<Rightarrow> string \<Rightarrow> ident option \<Rightarrow> CoalitionView CoalitionResult" where
  "getCoalitionView env db idOrSlug viewerId =
     (case getCoalition db idOrSlug of
        None \<Rightarrow> Inl Not_found
      | Some coalition \<Rightarrow>
          (let membership = viewer_membership db (co_id coalition) viewerId;
               request = (if truthy viewerId then getCoalitionJoinRequest db (co_id coalition) (the viewerId) else None);
               allMembers = map member_view (js_sort roster_le (activeMembers db (co_id coalition)));
               viewerIsMember = (membership \<noteq> None);
               members = (if viewerIsMember then allMembers
                          else filter (\<lambda>m. listed env db (mv_userId m)) allMembers);
               allCampaigns = listCoalitionCampaigns db (Some (co_id coalition)) None None
           in Inr \<lparr>vi_summary = summarize db coalition viewerId,
                   vi_members = members,
                   vi_hiddenMemberCount = int (length allMembers) - int (length members),
                   vi_campaigns = visibleCampaigns db (co_id coalition) viewerIsMember,
                   vi_stats = summarizeCoalitionImpact allCampaigns (length allMembers),
                   vi_membership = membership,
                   vi_request = (case request of
                                   Some r \<Rightarrow> if jr_status r = Req_pending \<or> jr_status r = Req_invited
                                             then Some r else None
                                 | None \<Rightarrow> None),
                   vi_permissions = (if truthy viewerId then permissionsFor db (co_id coalition) (the viewerId)
                                     else [])\<rparr>))"

record AmplifiedAidView =
  aa_campaign :: CoalitionCampaign
  aa_aidPostId :: ident
  aa_boost :: BoostMeter

definition amplified_le :: "AmplifiedAidView \<Rightarrow> AmplifiedAidView \<Rightarrow> bool" where
  "amplified_le a b \<longleftrightarrow>
     (let x = bm_visibilityMultiplier (aa_boost a); y = bm_visibilityMultiplier (aa_boost b)
      in x > y \<or> (x = y \<and>
           (bm_last24h (aa_boost a) > bm_last24h (aa_boost b) \<or>
            (bm_last24h (aa_boost a) = bm_last24h (aa_boost b) \<and>
             iso_le (ca_createdAt (aa_campaign b)) (ca_createdAt (aa_campaign a))))))"

text \<open>As in \<open>boostCampaign\<close>, a clock reading that is no date drops the row here and throws in the source.\<close>

definition listAmplifiedAid :: "CoalitionDb \<Rightarrow> string \<Rightarrow> iso \<Rightarrow> AmplifiedAidView list CoalitionResult" where
  "listAmplifiedAid db idOrSlug now =
     (case getCoalition db idOrSlug of
        None \<Rightarrow> Inl Not_found
      | Some coalition \<Rightarrow>
          Inr (js_sort amplified_le
            (List.map_filter (\<lambda>campaign.
                map_option (\<lambda>meter. \<lparr>aa_campaign = campaign, aa_aidPostId = the (ca_aidPostId campaign),
                                     aa_boost = meter\<rparr>)
                  (campaignBoostMeter db (ca_id campaign) now))
              (filter (\<lambda>row. ca_status row = Camp_active \<and> truthy (ca_aidPostId row))
                (listCoalitionCampaigns db (Some (co_id coalition)) None (Some Mutual_aid))))))"

section \<open>Properties\<close>

lemma countActive_foldl: "foldl (\<lambda>t m. t + (if me_active m then 1 else 0)) (n :: nat) ms = n + length (filter me_active ms)"
  by (induction ms arbitrary: n) auto

lemma memberCount_activeMembers: "memberCount db c = length (activeMembers db c)"
  by (simp add: memberCount_def countActiveCoalitionMembers_def countActive_foldl activeMembers_def)

text \<open>The fields of the view that a viewer without a membership gets.\<close>

lemma outsider_view:
  assumes "getCoalitionView env db s v = Inr view" and "vi_membership view = None"
  obtains c where "getCoalition db s = Some c" "viewer_membership db (co_id c) v = None"
    "vi_summary view = summarize db c v"
    "vi_members view = filter (\<lambda>m. listed env db (mv_userId m)) (map member_view (js_sort roster_le (activeMembers db (co_id c))))"
    "vi_hiddenMemberCount view = int (length (activeMembers db (co_id c))) - int (length (vi_members view))"
    "vi_campaigns view = visibleCampaigns db (co_id c) False"
proof -
  obtain c where c: "getCoalition db s = Some c"
    using assms(1) by (auto simp: getCoalitionView_def split: option.splits)
  with assms have nm: "viewer_membership db (co_id c) v = None"
    by (auto simp: getCoalitionView_def Let_def)
  have "view = \<lparr>vi_summary = summarize db c v,
      vi_members = filter (\<lambda>m. listed env db (mv_userId m)) (map member_view (js_sort roster_le (activeMembers db (co_id c)))),
      vi_hiddenMemberCount = int (length (activeMembers db (co_id c))) -
        int (length (filter (\<lambda>m. listed env db (mv_userId m)) (map member_view (js_sort roster_le (activeMembers db (co_id c)))))),
      vi_campaigns = visibleCampaigns db (co_id c) False, vi_stats = vi_stats view,
      vi_membership = None, vi_request = vi_request view, vi_permissions = vi_permissions view\<rparr>"
    using assms(1) c nm by (auto simp: getCoalitionView_def Let_def)
  then show ?thesis by (intro that [OF c nm]) (metis CoalitionView.select_convs)+
qed

text \<open>
  C36: what an outsider sees of a coalition.  A viewer who is not an active member gets
  only the members who are publicly listed, only campaigns that are active or completed
  with creator, approver and beneficiary removed, a hidden count that makes up for the
  missing members, and no role.
\<close>

theorem outsider_view_is_redacted:
  assumes "getCoalitionView env db s v = Inr view" and "vi_membership view = None"
  shows "(\<forall>m \<in> set (vi_members view). listed env db (mv_userId m)) \<and>
    (\<forall>k \<in> set (vi_campaigns view). ca_createdBy k = None \<and> ca_approvedBy k = None \<and>
       ca_beneficiaryUserId k = None \<and> ca_status k \<in> {Camp_active, Camp_completed}) \<and>
    int (length (vi_members view)) + vi_hiddenMemberCount view = int (su_memberCount (vi_summary view)) \<and>
    su_viewerRole (vi_summary view) = None"
proof (rule outsider_view [OF assms])
  fix c
  assume nm: "viewer_membership db (co_id c) v = None" and v: "vi_summary view = summarize db c v"
    "vi_members view = filter (\<lambda>m. listed env db (mv_userId m)) (map member_view (js_sort roster_le (activeMembers db (co_id c))))"
    "vi_hiddenMemberCount view = int (length (activeMembers db (co_id c))) - int (length (vi_members view))"
    "vi_campaigns view = visibleCampaigns db (co_id c) False"
  have "ca_createdBy k = None \<and> ca_approvedBy k = None \<and> ca_beneficiaryUserId k = None \<and>
      ca_status k \<in> {Camp_active, Camp_completed}" if "k \<in> set (vi_campaigns view)" for k
    using that unfolding v(4) by (auto simp: visibleCampaigns_def redactCampaignIdentities_def Let_def)
  moreover have "listed env db (mv_userId m)" if "m \<in> set (vi_members view)" for m
    using that unfolding v(2) by auto
  ultimately show ?thesis
    using v(1,3) nm by (simp add: summarize_def memberCount_activeMembers)
qed

text \<open>\<open>bo\<close> opted out of public listing.\<close>

definition sample_view_db :: CoalitionDb where
  "sample_view_db = sample_drive_db
     \<lparr>db_users := map (\<lambda>i. (i, sample_user\<lparr>us_id := i, us_username := i\<rparr>)) [''ana'', ''bo''],
      db_profiles := [(''bo'', Some True)]\<rparr>"

definition sample_env :: ServiceEnv where
  "sample_env = \<lparr>env_homeserver = None, env_boostAllowance = None, env_entitlements = None\<rparr>"

lemma outsider_view_is_redacted_witness:
  "\<exists>view. getCoalitionView sample_env sample_view_db ''food'' (Some ''zoe'') = Inr view \<and>
     map mv_userId (vi_members view) = [''ana''] \<and> length (vi_campaigns view) = 1 \<and>
     (\<forall>k \<in> set (vi_campaigns view). ca_createdBy k = None)"
proof -
  let ?v = "getCoalitionView sample_env sample_view_db ''food'' (Some ''zoe'')"
  have "(case ?v of Inl _ \<Rightarrow> False | Inr view \<Rightarrow> vi_membership view = None \<and>
      map mv_userId (vi_members view) = [''ana''] \<and> length (vi_campaigns view) = 1)"
    by code_simp
  then obtain view where v: "?v = Inr view" "vi_membership view = None"
    "map mv_userId (vi_members view) = [''ana'']" "length (vi_campaigns view) = 1"
    by (auto split: sum.splits)
  with outsider_view_is_redacted [OF v(1,2)] show ?thesis by auto
qed



end
