(* ===== verification/Transition_Systems.thy ===== *)
theory Transition_Systems
  imports Main
begin

text \<open>
  Reachability in a transition system, invariants, and simulation by an abstract system.
  The locales are the proof rules that the whole-system theories instantiate.
\<close>

inductive reachable :: "('s \<Rightarrow> 's \<Rightarrow> bool) \<Rightarrow> ('s \<Rightarrow> bool) \<Rightarrow> 's \<Rightarrow> bool"
  for step init where
  reach_init: "init s \<Longrightarrow> reachable step init s"
| reach_step: "reachable step init s \<Longrightarrow> step s s' \<Longrightarrow> reachable step init s'"

lemma reachable_rtranclp: "reachable step init s \<Longrightarrow> step\<^sup>*\<^sup>* s s' \<Longrightarrow> reachable step init s'"
  by (rotate_tac, induction rule: rtranclp_induct) (auto intro: reach_step)

locale invariant_system =
  fixes step :: "'s \<Rightarrow> 's \<Rightarrow> bool"
    and init :: "'s \<Rightarrow> bool"
    and inv :: "'s \<Rightarrow> bool"
  assumes init_inv: "init s \<Longrightarrow> inv s"
    and step_inv: "inv s \<Longrightarrow> step s s' \<Longrightarrow> inv s'"
begin

lemma reachable_inv: "reachable step init s \<Longrightarrow> inv s"
  by (induction rule: reachable.induct) (auto intro: init_inv step_inv)

lemma steps_inv: "step\<^sup>*\<^sup>* s s' \<Longrightarrow> inv s \<Longrightarrow> inv s'"
  by (induction rule: rtranclp_induct) (auto intro: step_inv)

text \<open>A preorder that every step from a good state respects relates a state to all later ones.\<close>

lemma steps_preserve:
  assumes "step\<^sup>*\<^sup>* s s'" and "inv s" and "\<And>x. R x x" and "\<And>x y z. R x y \<Longrightarrow> R y z \<Longrightarrow> R x z"
    and "\<And>x y. inv x \<Longrightarrow> step x y \<Longrightarrow> R x y"
  shows "R s s'"
  using assms(1)
proof (induction rule: rtranclp_induct)
  case (step y z)
  then have "inv y" using steps_inv assms(2) by blast
  with step assms(4,5) show ?case by blast
qed (rule assms(3))

end

text \<open>Every step of the system is a step of the abstract one, or invisible there.\<close>

locale simulation = invariant_system +
  fixes abs_step :: "'a \<Rightarrow> 'a \<Rightarrow> bool"
    and abs_of :: "'s \<Rightarrow> 'a"
  assumes simulates: "inv s \<Longrightarrow> step s s' \<Longrightarrow> abs_of s' = abs_of s \<or> abs_step (abs_of s) (abs_of s')"
begin

lemma reachable_simulated: "reachable step init s \<Longrightarrow> \<exists>s0. init s0 \<and> abs_step\<^sup>*\<^sup>* (abs_of s0) (abs_of s)"
proof (induction rule: reachable.induct)
  case (reach_step s s')
  then obtain s0 where s0: "init s0" "abs_step\<^sup>*\<^sup>* (abs_of s0) (abs_of s)" by blast
  from simulates [OF reachable_inv [OF reach_step(1)] reach_step(2)] s0 show ?case
    by (metis rtranclp.rtrancl_into_rtrancl)
qed blast

end

end
