(* ===== verification/Coalition_System.thy ===== *)
theory Coalition_System
  imports Campaign_History Coalition_Views Transition_Systems
begin

text \<open>
  The coalition service as one transition system: a step is one completed call of a
  state-changing operation, by anyone, with any arguments, or one half of a background
  job.  The premises say that an id the operation draws at random is new.  The environment
  of the process is fixed.
\<close>

section \<open>Steps\<close>

inductive coalition_step :: "ServiceEnv \<Rightarrow> CoalitionDb \<Rightarrow> CoalitionDb \<Rightarrow> bool"
  for env :: ServiceEnv where
  st_create: "js_get (newCoalitionId e) (db_coalitions db) = None \<Longrightarrow> colon_free (newCoalitionId e) \<Longrightarrow>
    coalition_step env db (snd (createCoalition now e space input db))"
| st_update: "coalition_step env db (snd (updateCoalition now s a patch db))"
| st_takeDown: "coalition_step env db (snd (takeDownCoalition now s a reason db))"
| st_reinstate: "coalition_step env db (snd (reinstateCoalition now s a db))"
| st_archive: "coalition_step env db (snd (archiveCoalition now s a db))"
| st_requestJoin: "coalition_step env db (snd (requestJoin now e env ms s u msg db))"
| st_review: "coalition_step env db (snd (reviewJoinRequest now e s a u ok db))"
| st_withdrawRequest: "coalition_step env db (snd (withdrawJoinRequest now s u db))"
| st_invite: "coalition_step env db (snd (inviteMember now e s a u db))"
| st_leave: "coalition_step env db (snd (leaveCoalition now s u db))"
| st_remove: "coalition_step env db (snd (removeMember now s a u db))"
| st_setRole: "coalition_step env db (snd (setMemberRole now s a u r db))"
| st_transfer: "coalition_step env db (snd (transferFounder now s a u db))"
| st_openPetition: "js_get (newPetitionId e) (db_petitions db) = None \<Longrightarrow>
    coalition_step env db (snd (openSuccessionPetition now e s a reason db))"
| st_secondPetition: "coalition_step env db (snd (secondSuccessionPetition now s a db))"
| st_withdrawPetition: "coalition_step env db (snd (withdrawSuccessionPetition now s a db))"
| st_createCampaign: "js_get (newCampaignId e) (db_campaigns db) = None \<Longrightarrow>
    coalition_step env db (snd (createCampaign now e b s a ci db))"
| st_approveCampaign: "coalition_step env db (snd (approveCampaign now s a cid db))"
| st_transitionCampaign: "coalition_step env db (snd (transitionCampaign now s a cid to db))"
| st_boost: "coalition_step env db (snd (boostCampaign now e env s a cid db))"
| st_raiseAid: "js_get (newCampaignId e) (db_campaigns db) = None \<Longrightarrow>
    coalition_step env db (snd (raiseAidPost now e env s a post db))"
| st_setPayees: "coalition_step env db (snd (setCampaignPayees now es env s a cid ps db))"
| st_createTip: "js_get tid (db_tips db) = None \<Longrightarrow> coalition_step env db (snd (createTip now tid ti db))"
| st_contribute: "js_get tid (db_tips db) = None \<Longrightarrow>
    coalition_step env db (snd (startContribution now tid provider sc db))"
| st_capture: "js_get (newContributionId e) (db_contributions db) = None \<Longrightarrow>
    coalition_step env db (snd (captureTip now e tid detail db))"
| st_refund: "coalition_step env db (snd (refundTip now tid db))"
| st_listingCall: "coalition_step env db (snd (ensureDriveListing_call provider k db))"
| st_listingStore: "coalition_step env db (ensureDriveListing_store now k l db)"
| st_archiveCall: "coalition_step env db (snd (archiveDriveListing_call provider k db))"
| st_archiveStore: "coalition_step env db (archiveDriveListing_store now k l db)"
| st_withdrawListings: "coalition_step env db (withdrawCoalitionListings now provider cid db)"

section \<open>Frames\<close>

text \<open>The tables of campaigns and money, and those of coalitions and members.\<close>

definition money :: "CoalitionDb \<Rightarrow> (ident, CoalitionCampaign) js_map \<times> (ident, CoalitionCampaignContribution) js_map \<times>
    (ident, TipRecord) js_map \<times> (string, CoalitionBoost) js_map" where
  "money db = (db_campaigns db, db_contributions db, db_tips db, db_boosts db)"

definition community :: "CoalitionDb \<Rightarrow> (ident, Coalition) js_map \<times> (string, CoalitionMembership) js_map \<times>
    (ident, CoalitionSuccessionPetition) js_map" where
  "community db = (db_coalitions db, db_memberships db, db_petitions db)"

lemma money_upserts [simp]:
  "money (snd (upsertCoalition now c db)) = money db"
  "money (snd (upsertCoalitionMembership now m db)) = money db"
  "money (snd (upsertCoalitionJoinRequest now j db)) = money db"
  "money (snd (upsertCoalitionSuccessionPetition now p db)) = money db"
  "money (snd (upsertCoalitionCampaignPayee now pa db)) = money db"
  "money (emit ev db) = money db"
  by (simp_all add: money_def)

lemma money_revoke [simp]: "money (snd (revokeMemberLinks now c p u db)) = money db"
  by (simp add: money_def)

lemma community_upserts [simp]:
  "community (snd (upsertCoalitionCampaign now k db)) = community db"
  "community (snd (upsertCoalitionBoost now b db)) = community db"
  "community (snd (upsertCoalitionCampaignPayee now p db)) = community db"
  "community (snd (upsertCoalitionCampaignContribution now r db)) = community db"
  "community (emit ev db) = community db" "community (updateTip t db) = community db"
  "community (insertTip t db) = community db" "community (fold emit es db) = community db"
  by (simp_all add: community_def)

lemma admit_money [simp]: "money (snd (admit now e c u r via db)) = money db"
  by (simp add: admit_def op_simps)

lemma lifecycle_money:
  "money (snd (createCoalition now e space input db)) = money db"
  "money (snd (updateCoalition now s a patch db)) = money db"
  "money (snd (takeDownCoalition now s a reason db)) = money db"
  "money (snd (reinstateCoalition now s a db)) = money db"
  "money (snd (archiveCoalition now s a db)) = money db"
  by (auto simp: createCoalition_def updateCoalition_def takeDownCoalition_def reinstateCoalition_def
      archiveCoalition_def op_simps split: option.splits sum.splits)

lemma member_money:
  "money (snd (requestJoin now e env ms s u msg db)) = money db"
  "money (snd (reviewJoinRequest now e s a u ok db)) = money db"
  "money (snd (withdrawJoinRequest now s u db)) = money db"
  "money (snd (inviteMember now e s a u db)) = money db"
  "money (snd (leaveCoalition now s u db)) = money db"
  "money (snd (removeMember now s a u db)) = money db"
  "money (snd (setMemberRole now s a u r db)) = money db"
  by (auto simp: requestJoin_def joinByPolicy_def reviewJoinRequest_def withdrawJoinRequest_def inviteMember_def
      leaveCoalition_def removeMember_def setMemberRole_def op_simps split: option.splits sum.splits)

lemma transferFounderUnchecked_money [simp]: "money (snd (transferFounderUnchecked now c u db)) = money db"
  by (auto simp: transferFounderUnchecked_def op_simps split: option.splits)

lemma succession_money:
  "money (snd (transferFounder now s a u db)) = money db"
  "money (snd (openSuccessionPetition now e s a reason db)) = money db"
  "money (snd (withdrawSuccessionPetition now s a db)) = money db"
  by (auto simp: transferFounder_def openSuccessionPetition_def withdrawSuccessionPetition_def op_simps
      split: option.splits sum.splits)

lemma secondSuccessionPetition_money: "money (snd (secondSuccessionPetition now s a db)) = money db"
proof -
  have "money db1 = money db" if "transferFounderUnchecked now c u db = (r, db1)" for c u r db1
    using transferFounderUnchecked_money [of now c u db] that by simp
  then show ?thesis
    by (auto simp: secondSuccessionPetition_def op_simps split: option.splits sum.splits prod.splits)
qed

lemma campaign_community:
  "community (snd (createCampaign now e b s a ci db)) = community db"
  "community (snd (approveCampaign now s a cid db)) = community db"
  "community (snd (transitionCampaign now s a cid to db)) = community db"
  "community (snd (boostCampaign now e env s a cid db)) = community db"
  "community (snd (raiseAidPost now e env s a post db)) = community db"
  by (auto simp: createCampaign_def approveCampaign_def transitionCampaign_def boostCampaign_def raiseAidPost_def
      op_simps split: option.splits sum.splits)

lemma save_payees_frame: "community (snd (save_payees now c k ps db)) = community db"
  "money (snd (save_payees now c k ps db)) = money db"
  by (induction ps arbitrary: db) (auto simp: Let_def split_beta)

lemma deactivate_frame: "community (fold (deactivate_payee now) ps db) = community db"
  "money (fold (deactivate_payee now) ps db) = money db"
  by (induction ps arbitrary: db) (simp_all add: deactivate_payee_def)

lemma setCampaignPayees_frame:
  "community (snd (setCampaignPayees now es env s a cid ps db)) = community db"
  "money (snd (setCampaignPayees now es env s a cid ps db)) = money db"
  by (auto simp: setCampaignPayees_def op_simps save_payees_frame deactivate_frame split: option.splits sum.splits)

lemma recordContribution_community [simp]: "community (snd (recordContribution now e i db)) = community db"
  by (auto simp: recordContribution_def Let_def split_beta split: option.splits)

text \<open>A view of the database that effects and tips leave alone, the tip operations leave alone.\<close>

lemma createTip_frame:
  assumes "\<And>t d. f (updateTip t d) = f d"
  shows "f (snd (createTip now tid ti db)) = f db"
  by (auto simp: createTip_def Let_def assms split: option.splits)

lemma startContribution_frame:
  assumes e: "\<And>x d. f (emit x d) = f d" and t: "\<And>t d. f (updateTip t d) = f d"
  shows "f (snd (startContribution now tid provider sc db)) = f db"
proof -
  have r: "snd (refused reason split db) = db" for reason split
    by (simp add: refused_def split: option.splits)
  have o: "f (snd (open_checkout p i l b t d)) = f d" for p i l b t d
    by (simp add: open_checkout_def Let_def e split: option.splits prod.splits)
  have "f (snd (case createTip now tid i db of (Inl err, d) \<Rightarrow> (Inl err, d)
      | (Inr t, d) \<Rightarrow> open_checkout p sc l b t d)) = f db" for i p l b
    using createTip_frame [of f, OF t, of now tid i db] by (auto simp: o split: prod.splits sum.splits)
  then show ?thesis by (simp add: startContribution_def Let_def r split: option.splits)
qed

text \<open>Likewise for the listing operations and a view that campaign rows do not show in.\<close>

lemma listing_frame:
  assumes e: "\<And>x d. f (emit x d) = f d" and k: "\<And>now k d. f (snd (upsertCoalitionCampaign now k d)) = f d"
  shows "f (snd (ensureDriveListing_call provider k db)) = f db"
    and "f (ensureDriveListing_store now k l db) = f db"
    and "f (snd (archiveDriveListing_call provider k db)) = f db"
    and "f (archiveDriveListing_store now k l db) = f db"
    and "f (withdrawCoalitionListings now provider cid db) = f db"
proof -
  show c: "f (snd (archiveDriveListing_call provider k db)) = f db" for k db
    by (auto simp: archiveDriveListing_call_def Let_def e split: option.splits)
  show s: "f (archiveDriveListing_store now k l db) = f db" for k l db
    by (auto simp: archiveDriveListing_store_def k split: option.splits)
  have a: "f (archiveDriveListing now provider k db) = f db" for k db
    using c [of k db] by (auto simp: archiveDriveListing_def s split: prod.splits option.splits)
  have "f (fold (\<lambda>k db. if truthy (ca_fbmListingId k) then archiveDriveListing now provider k db else db) ks db) = f db" for ks
    by (induction ks arbitrary: db) (simp_all add: a)
  then show "f (withdrawCoalitionListings now provider cid db) = f db" by (simp add: withdrawCoalitionListings_def)
qed (auto simp: ensureDriveListing_call_def ensureDriveListing_store_def Let_def e k
    split: option.splits sum.splits prod.splits)

lemmas createTip_community = createTip_frame [of community, OF community_upserts(6)]
lemmas startContribution_community = startContribution_frame [of community, OF community_upserts(5,6)]
lemmas listing_community = listing_frame [of community, OF community_upserts(5,1)]

lemma tip_community:
  "community (snd (captureTip now e tid detail db)) = community db"
  "community (snd (refundTip now tid db)) = community db"
  by (auto simp: captureTip_def refundTip_def Let_def split: option.splits)

end
