(* ===== verification/Coalition_Invariants.thy ===== *)
theory Coalition_Invariants
  imports Coalition_System
begin

text \<open>
  The invariants of the coalition service, preserved by every step, and what follows for
  all reachable states.
\<close>

section \<open>Slugs\<close>

lemma uniqueSlug_owner:
  assumes "slugs_distinct db" and "c \<in> set (js_values (db_coalitions db))" and "co_slug c = uniqueSlug db name ex"
  shows "ex = Some (co_id c)"
  using slug_loop_free [of db "slugifyCoalitionName name" ex "slugifyCoalitionName name" 2 c]
    getCoalitionBySlug_iff [OF assms(1)] assms(2,3)
  by (simp add: uniqueSlug_def Let_def)

lemma slugs_put:
  assumes t: "js_table co_id (db_coalitions db)" and d: "slugs_distinct db"
    and own: "\<And>x. x \<in> set (js_values (db_coalitions db)) \<Longrightarrow> co_slug x = co_slug c \<Longrightarrow> co_id x = co_id c"
    and eq: "db_coalitions db' = js_set (co_id c) c (db_coalitions db)"
  shows "slugs_distinct db'"
proof (cases "js_get (co_id c) (db_coalitions db)")
  case None
  have "co_slug c \<notin> co_slug ` set (js_values (db_coalitions db))"
    using own coalition_rows.lookup_None [OF t None] by (metis imageE)
  then show ?thesis
    using d coalition_rows.rows_put_new [OF t None] unfolding slugs_distinct_def eq by simp
next
  case (Some old)
  obtain xs ys where v: "js_values (db_coalitions db) = xs @ old # ys"
    "js_values (js_set (co_id c) c (db_coalitions db)) = xs @ c # ys"
    using coalition_rows.rows_put_old [OF t Some] by blast
  have "co_id old = co_id c" using Some js_table_lookup [OF t] by auto
  then have "co_id x \<noteq> co_id c" if "x \<in> set xs \<union> set ys" for x
    using coalition_rows.wf_distinct [OF t] that unfolding v by (force simp: image_iff)
  moreover have "x \<in> set (js_values (db_coalitions db))" if "x \<in> set xs \<union> set ys" for x
    using that unfolding v by auto
  ultimately have "co_slug c \<notin> co_slug ` (set xs \<union> set ys)" using own by (metis imageE)
  then show ?thesis using d unfolding slugs_distinct_def eq v by (simp add: image_Un)
qed

lemma slugs_upsert:
  assumes "js_table co_id (db_coalitions db)" and "slugs_distinct db"
    and "\<And>x. x \<in> set (js_values (db_coalitions db)) \<Longrightarrow> co_slug x = co_slug c \<Longrightarrow> co_id x = co_id c"
  shows "slugs_distinct (snd (upsertCoalition now c db))"
  by (rule slugs_put [OF assms(1,2), of "fst (upsertCoalition now c db)"]) (use assms(3) in simp_all)

lemma slugs_cong: "db_coalitions db' = db_coalitions db \<Longrightarrow> slugs_distinct db' = slugs_distinct db"
  by (simp add: slugs_distinct_def)

lemma slugs_frame [simp]:
  "slugs_distinct (emit e db) = slugs_distinct db"
  "slugs_distinct (snd (upsertCoalitionMembership now m db)) = slugs_distinct db"
  by (simp_all add: slugs_distinct_def)

lemma slug_own:
  assumes "slugs_distinct db" and "c \<in> set (js_values (db_coalitions db))"
    and "x \<in> set (js_values (db_coalitions db))" and "co_slug x = co_slug c"
  shows "co_id x = co_id c"
  using assms by (auto simp: slugs_distinct_def distinct_map inj_on_def)

lemma apply_patch_slug:
  assumes "slugs_distinct db" and "c \<in> set (js_values (db_coalitions db))"
    and "x \<in> set (js_values (db_coalitions db))" and "co_slug x = co_slug (apply_patch db patch c)"
  shows "co_id x = co_id c"
proof (cases "up_name patch")
  case None
  with assms show ?thesis using slug_own [OF assms(1-3)] by (simp add: apply_patch_def)
next
  case (Some n)
  with assms(4) have "co_slug x = uniqueSlug db n (Some (co_id c))" by (simp add: apply_patch_def)
  from uniqueSlug_owner [OF assms(1,3) this] show ?thesis by simp
qed

lemma lifecycle_slugs:
  assumes wf: "wf_members db" and d: "slugs_distinct db"
  shows "slugs_distinct (snd (updateCoalition now s a patch db))"
    and "slugs_distinct (snd (takeDownCoalition now s a reason db))"
    and "slugs_distinct (snd (reinstateCoalition now s a db))"
    and "slugs_distinct (snd (archiveCoalition now s a db))"
proof -
  note t = wf_membersD(1) [OF wf]
  have own: "slugs_distinct (snd (upsertCoalition now c' db))"
    if "getCoalition db s = Some c" "co_id c' = co_id c" "co_slug c' = co_slug c" for c c'
    using slug_own [OF d conjunct1 [OF getCoalition_row [OF wf that(1)]]] that(2,3)
    by (intro slugs_upsert [OF t d]) auto
  have patch: "slugs_distinct (snd (upsertCoalition now (apply_patch db patch c) db))"
    if "getCoalition db s = Some c" for c
    using apply_patch_slug [OF d conjunct1 [OF getCoalition_row [OF wf that]]]
    by (intro slugs_upsert [OF t d]) auto
  show "slugs_distinct (snd (updateCoalition now s a patch db))"
    using patch d by (auto simp: updateCoalition_def op_simps split: option.splits sum.splits)
  show "slugs_distinct (snd (takeDownCoalition now s a reason db))"
    using own d by (auto simp: takeDownCoalition_def op_simps split: option.splits)
  show "slugs_distinct (snd (reinstateCoalition now s a db))"
    using own d by (auto simp: reinstateCoalition_def op_simps split: option.splits)
  show "slugs_distinct (snd (archiveCoalition now s a db))"
    using own d by (auto simp: archiveCoalition_def op_simps split: option.splits sum.splits)
qed

lemma createCoalition_slugs:
  assumes wf: "wf_members db" and d: "slugs_distinct db"
  shows "slugs_distinct (snd (createCoalition now e space input db))"
proof -
  note t = wf_membersD(1) [OF wf]
  have one: "slugs_distinct (snd (upsertCoalition now c db))" "js_table co_id (db_coalitions (snd (upsertCoalition now c db)))"
    "fst (upsertCoalition now c db) \<in> set (js_values (db_coalitions (snd (upsertCoalition now c db))))"
    if "co_slug c = uniqueSlug db (cc_name input) None" for c
  proof -
    show "slugs_distinct (snd (upsertCoalition now c db))"
      using uniqueSlug_owner [OF d, of _ "cc_name input" None] that by (intro slugs_upsert [OF t d]) auto
    have "js_table co_id (js_set (co_id (fst (upsertCoalition now c db))) (fst (upsertCoalition now c db)) (db_coalitions db))"
      by (rule js_table_set [OF t])
    then show tab: "js_table co_id (db_coalitions (snd (upsertCoalition now c db)))" by simp
    show "fst (upsertCoalition now c db) \<in> set (js_values (db_coalitions (snd (upsertCoalition now c db))))"
      using js_table_lookup [OF tab, of "co_id c" "fst (upsertCoalition now c db)"] by simp
  qed
  have two: "slugs_distinct (snd (upsertCoalition now' ((fst (upsertCoalition now c db))\<lparr>co_spaceRoomId := x\<rparr>) db2))"
    if "co_slug c = uniqueSlug db (cc_name input) None" "db_coalitions db2 = db_coalitions (snd (upsertCoalition now c db))"
    for c x db2 now'
  proof (rule slugs_upsert)
    show "js_table co_id (db_coalitions db2)" using one(2) [OF that(1)] that(2) by simp
    show "slugs_distinct db2" using one(1) [OF that(1)] slugs_cong [OF that(2)] by simp
    fix y
    assume "y \<in> set (js_values (db_coalitions db2))"
      and "co_slug y = co_slug ((fst (upsertCoalition now c db))\<lparr>co_spaceRoomId := x\<rparr>)"
    then show "co_id y = co_id ((fst (upsertCoalition now c db))\<lparr>co_spaceRoomId := x\<rparr>)"
      using slug_own [OF one(1) [OF that(1)] one(3) [OF that(1)], of y] that(2) by simp
  qed
  show ?thesis
    by (auto simp: createCoalition_def op_simps intro!: one(1) two)
qed

section \<open>Succession petitions\<close>

definition petition_ok :: "CoalitionSuccessionPetition \<Rightarrow> bool" where
  "petition_ok p \<longleftrightarrow> distinct (pe_secondedBy p) \<and> pe_candidateUserId p \<notin> set (pe_secondedBy p)"

definition petitions_ok :: "CoalitionDb \<Rightarrow> bool" where
  "petitions_ok db \<longleftrightarrow> js_table pe_id (db_petitions db) \<and>
     (\<forall>p \<in> set (js_values (db_petitions db)). petition_ok p) \<and>
     (\<forall>p \<in> set (js_values (db_petitions db)). \<forall>q \<in> set (js_values (db_petitions db)).
        pe_status p = Succ_open \<longrightarrow> pe_status q = Succ_open \<longrightarrow> pe_coalitionId p = pe_coalitionId q \<longrightarrow> p = q)"

lemma petitions_cong: "db_petitions db' = db_petitions db \<Longrightarrow> petitions_ok db' = petitions_ok db"
  by (simp add: petitions_ok_def)

lemma petitions_emit [simp]: "petitions_ok (emit e db) = petitions_ok db"
  by (rule petitions_cong) simp

lemma petitions_put:
  assumes ok: "petitions_ok db" and p: "petition_ok p"
    and only: "\<And>q. q \<in> set (js_values (db_petitions db)) \<Longrightarrow> pe_status p = Succ_open \<Longrightarrow> pe_status q = Succ_open \<Longrightarrow>
      pe_coalitionId q = pe_coalitionId p \<Longrightarrow> pe_id q = pe_id p"
    and eq: "db_petitions db' = js_set (pe_id p) p (db_petitions db)"
  shows "petitions_ok db'"
proof -
  have t: "js_table pe_id (db_petitions db)" using ok by (simp add: petitions_ok_def)
  have rows: "set (js_values (db_petitions db')) = insert p {x \<in> set (js_values (db_petitions db)). pe_id x \<noteq> pe_id p}"
    unfolding eq by (rule petition_rows.set_rows_put [OF t])
  have "js_table pe_id (db_petitions db')" unfolding eq by (rule js_table_set [OF t])
  moreover have "\<forall>x \<in> set (js_values (db_petitions db')). petition_ok x"
    using ok p unfolding rows petitions_ok_def by blast
  moreover have "x = y" if "x \<in> set (js_values (db_petitions db'))" "y \<in> set (js_values (db_petitions db'))"
      "pe_status x = Succ_open" "pe_status y = Succ_open" "pe_coalitionId x = pe_coalitionId y" for x y
    using that ok only [of x] only [of y] unfolding rows petitions_ok_def by auto
  ultimately show ?thesis unfolding petitions_ok_def by blast
qed

lemma petitions_upsert:
  assumes "petitions_ok db" and "petition_ok p"
    and "\<And>q. q \<in> set (js_values (db_petitions db)) \<Longrightarrow> pe_status p = Succ_open \<Longrightarrow> pe_status q = Succ_open \<Longrightarrow>
      pe_coalitionId q = pe_coalitionId p \<Longrightarrow> pe_id q = pe_id p"
  shows "petitions_ok (snd (upsertCoalitionSuccessionPetition now p db))"
  using assms(2,3)
  by (intro petitions_put [OF assms(1), of "fst (upsertCoalitionSuccessionPetition now p db)"])
    (simp_all add: petition_ok_def)

lemma open_petition:
  assumes "getOpenCoalitionSuccessionPetition db c = Some p"
  shows "p \<in> set (js_values (db_petitions db))" "pe_coalitionId p = c" "pe_status p = Succ_open"
  using assms by (auto simp: getOpenCoalitionSuccessionPetition_def dest: find_SomeD)

lemma petition_change:
  assumes ok: "petitions_ok db" and p: "getOpenCoalitionSuccessionPetition db c = Some p"
    and p': "pe_id p' = pe_id p" "pe_coalitionId p' = c" "petition_ok p'"
    and db': "db_petitions db' = db_petitions db"
  shows "petitions_ok (snd (upsertCoalitionSuccessionPetition now p' db'))"
proof (rule petitions_upsert)
  show "petitions_ok db'" using ok petitions_cong [OF db'] by simp
  note o = open_petition [OF p]
  fix q
  assume "q \<in> set (js_values (db_petitions db'))" "pe_status q = Succ_open" "pe_coalitionId q = pe_coalitionId p'"
  then show "pe_id q = pe_id p'" using ok o p'(1,2) db' unfolding petitions_ok_def by metis
qed (rule p'(3))

lemma openSuccessionPetition_petitions:
  assumes ok: "petitions_ok db" and fresh: "js_get (newPetitionId e) (db_petitions db) = None"
  shows "petitions_ok (snd (openSuccessionPetition now e s a reason db))"
proof -
  have new: "petitions_ok (snd (upsertCoalitionSuccessionPetition now p db))"
    if "getOpenCoalitionSuccessionPetition db c = None" "pe_coalitionId p = c" "pe_secondedBy p = []" for p c
  proof (rule petitions_upsert [OF ok])
    fix q
    assume "q \<in> set (js_values (db_petitions db))" "pe_status q = Succ_open" "pe_coalitionId q = pe_coalitionId p"
    with that(1,2) have False by (auto simp: getOpenCoalitionSuccessionPetition_def dest: find_NoneD)
    then show "pe_id q = pe_id p" ..
  qed (simp add: petition_ok_def that(3))
  show ?thesis
    using ok by (auto simp: openSuccessionPetition_def op_simps
        split: option.splits sum.splits intro!: new)
qed

lemma transferFounderUnchecked_petitions [simp]:
  "db_petitions (snd (transferFounderUnchecked now c u db)) = db_petitions db"
  by (auto simp: transferFounderUnchecked_def op_simps split: option.splits)

lemma secondSuccessionPetition_petitions:
  assumes ok: "petitions_ok db"
  shows "petitions_ok (snd (secondSuccessionPetition now s a db))"
proof -
  have change: "petitions_ok (snd (upsertCoalitionSuccessionPetition now p' db'))"
    if "getOpenCoalitionSuccessionPetition db c = Some p" "pe_candidateUserId p \<noteq> a"
      "pe_id p' = pe_id p" "pe_coalitionId p' = c" "pe_candidateUserId p' = pe_candidateUserId p"
      "pe_secondedBy p' = (if a \<in> set (pe_secondedBy p) then pe_secondedBy p else pe_secondedBy p @ [a])"
      "db_petitions db' = db_petitions db" for p p' c db'
  proof (rule petition_change [OF ok that(1,3,4) _ that(7)])
    have "petition_ok p" using ok open_petition(1) [OF that(1)] by (simp add: petitions_ok_def)
    then show "petition_ok p'" using that(2,5,6) by (auto simp: petition_ok_def)
  qed
  show ?thesis
  proof (cases "getCoalition db s")
    case (Some c)
    show ?thesis
    proof (cases "getOpenCoalitionSuccessionPetition db (co_id c)")
      case p: (Some p)
      note o = open_petition(2) [OF p]
      show ?thesis
        using ok by (auto simp: secondSuccessionPetition_def op_simps Some p o petitions_cong [OF transferFounderUnchecked_petitions]
            split: sum.splits intro!: change [OF p])
    qed (use ok in \<open>auto simp: secondSuccessionPetition_def op_simps Some split: sum.splits\<close>)
  qed (use ok in \<open>simp add: secondSuccessionPetition_def op_simps\<close>)
qed

lemma withdrawSuccessionPetition_petitions:
  assumes ok: "petitions_ok db"
  shows "petitions_ok (snd (withdrawSuccessionPetition now s a db))"
proof -
  have "petitions_ok (snd (upsertCoalitionSuccessionPetition now
      (p\<lparr>pe_status := Succ_withdrawn, pe_resolvedBy := x, pe_resolvedAt := y\<rparr>) db))"
    if "getOpenCoalitionSuccessionPetition db c = Some p" for c p x y
  proof -
    have "petition_ok p" using ok open_petition(1) [OF that] by (simp add: petitions_ok_def)
    then show ?thesis
      using open_petition(2) [OF that] by (intro petition_change [OF ok that]) (simp_all add: petition_ok_def)
  qed
  then show ?thesis
    using ok by (auto simp: withdrawSuccessionPetition_def op_simps split: option.splits)
qed

lemma member_petitions:
  "db_petitions (snd (requestJoin now e env ms s u msg db)) = db_petitions db"
  "db_petitions (snd (reviewJoinRequest now e s a u ok db)) = db_petitions db"
  "db_petitions (snd (withdrawJoinRequest now s u db)) = db_petitions db"
  "db_petitions (snd (inviteMember now e s a u db)) = db_petitions db"
  "db_petitions (snd (leaveCoalition now s u db)) = db_petitions db"
  "db_petitions (snd (removeMember now s a u db)) = db_petitions db"
  "db_petitions (snd (setMemberRole now s a u r db)) = db_petitions db"
  "db_petitions (snd (transferFounder now s a u db)) = db_petitions db"
  by (auto simp: requestJoin_def joinByPolicy_def admit_def reviewJoinRequest_def withdrawJoinRequest_def inviteMember_def
      leaveCoalition_def removeMember_def setMemberRole_def transferFounder_def op_simps split: option.splits sum.splits)

lemma lifecycle_petitions:
  "db_petitions (snd (createCoalition now e space input db)) = db_petitions db"
  "db_petitions (snd (updateCoalition now s a patch db)) = db_petitions db"
  "db_petitions (snd (takeDownCoalition now s a reason db)) = db_petitions db"
  "db_petitions (snd (reinstateCoalition now s a db)) = db_petitions db"
  "db_petitions (snd (archiveCoalition now s a db)) = db_petitions db"
  by (auto simp: createCoalition_def updateCoalition_def takeDownCoalition_def reinstateCoalition_def
      archiveCoalition_def op_simps split: option.splits sum.splits)

lemma member_coalitions:
  "db_coalitions (snd (requestJoin now e env ms s u msg db)) = db_coalitions db"
  "db_coalitions (snd (reviewJoinRequest now e s a u ok db)) = db_coalitions db"
  "db_coalitions (snd (withdrawJoinRequest now s u db)) = db_coalitions db"
  "db_coalitions (snd (inviteMember now e s a u db)) = db_coalitions db"
  "db_coalitions (snd (leaveCoalition now s u db)) = db_coalitions db"
  "db_coalitions (snd (removeMember now s a u db)) = db_coalitions db"
  "db_coalitions (snd (setMemberRole now s a u r db)) = db_coalitions db"
  by (auto simp: requestJoin_def joinByPolicy_def admit_def reviewJoinRequest_def withdrawJoinRequest_def inviteMember_def
      leaveCoalition_def removeMember_def setMemberRole_def op_simps split: option.splits sum.splits)

lemma transferFounderUnchecked_coalitions [simp]:
  "db_coalitions (snd (transferFounderUnchecked now c u db)) = db_coalitions db"
  by (auto simp: transferFounderUnchecked_def op_simps split: option.splits)

lemma succession_coalitions:
  "db_coalitions (snd (transferFounder now s a u db)) = db_coalitions db"
  "db_coalitions (snd (openSuccessionPetition now e s a reason db)) = db_coalitions db"
  "db_coalitions (snd (withdrawSuccessionPetition now s a db)) = db_coalitions db"
  "db_coalitions (snd (secondSuccessionPetition now s a db)) = db_coalitions db"
  using secondSuccessionPetition_tables [of now s a db]
  by (auto simp: transferFounder_def openSuccessionPetition_def withdrawSuccessionPetition_def op_simps
      split: option.splits sum.splits)

section \<open>Boosts\<close>

lemma boosts_frame:
  "db_boosts (snd (createCampaign now e b s a ci db)) = db_boosts db"
  "db_boosts (snd (approveCampaign now s a cid db)) = db_boosts db"
  "db_boosts (snd (transitionCampaign now s a cid to db)) = db_boosts db"
  "db_boosts (snd (raiseAidPost now e env s a post db)) = db_boosts db"
  by (auto simp: createCampaign_def approveCampaign_def transitionCampaign_def raiseAidPost_def
      op_simps split: option.splits sum.splits)

lemma recordContribution_boosts [simp]: "db_boosts (snd (recordContribution now e i db)) = db_boosts db"
  by (auto simp: recordContribution_def Let_def split_beta split: option.splits)

lemmas createTip_boosts = createTip_frame [of db_boosts, simplified]
lemmas startContribution_boosts = startContribution_frame [of db_boosts, simplified]
lemmas listing_boosts = listing_frame [of db_boosts, simplified]

lemma tip_boosts:
  "db_boosts (snd (captureTip now e tid detail db)) = db_boosts db"
  "db_boosts (snd (refundTip now tid db)) = db_boosts db"
  by (auto simp: captureTip_def refundTip_def Let_def split: option.splits)

lemma money_boosts: "money db' = money db \<Longrightarrow> db_boosts db' = db_boosts db"
  by (simp add: money_def)

definition boosts_ok :: "ServiceEnv \<Rightarrow> CoalitionDb \<Rightarrow> bool" where
  "boosts_ok env db \<longleftrightarrow> (\<forall>u d. boosts_of db u d \<le> boostDailyAllowance env)"

lemma boosts_cong: "db_boosts db' = db_boosts db \<Longrightarrow> boosts_ok env db' = boosts_ok env db"
  by (simp add: boosts_ok_def boosts_of_def)

lemmas boost_frames = boosts_frame createTip_boosts startContribution_boosts tip_boosts listing_boosts
  lifecycle_money [THEN money_boosts] member_money [THEN money_boosts] succession_money [THEN money_boosts]
  secondSuccessionPetition_money [THEN money_boosts] setCampaignPayees_frame(2) [THEN money_boosts]

lemma step_boosts:
  assumes "coalition_step env db db'" and "boosts_ok env db"
  shows "boosts_ok env db'"
proof (cases "\<exists>now e s a cid. db' = snd (boostCampaign now e env s a cid db)")
  case True
  then obtain now e s a cid where "db' = snd (boostCampaign now e env s a cid db)" by blast
  then show ?thesis using boostCampaign_cap assms(2) by (auto simp: boosts_ok_def)
next
  case False
  from assms(1) have "db_boosts db' = db_boosts db"
  proof (cases rule: coalition_step.cases)
    case (st_boost now e s a cid)
    with False show ?thesis by blast
  qed (auto simp: boost_frames)
  then show ?thesis using assms(2) boosts_cong by blast
qed

section \<open>Membership\<close>

text \<open>
  The membership protocol of the whole service: the contract of \<open>roster_step\<close>, and one
  more move.  A petition whose candidate became the founder in the meantime can still
  reach its quorum, and then demotes them.
\<close>

inductive protocol_step :: "roster \<Rightarrow> roster \<Rightarrow> bool" where
  ps_roster: "roster_step r r' \<Longrightarrow> protocol_step r r'"
| ps_abdicate: "r c f = Some Founder \<Longrightarrow> protocol_step r (r(c := (r c)(f \<mapsto> Steward)))"

lemma protocol_one_founder: "protocol_step r r' \<Longrightarrow> one_founder r \<Longrightarrow> one_founder r'"
proof (induction rule: protocol_step.induct)
  case (ps_abdicate r c f)
  then show ?case by (auto simp: one_founder_def)
qed (rule roster_step_one_founder)

lemma refines_protocol: "refines db db' \<Longrightarrow> wf_members db' \<and> (roster_of db' = roster_of db \<or> protocol_step (roster_of db) (roster_of db'))"
  by (auto simp: refines_def intro: ps_roster)

lemma community_refines: "community db' = community db \<Longrightarrow> wf_members db \<Longrightarrow> refines db db'"
  by (intro refines_same) (simp_all add: community_def)

lemma secondSuccessionPetition_protocol:
  assumes wf: "wf_members db" and one: "one_founder (roster_of db)"
  shows "refines db (snd (secondSuccessionPetition now s a db)) \<or>
    wf_members (snd (secondSuccessionPetition now s a db)) \<and>
    (\<exists>c p. getCoalition db s = Some c \<and> getOpenCoalitionSuccessionPetition db (co_id c) = Some p \<and>
       roster_of db (co_id c) (pe_candidateUserId p) = Some Founder \<and>
       roster_of (snd (secondSuccessionPetition now s a db)) =
         (roster_of db)(co_id c := (roster_of db (co_id c))(pe_candidateUserId p \<mapsto> Steward)))"
proof (cases "\<exists>c p. getCoalition db s = Some c \<and> getOpenCoalitionSuccessionPetition db (co_id c) = Some p \<and>
    roster_of db (co_id c) (pe_candidateUserId p) = Some Founder")
  case False
  then have "refines db (snd (secondSuccessionPetition now s a db))"
    by (intro secondSuccessionPetition_refines [OF wf one]) blast
  then show ?thesis ..
next
  case True
  then obtain c p where c: "getCoalition db s = Some c" and p: "getOpenCoalitionSuccessionPetition db (co_id c) = Some p"
    and f: "roster_of db (co_id c) (pe_candidateUserId p) = Some Founder" by blast
  let ?u = "pe_candidateUserId p" and ?db = "snd (secondSuccessionPetition now s a db)"
  have row: "c \<in> set (js_values (db_coalitions db))" "colon_free (co_id c)" using getCoalition_row [OF wf c] by blast+
  from f row(2) obtain t where t: "activeMembership db (co_id c) ?u = Some t" by (auto simp: roster_of_def)
  have "outgoing_founder db (co_id c) = Some ?u"
    using outgoing_founder_roster [OF wf row(2)] f one by (cases "outgoing_founder db (co_id c)") (auto simp: one_founder_def)
  then have h: "handover (co_id c) ?u (outgoing_founder db (co_id c)) (roster_of db) =
      (roster_of db)(co_id c := (roster_of db (co_id c))(?u \<mapsto> Steward))"
    by (simp add: handover_def)
  from secondSuccessionPetition_tables [of now s a db] show ?thesis
  proof (elim disjE conjE exE)
    fix c' p'
    assume "getCoalition db s = Some c'" "getOpenCoalitionSuccessionPetition db (co_id c') = Some p'"
      and m: "db_memberships ?db = db_memberships (snd (transferFounderUnchecked now c' (pe_candidateUserId p') db))"
        "db_coalitions ?db = db_coalitions (snd (transferFounderUnchecked now c' (pe_candidateUserId p') db))"
    then have eq: "c' = c" "p' = p" using c p by auto
    have "roster_of ?db = (roster_of db)(co_id c := (roster_of db (co_id c))(?u \<mapsto> Steward))"
      using transferFounderUnchecked_roster [OF wf row(1) t, of now] roster_of_cong [OF m(1)] h eq by simp
    moreover have "wf_members ?db"
      using transferFounderUnchecked_roster [OF wf row(1) t, of now] wf_members_cong m eq by metis
    ultimately show ?thesis using c p f by blast
  qed (use refines_same [OF wf] in blast)
qed

lemma step_members:
  assumes step: "coalition_step env db db'" and wf: "wf_members db" and one: "one_founder (roster_of db)"
  shows "wf_members db' \<and> (roster_of db' = roster_of db \<or> protocol_step (roster_of db) (roster_of db'))"
  using step
proof (cases rule: coalition_step.cases)
  case (st_create e now space input)
  then show ?thesis using refines_protocol createCoalition_refines [OF wf] by blast
next
  case (st_secondPetition now s a)
  show ?thesis
    using secondSuccessionPetition_protocol [OF wf one, of now s a] unfolding st_secondPetition
    by (auto intro: ps_abdicate dest: refines_protocol)
qed (use refines_protocol [of db db'] lifecycle_refines [OF wf] requestJoin_refines [OF wf] reviewJoinRequest_refines [OF wf]
    request_ops_refine [OF wf] leaveCoalition_refines [OF wf] removeMember_refines [OF wf] setMemberRole_refines [OF wf]
    transferFounder_refines [OF wf one] community_refines [OF _ wf] campaign_community setCampaignPayees_frame(1)
    createTip_community startContribution_community tip_community listing_community
    in \<open>auto\<close>)

section \<open>One step keeps everything\<close>

lemma community_coalitions: "community db' = community db \<Longrightarrow> db_coalitions db' = db_coalitions db"
  by (simp add: community_def)

lemma community_petitions: "community db' = community db \<Longrightarrow> db_petitions db' = db_petitions db"
  by (simp add: community_def)

lemmas money_op_frames = campaign_community setCampaignPayees_frame(1) createTip_community startContribution_community
  tip_community listing_community

lemma step_slugs:
  assumes "coalition_step env db db'" and wf: "wf_members db" and d: "slugs_distinct db"
  shows "slugs_distinct db'"
  using assms(1)
  by (cases rule: coalition_step.cases)
    (use d lifecycle_slugs [OF wf d] createCoalition_slugs [OF wf d] in
      \<open>auto simp: slugs_cong [OF member_coalitions(1)] slugs_cong [OF member_coalitions(2)] slugs_cong [OF member_coalitions(3)]
        slugs_cong [OF member_coalitions(4)] slugs_cong [OF member_coalitions(5)] slugs_cong [OF member_coalitions(6)]
        slugs_cong [OF member_coalitions(7)] succession_coalitions [THEN slugs_cong]
        money_op_frames [THEN community_coalitions, THEN slugs_cong]\<close>)

lemma step_petitions:
  assumes "coalition_step env db db'" and ok: "petitions_ok db"
  shows "petitions_ok db'"
  using assms(1)
  by (cases rule: coalition_step.cases)
    (use ok openSuccessionPetition_petitions [OF ok] secondSuccessionPetition_petitions [OF ok]
        withdrawSuccessionPetition_petitions [OF ok] in
      \<open>auto simp: member_petitions [THEN petitions_cong] lifecycle_petitions [THEN petitions_cong]
        money_op_frames [THEN community_petitions, THEN petitions_cong]\<close>)

lemma money_touches: "money db' = money db \<Longrightarrow> touches db db'"
  by (auto simp: money_def intro: touch_none)

lemma boostCampaign_touches: "touches db (snd (boostCampaign now e env s a cid db))"
  by (rule touch_none) (auto simp: boostCampaign_def op_simps split: option.splits)

lemma listing_call_touches:
  "touches db (snd (ensureDriveListing_call p k db))" "touches db (snd (archiveDriveListing_call p k db))"
  by (auto simp: listing_call_frame intro: touch_none)

text \<open>Every step but those on tips leaves the totals of campaigns alone.\<close>

lemma step_touches:
  assumes step: "coalition_step env db db'" and ok: "books_ok db"
  shows "touches db db' \<or>
    (\<exists>now tid ti. js_get tid (db_tips db) = None \<and> db' = snd (createTip now tid ti db)) \<or>
    (\<exists>now tid p sc. js_get tid (db_tips db) = None \<and> db' = snd (startContribution now tid p sc db)) \<or>
    (\<exists>now e tid d. js_get (newContributionId e) (db_contributions db) = None \<and> db' = snd (captureTip now e tid d db)) \<or>
    (\<exists>now tid. db' = snd (refundTip now tid db))"
proof -
  have l: "ledger_ok db" by (rule books_okD(1) [OF ok])
  from step show ?thesis
    by (cases rule: coalition_step.cases)
      (blast intro: lifecycle_money [THEN money_touches] member_money [THEN money_touches]
        succession_money [THEN money_touches] secondSuccessionPetition_money [THEN money_touches]
        setCampaignPayees_frame(2) [THEN money_touches] createCampaign_touches approveCampaign_touches [OF l]
        transitionCampaign_touches [OF l] boostCampaign_touches raiseAidPost_touches listing_call_touches
        ensureDriveListing_store_touches [OF l] archiveDriveListing_store_touches [OF touches_refl l]
        withdrawCoalitionListings_touches [OF l])+
qed

lemma step_books:
  assumes "coalition_step env db db'" and "books_ok db"
  shows "books_ok db'"
  using step_touches [OF assms] touches_books [OF _ assms(2)] createTip_books [OF assms(2)] startContribution_books [OF assms(2)]
    captureTip_books [OF assms(2)] refundTip_books [OF assms(2)]
  by blast

lemmas createTip_campaigns = createTip_frame [of db_campaigns, simplified]
lemmas startContribution_campaigns = startContribution_frame [of db_campaigns, simplified]

lemma refundTip_campaigns: "db_campaigns (snd (refundTip now tid db)) = db_campaigns db"
  by (auto simp: refundTip_def Let_def split: option.splits)

lemma step_history:
  assumes "coalition_step env db db'" and "books_ok db"
  shows "history db db'"
  using step_touches [OF assms] touches_history captureTip_history [OF assms(2)]
    history_same [OF createTip_campaigns] history_same [OF startContribution_campaigns] history_same [OF refundTip_campaigns]
  by blast

end
