(* ===== verification/Coalition_Safety.thy ===== *)
theory Coalition_Safety
  imports Coalition_Invariants
begin

text \<open>
  What holds in every reachable state of the coalition service, and what any sequence of
  operations does to it.
\<close>

section \<open>The service as an instance\<close>

text \<open>The service starts with users, profiles and aid posts, and nothing else.\<close>

definition initial :: "CoalitionDb \<Rightarrow> bool" where
  "initial db \<longleftrightarrow> db_coalitions db = [] \<and> db_memberships db = [] \<and> db_campaigns db = [] \<and> db_petitions db = [] \<and>
     db_contributions db = [] \<and> db_boosts db = [] \<and> db_tips db = []"

definition system_ok :: "ServiceEnv \<Rightarrow> CoalitionDb \<Rightarrow> bool" where
  "system_ok env db \<longleftrightarrow> wf_members db \<and> one_founder (roster_of db) \<and> slugs_distinct db \<and> petitions_ok db \<and>
     books_ok db \<and> boosts_ok env db"

lemma initial_system_ok: "initial db \<Longrightarrow> system_ok env db"
  by (auto simp: initial_def system_ok_def wf_members_def one_founder_def roster_of_def activeMembership_def
      getCoalitionMembership_def slugs_distinct_def petitions_ok_def books_ok_def ledger_ok_def boosts_ok_def boosts_of_def
      js_values_def split: if_splits)

lemma step_system_ok:
  assumes "system_ok env db" and "coalition_step env db db'"
  shows "system_ok env db'"
proof -
  have wf: "wf_members db" "one_founder (roster_of db)" using assms(1) by (simp_all add: system_ok_def)
  have "wf_members db'" "one_founder (roster_of db')"
    using step_members [OF assms(2) wf] protocol_one_founder wf(2) by auto
  then show ?thesis
    using assms step_slugs step_petitions step_books step_boosts unfolding system_ok_def by blast
qed

interpretation coalition_service: simulation "coalition_step env" initial "system_ok env" protocol_step roster_of
  for env
proof
  show "initial s \<Longrightarrow> system_ok env s" for s by (rule initial_system_ok)
  show "system_ok env s \<Longrightarrow> coalition_step env s s' \<Longrightarrow> system_ok env s'" for s s' by (rule step_system_ok)
  show "system_ok env s \<Longrightarrow> coalition_step env s s' \<Longrightarrow>
      roster_of s' = roster_of s \<or> protocol_step (roster_of s) (roster_of s')" for s s'
    using step_members unfolding system_ok_def by blast
qed

section \<open>A concrete run\<close>

text \<open>
  Ana founds a coalition; Bo and Cy join and become stewards.  Bo petitions to succeed
  Ana, then Ana hands the coalition over to Bo, and then Cy seconds the petition.
\<close>

definition t0 :: iso where
  "t0 = ''2026-03-01T00:00:00.000Z''"

definition run1 :: CoalitionDb where
  "run1 = snd (createCoalition t0 (''a'', ''1'') \<lparr>sp_ok = False, sp_roomId = None, sp_detail = None\<rparr>
     \<lparr>cc_name = ''Food'', cc_mission = ''Feed'', cc_bannerUrl = None, cc_joinMode = JoinOpen,
      cc_minTierToJoin = None, cc_joinRequirements = None, cc_createdBy = ''ana''\<rparr> empty_db)"

definition run2 :: CoalitionDb where
  "run2 = snd (requestJoin t0 (''b'', ''1'') sample_env 0 ''food'' ''bo'' None run1)"

definition run3 :: CoalitionDb where
  "run3 = snd (requestJoin t0 (''c'', ''1'') sample_env 0 ''food'' ''cy'' None run2)"

definition run4 :: CoalitionDb where
  "run4 = snd (setMemberRole t0 ''food'' ''ana'' ''bo'' Steward run3)"

definition run5 :: CoalitionDb where
  "run5 = snd (setMemberRole t0 ''food'' ''ana'' ''cy'' Steward run4)"

definition run6 :: CoalitionDb where
  "run6 = snd (openSuccessionPetition t0 (''d'', ''1'') ''food'' ''bo'' ''Ana is away'' run5)"

definition run7 :: CoalitionDb where
  "run7 = snd (transferFounder t0 ''food'' ''ana'' ''bo'' run6)"

definition run8 :: CoalitionDb where
  "run8 = snd (secondSuccessionPetition t0 ''food'' ''cy'' run7)"

lemmas run_defs = run1_def run2_def run3_def run4_def run5_def run6_def run7_def run8_def

lemma run_reachable:
  "reachable (coalition_step sample_env) initial run1" "reachable (coalition_step sample_env) initial run3"
  "reachable (coalition_step sample_env) initial run5" "reachable (coalition_step sample_env) initial run6"
  "reachable (coalition_step sample_env) initial run7" "reachable (coalition_step sample_env) initial run8"
proof -
  have 0: "reachable (coalition_step sample_env) initial empty_db"
    by (rule reach_init) (simp add: initial_def empty_db_def)
  show 1: "reachable (coalition_step sample_env) initial run1"
    unfolding run1_def by (rule reach_step [OF 0], rule st_create) code_simp+
  have 2: "reachable (coalition_step sample_env) initial run2"
    unfolding run2_def by (rule reach_step [OF 1], rule st_requestJoin)
  show 3: "reachable (coalition_step sample_env) initial run3"
    unfolding run3_def by (rule reach_step [OF 2], rule st_requestJoin)
  have 4: "reachable (coalition_step sample_env) initial run4"
    unfolding run4_def by (rule reach_step [OF 3], rule st_setRole)
  show 5: "reachable (coalition_step sample_env) initial run5"
    unfolding run5_def by (rule reach_step [OF 4], rule st_setRole)
  show 6: "reachable (coalition_step sample_env) initial run6"
    unfolding run6_def by (rule reach_step [OF 5], rule st_openPetition) code_simp
  show 7: "reachable (coalition_step sample_env) initial run7"
    unfolding run7_def by (rule reach_step [OF 6], rule st_transfer)
  show 8: "reachable (coalition_step sample_env) initial run8"
    unfolding run8_def by (rule reach_step [OF 7], rule st_secondPetition)
qed

section \<open>Properties\<close>

lemma reachable_parts:
  assumes "reachable (coalition_step env) initial db"
  shows "wf_members db" "one_founder (roster_of db)" "slugs_distinct db" "petitions_ok db" "books_ok db" "boosts_ok env db"
  using coalition_service.reachable_inv [OF assms] by (simp_all add: system_ok_def)

text \<open>
  C2: a coalition never has two founders.  In every state that any sequence of operations
  can reach, two active founder memberships of one coalition are the same person's.
\<close>

theorem founder_is_unique:
  assumes "reachable (coalition_step env) initial db"
    and "m \<in> set (js_values (db_memberships db))" and "me_active m" and "me_role m = Founder"
    and "m' \<in> set (js_values (db_memberships db))" and "me_active m'" and "me_role m' = Founder"
    and "me_coalitionId m = me_coalitionId m'"
  shows "me_userId m = me_userId m'"
proof -
  note r = reachable_parts [OF assms(1)]
  have "colon_free (me_coalitionId m')" using wf_membersD(4) [OF r(1) assms(5)] .
  then have "roster_of db (me_coalitionId m') (me_userId m) = Some Founder"
      "roster_of db (me_coalitionId m') (me_userId m') = Some Founder"
    using assms(2-) by (auto simp: roster_of_Some [OF r(1)])
  then show ?thesis using r(2) by (auto simp: one_founder_def)
qed

lemma founder_is_unique_witness:
  "\<exists>m m'. m \<in> set (js_values (db_memberships run7)) \<and> me_role m = Founder \<and>
     m' \<in> set (js_values (db_memberships run7)) \<and> me_userId m' = ''bo'' \<and> me_userId m = me_userId m'"
proof -
  have "map (\<lambda>m. (me_coalitionId m, me_userId m, me_role m, me_active m)) (js_values (db_memberships run7)) =
      [(''coa_a_1'', ''ana'', Steward, True), (''coa_a_1'', ''bo'', Founder, True), (''coa_a_1'', ''cy'', Steward, True)]"
    by code_simp
  then obtain a m c where ms: "js_values (db_memberships run7) = [a, m, c]"
    and m: "me_userId m = ''bo''" "me_role m = Founder" "me_active m" by auto
  then have "m \<in> set (js_values (db_memberships run7))" by simp
  with founder_is_unique [OF run_reachable(5) this m(3,2) this m(3,2) refl] m show ?thesis by blast
qed



text \<open>
  C20: a coalition can lose its founder.  The operations reach a state in which a coalition
  of three active members has no founder: the petition of a steward survives the transfer
  of the founder's seat to that steward, and its quorum then demotes them.
\<close>

theorem founderless_coalition_reachable:
  "reachable (coalition_step sample_env) initial run8 \<and>
   map me_active (js_values (db_memberships run8)) = [True, True, True] \<and>
   \<not> list_ex (\<lambda>m. me_role m = Founder) (js_values (db_memberships run8))"
proof (intro conjI)
  show "map me_active (js_values (db_memberships run8)) = [True, True, True]" by code_simp
  show "\<not> list_ex (\<lambda>m. me_role m = Founder) (js_values (db_memberships run8))" by code_simp
qed (rule run_reachable(6))

lemma refines_led: "refines db db' \<Longrightarrow> led_at (roster_of db) c \<Longrightarrow> led_at (roster_of db') c"
  by (auto simp: refines_def intro: roster_step_led_at)

lemma step_led:
  assumes step: "coalition_step env db db'" and wf: "wf_members db" and one: "one_founder (roster_of db)"
    and led: "led_at (roster_of db) c"
  shows "led_at (roster_of db') c \<or>
    (\<exists>p. getOpenCoalitionSuccessionPetition db c = Some p \<and> roster_of db c (pe_candidateUserId p) = Some Founder)"
  using step
proof (cases rule: coalition_step.cases)
  case (st_create e now space input)
  then show ?thesis using refines_led [OF _ led] createCoalition_refines [OF wf] by blast
next
  case (st_secondPetition now s a)
  from secondSuccessionPetition_protocol [OF wf one, of now s a] show ?thesis
  proof (elim disjE conjE exE)
    fix c' p
    assume p: "getOpenCoalitionSuccessionPetition db (co_id c') = Some p" "roster_of db (co_id c') (pe_candidateUserId p) = Some Founder"
      and r: "roster_of (snd (secondSuccessionPetition now s a db)) =
        (roster_of db)(co_id c' := (roster_of db (co_id c'))(pe_candidateUserId p \<mapsto> Steward))"
    then show ?thesis using led unfolding st_secondPetition by (cases "co_id c' = c") (auto simp: led_at_def)
  qed (use refines_led [OF _ led] st_secondPetition in blast)
qed (use refines_led [OF _ led, of db'] lifecycle_refines [OF wf] requestJoin_refines [OF wf] reviewJoinRequest_refines [OF wf]
    request_ops_refine [OF wf] leaveCoalition_refines [OF wf] removeMember_refines [OF wf] setMemberRole_refines [OF wf]
    transferFounder_refines [OF wf one] community_refines [OF _ wf] money_op_frames in \<open>auto\<close>)

text \<open>
  C5: nothing else removes a founder.  From any reachable state, an operation leaves a
  coalition that has exactly one founder with exactly one founder, unless an open petition
  names the founder themselves as its candidate.
\<close>

theorem founder_lost_only_by_own_petition:
  assumes "reachable (coalition_step env) initial db" and "coalition_step env db db'"
    and "led_at (roster_of db) c"
    and "\<forall>p. getOpenCoalitionSuccessionPetition db c = Some p \<longrightarrow> roster_of db c (pe_candidateUserId p) \<noteq> Some Founder"
  shows "led_at (roster_of db') c"
  using step_led [OF assms(2) reachable_parts(1,2) [OF assms(1)] assms(3)] assms(4) by blast

lemma founder_lost_only_by_own_petition_witness:
  "led_at (roster_of run7) ''coa_a_1'' \<and> roster_of run7 ''coa_a_1'' ''bo'' = Some Founder"
proof
  have f: "roster_of run6 ''coa_a_1'' ''ana'' = Some Founder" by code_simp
  have led: "led_at (roster_of run6) ''coa_a_1''"
    using f reachable_parts(2) [OF run_reachable(4)] unfolding led_at_def one_founder_def by blast
  have "map_option pe_candidateUserId (getOpenCoalitionSuccessionPetition run6 ''coa_a_1'') = Some ''bo''"
    by code_simp
  then have c: "pe_candidateUserId p = ''bo''" if "getOpenCoalitionSuccessionPetition run6 ''coa_a_1'' = Some p" for p
    using that by simp
  have "roster_of run6 ''coa_a_1'' ''bo'' = Some Steward" by code_simp
  then have own: "\<forall>p. getOpenCoalitionSuccessionPetition run6 ''coa_a_1'' = Some p \<longrightarrow>
      roster_of run6 ''coa_a_1'' (pe_candidateUserId p) \<noteq> Some Founder" using c by simp
  have "coalition_step sample_env run6 run7" unfolding run7_def by (rule st_transfer)
  from founder_lost_only_by_own_petition [OF run_reachable(4) this led own]
  show "led_at (roster_of run7) ''coa_a_1''" .
  show "roster_of run7 ''coa_a_1'' ''bo'' = Some Founder" by code_simp
qed



text \<open>
  C23: petitions are orderly.  In every reachable state a coalition has at most one open
  succession petition, nobody is counted twice as seconding one, and a candidate never
  seconds their own.
\<close>

theorem petitions_are_orderly:
  assumes "reachable (coalition_step env) initial db"
    and "p \<in> set (js_values (db_petitions db))" and "q \<in> set (js_values (db_petitions db))"
  shows "distinct (pe_secondedBy p) \<and> pe_candidateUserId p \<notin> set (pe_secondedBy p) \<and>
    (pe_status p = Succ_open \<and> pe_status q = Succ_open \<and> pe_coalitionId p = pe_coalitionId q \<longrightarrow> p = q)"
  using reachable_parts(4) [OF assms(1)] assms(2,3) by (auto simp: petitions_ok_def petition_ok_def)

lemma petitions_are_orderly_witness:
  "\<exists>p. p \<in> set (js_values (db_petitions run8)) \<and> pe_secondedBy p = [''cy''] \<and> pe_candidateUserId p \<notin> set (pe_secondedBy p)"
proof -
  have "map pe_secondedBy (js_values (db_petitions run8)) = [[''cy'']]" by code_simp
  then obtain p where p: "js_values (db_petitions run8) = [p]" "pe_secondedBy p = [''cy'']" by auto
  then have "p \<in> set (js_values (db_petitions run8))" by simp
  with petitions_are_orderly [OF run_reachable(6) this this] p show ?thesis by blast
qed

end
