(* ===== verification/Coalition_Accounts.thy ===== *)
theory Coalition_Accounts
  imports Coalition_Safety
begin

text \<open>
  The money side of the reachable states: the totals of campaigns, the tips behind them,
  the daily boosts, and the history of a campaign over any sequence of operations.
\<close>

section \<open>A concrete run\<close>

text \<open>
  Ana founds a coalition and launches a drive, which gets a listing; Bo contributes ten
  dollars and the provider reports twelve.
\<close>

definition pay0 :: CoalitionDb where
  "pay0 = empty_db\<lparr>db_users := map (\<lambda>i. (i, sample_user\<lparr>us_id := i, us_username := i\<rparr>)) [''ana'', ''bo'']\<rparr>"

definition pay1 :: CoalitionDb where
  "pay1 = snd (createCoalition t0 (''a'', ''1'') \<lparr>sp_ok = False, sp_roomId = None, sp_detail = None\<rparr>
     \<lparr>cc_name = ''Food'', cc_mission = ''Feed'', cc_bannerUrl = None, cc_joinMode = JoinOpen,
      cc_minTierToJoin = None, cc_joinRequirements = None, cc_createdBy = ''ana''\<rparr> pay0)"

definition pay2 :: CoalitionDb where
  "pay2 = snd (createCampaign t0 (''b'', ''1'') ''bty'' ''food'' ''ana''
     \<lparr>cp_type = Drive, cp_title = ''Soup'', cp_description = ''Kitchen'', cp_goalCents = Some 1000, cp_goalUnits = None,
      cp_startsAt = None, cp_endsAt = None, cp_requiresStewardApproval = None, cp_projectId = None, cp_bountyId = None,
      cp_aidPostId = None, cp_fbmListingId = None, cp_fbmOrderCycleId = None, cp_bounty = None\<rparr> pay1)"

definition pay_campaign :: CoalitionCampaign where
  "pay_campaign = the (getCoalitionCampaign pay2 (newCampaignId (''b'', ''1'')))"

definition pay3 :: CoalitionDb where
  "pay3 = ensureDriveListing_store t0 pay_campaign ''l1'' pay2"

definition pay_provider :: MarketplaceProvider where
  "pay_provider = \<lparr>mp_enabled = True, mp_embeddedCheckout = False, mp_getListingFeeBps = None, mp_createCreatorListing = None,
     mp_publishCreatorListing = None, mp_archiveCreatorListing = None,
     mp_createCheckoutSession = (\<lambda>u l c k. Some (''https://pay'', ''s1''))\<rparr>"

definition pay4 :: CoalitionDb where
  "pay4 = snd (startContribution t0 ''t1'' (Some pay_provider)
     \<lparr>sc_campaign = the (getCoalitionCampaign pay3 (newCampaignId (''b'', ''1''))), sc_supporterUserId = ''bo'',
      sc_beneficiaryUserId = None, sc_grossCents = Fin 1000, sc_currency = None, sc_note = None, sc_embed = None\<rparr> pay3)"

definition pay5 :: CoalitionDb where
  "pay5 = snd (captureTip t0 (''c'', ''1'') ''t1'' \<lparr>cd_fbmOrderId = Some ''o1'', cd_chargedCents = Some (Fin 1200)\<rparr> pay4)"

lemma pay_reachable:
  "reachable (coalition_step sample_env) initial pay2" "(coalition_step sample_env)\<^sup>*\<^sup>* pay2 pay5"
  "reachable (coalition_step sample_env) initial pay5"
proof -
  have 0: "reachable (coalition_step sample_env) initial pay0"
    by (rule reach_init) (simp add: initial_def pay0_def empty_db_def)
  have 1: "reachable (coalition_step sample_env) initial pay1"
    unfolding pay1_def by (rule reach_step [OF 0], rule st_create) code_simp+
  show 2: "reachable (coalition_step sample_env) initial pay2"
    unfolding pay2_def by (rule reach_step [OF 1], rule st_createCampaign) code_simp
  have 3: "coalition_step sample_env pay2 pay3" unfolding pay3_def by (rule st_listingStore)
  have 4: "coalition_step sample_env pay3 pay4" unfolding pay4_def by (rule st_contribute) code_simp
  have 5: "coalition_step sample_env pay4 pay5" unfolding pay5_def by (rule st_capture) code_simp
  show 6: "(coalition_step sample_env)\<^sup>*\<^sup>* pay2 pay5" using 3 4 5 by (meson r_into_rtranclp rtranclp_trans)
  show "reachable (coalition_step sample_env) initial pay5" by (rule reachable_rtranclp [OF 2 6])
qed

section \<open>Properties\<close>

text \<open>
  C1: the books always balance.  In every reachable state the raised total of a campaign is
  the sum of its contribution rows, its contributor count is the number of distinct
  supporters, and every row is backed by a captured or refunded tip, made out to that
  campaign by that supporter, whose net amount it carries.
\<close>

theorem books_always_balance:
  assumes "reachable (coalition_step env) initial db" and "k \<in> set (js_values (db_campaigns db))"
  shows "ca_raisedCents k = sum_list (map cn_amountCents
      (filter (\<lambda>r. cn_campaignId r = ca_id k) (js_values (db_contributions db)))) \<and>
    ca_contributorCount k = int (card (cn_supporterUserId ` {r \<in> set (js_values (db_contributions db)). cn_campaignId r = ca_id k})) \<and>
    (\<forall>r \<in> set (js_values (db_contributions db)). \<exists>t. getTip_db db (cn_tipId r) = Some t \<and>
       ti_status t \<in> {Tip_captured, Tip_refunded} \<and> ti_contextRef t = Some (cn_campaignId r) \<and>
       ti_senderUserId t = cn_supporterUserId r \<and> ti_netCents t = cn_amountCents r \<and>
       ti_netCents t + ti_feeCents t = ti_grossCents t)"
proof -
  note o = books_okD [OF reachable_parts(5) [OF assms(1)]]
  have "ca_raisedCents k = raised_of db (ca_id k)" "ca_contributorCount k = int (card (supporters_of db (ca_id k)))"
    using o(1) assms(2) by (auto simp: ledger_ok_def)
  moreover have "\<exists>t. getTip_db db (cn_tipId r) = Some t \<and> backs t r \<and> tip_ok t"
    if "r \<in> set (js_values (db_contributions db))" for r
    using o(3) o(4) [OF that] js_table_lookup [OF o(2)] by (fastforce simp: getTip_db_def)
  ultimately show ?thesis
    by (fastforce simp: raised_of_def supporters_of_def backs_def tip_ok_def)
qed

lemma books_always_balance_witness:
  "\<exists>k. js_values (db_campaigns pay5) = [k] \<and> ca_raisedCents k = 1164 \<and> ca_contributorCount k = 1 \<and>
     ca_raisedCents k = sum_list (map cn_amountCents
       (filter (\<lambda>r. cn_campaignId r = ca_id k) (js_values (db_contributions pay5))))"
proof -
  have "map (\<lambda>k. (ca_raisedCents k, ca_contributorCount k)) (js_values (db_campaigns pay5)) = [(1164, 1)]" by code_simp
  then obtain k where k: "js_values (db_campaigns pay5) = [k]" "ca_raisedCents k = 1164" "ca_contributorCount k = 1" by auto
  then have "k \<in> set (js_values (db_campaigns pay5))" by simp
  from books_always_balance [OF pay_reachable(3) this] k show ?thesis by blast
qed

text \<open>
  C4: the history of a campaign.  Over any sequence of operations from a reachable state a
  campaign stays in place: it keeps its coalition, type and creator, never loses money,
  and its status only moves along the graph, so a completed or cancelled campaign stays
  what it is.
\<close>

theorem campaign_history:
  assumes "reachable (coalition_step env) initial db" and "(coalition_step env)\<^sup>*\<^sup>* db db'"
    and "getCoalitionCampaign db i = Some k"
  shows "\<exists>k'. getCoalitionCampaign db' i = Some k' \<and> ca_coalitionId k' = ca_coalitionId k \<and> ca_type k' = ca_type k \<and>
    ca_createdBy k' = ca_createdBy k \<and> ca_raisedCents k \<le> ca_raisedCents k' \<and>
    canTransitionCampaign\<^sup>*\<^sup>* (ca_status k) (ca_status k') \<and>
    (ca_status k \<in> {Camp_completed, Camp_cancelled} \<longrightarrow> ca_status k' = ca_status k)"
proof -
  have "history db db'"
    using coalition_service.steps_preserve [OF assms(2) coalition_service.reachable_inv [OF assms(1)], of history]
      history_refl history_trans step_history by (metis system_ok_def)
  then obtain k' where k': "getCoalitionCampaign db' i = Some k'" "evolves k k'"
    using assms(3) by (auto simp: history_def)
  have "s' = s" if "canTransitionCampaign\<^sup>*\<^sup>* s s'" "s \<in> {Camp_completed, Camp_cancelled}" for s s'
    using that by (induction rule: converse_rtranclp_induct) (auto simp: canTransitionCampaign_def)
  with k' show ?thesis by (auto simp: evolves_def)
qed

lemma campaign_history_witness:
  "\<exists>k'. getCoalitionCampaign pay5 (newCampaignId (''b'', ''1'')) = Some k' \<and> ca_createdBy k' = Some ''ana'' \<and> 0 \<le> ca_raisedCents k'"
proof -
  have "map_option (\<lambda>k. (ca_createdBy k, ca_raisedCents k)) (getCoalitionCampaign pay2 (newCampaignId (''b'', ''1''))) = Some (Some ''ana'', 0)"
    by code_simp
  then obtain k where k: "getCoalitionCampaign pay2 (newCampaignId (''b'', ''1'')) = Some k"
    "ca_createdBy k = Some ''ana''" "ca_raisedCents k = 0" by auto
  from campaign_history [OF pay_reachable(1,2) k(1)] k(2,3) show ?thesis by auto
qed



section \<open>A listing that outlives a takedown\<close>

text \<open>
  Publishing the listing of the drive is under way when the coalition is taken down.  The
  withdrawal job runs before the listing is stored, and finds none.
\<close>

definition race :: CoalitionDb where
  "race = ensureDriveListing_store t0 pay_campaign ''l1''
     (withdrawCoalitionListings t0 (Some pay_provider) ''coa_a_1''
       (snd (takeDownCoalition t0 ''food'' ''admin'' ''abuse'' pay2)))"


end
