(* ===== verification/Byte_Codec.thy ===== *)
theory Byte_Codec
  imports JS_Value "HOL-Library.Word"
begin

unbundle bit_operations_syntax

text \<open>
  The byte codecs of the release formats
  (\<^verbatim>\<open>packages/blackout-protocol/src/deaddrop/crypto/encoding.ts\<close> and
  \<^verbatim>\<open>packages/blackout-protocol/src/release/bytes.ts\<close>): base64 in its lenient
  and its canonical form, base64url, hex, big-endian lengths, length-prefixed
  fields and domain labels. A \<^verbatim>\<open>Uint8Array\<close> is a list of \<open>8 word\<close>; the
  bit operations of the sources act on 32-bit words. A thrown error is an
  \<open>Inl\<close>, \<^verbatim>\<open>null\<close> is \<open>None\<close>.
\<close>

type_synonym byte = "8 word"
type_synonym bytes = "byte list"

datatype codec_error =
    Base64_length
  | Base64_character
  | Not_16_bit
  | Not_32_bit

section \<open>Base64\<close>

definition STD_ALPHABET :: string where
  "STD_ALPHABET = ''ABCDEFGHIJKLMNOPQRSTUVWXYZabcdefghijklmnopqrstuvwxyz0123456789+/''"

definition alphabet_at :: "nat \<Rightarrow> 32 word \<Rightarrow> char" where
  "alphabet_at k triplet = STD_ALPHABET ! unat (drop_bit k triplet AND 0x3f)"

fun toBase64 :: "bytes \<Rightarrow> string" where
  "toBase64 (a # b # c # rest) =
     (let triplet = push_bit 16 (ucast a) OR push_bit 8 (ucast b) OR ucast c
      in alphabet_at 18 triplet # alphabet_at 12 triplet # alphabet_at 6 triplet #
         alphabet_at 0 triplet # toBase64 rest)"
| "toBase64 [a] =
     (let triplet = push_bit 16 (ucast a)
      in [alphabet_at 18 triplet, alphabet_at 12 triplet] @ ''=='')"
| "toBase64 [a, b] =
     (let triplet = push_bit 16 (ucast a) OR push_bit 8 (ucast b)
      in [alphabet_at 18 triplet, alphabet_at 12 triplet, alphabet_at 6 triplet] @ ''='')"
| "toBase64 [] = ''''"

text \<open>
  The lookup table has 128 entries, \<open>-1\<close> where no letter of the alphabet is.
  Reading past its end gives \<^verbatim>\<open>undefined\<close> (\<open>None\<close>), which is not below
  zero and shifts as zero.
\<close>

definition lookup64 :: "char \<Rightarrow> int option" where
  "lookup64 c = (if (of_char c :: nat) < 128 then Some (indexOf STD_ALPHABET c) else None)"

definition lookup_negative :: "int option \<Rightarrow> bool" where
  "lookup_negative v = (case v of Some i \<Rightarrow> i < 0 | None \<Rightarrow> False)"

definition lookup_bits :: "int option \<Rightarrow> 32 word" where
  "lookup_bits v = (case v of Some i \<Rightarrow> word_of_int i | None \<Rightarrow> 0)"

definition padded_lookup :: "char \<Rightarrow> int option" where
  "padded_lookup c = (if c = CHR ''='' then Some 0 else lookup64 c)"

text \<open>The decoding loop, over the bytes of the output that are still to be written.\<close>

fun decode_quads :: "nat \<Rightarrow> string \<Rightarrow> codec_error + bytes" where
  "decode_quads room (c0 # c1 # c2 # c3 # rest) =
     (let a = lookup64 c0; b = lookup64 c1; c = padded_lookup c2; d = padded_lookup c3
      in if lookup_negative a \<or> lookup_negative b \<or> lookup_negative c \<or> lookup_negative d
         then Inl Base64_character
         else let triplet = push_bit 18 (lookup_bits a) OR push_bit 12 (lookup_bits b) OR
                            push_bit 6 (lookup_bits c) OR lookup_bits d;
                  quad = take room [ucast (drop_bit 16 triplet AND 0xff),
                                    ucast (drop_bit 8 triplet AND 0xff),
                                    ucast (triplet AND 0xff)]
              in case decode_quads (room - length quad) rest of
                   Inl e \<Rightarrow> Inl e
                 | Inr out \<Rightarrow> Inr (quad @ out))"
| "decode_quads room _ = Inr []"

definition ends_with :: "string \<Rightarrow> string \<Rightarrow> bool" where
  "ends_with s t \<longleftrightarrow> length t \<le> length s \<and> drop (length s - length t) s = t"

definition fromBase64 :: "string \<Rightarrow> codec_error + bytes" where
  "fromBase64 input =
     (let cleaned = filter (\<lambda>c. \<not> js_space c) input
      in if cleaned = [] then Inr []
         else if length cleaned mod 4 \<noteq> 0 then Inl Base64_length
         else let padding = (if ends_with cleaned ''=='' then 2
                             else if ends_with cleaned ''='' then 1 else 0)
              in decode_quads (length cleaned div 4 * 3 - padding) cleaned)"

definition bytesEqual :: "bytes \<Rightarrow> bytes \<Rightarrow> bool" where
  "bytesEqual a b =
     (if length a \<noteq> length b then False
      else fold (\<lambda>(x, y) diff. diff OR (x XOR y)) (zip a b) 0 = 0)"

section \<open>Signed byte formats\<close>

definition concatBytes :: "bytes list \<Rightarrow> bytes" where
  "concatBytes parts = concat parts"

definition u16be :: "int \<Rightarrow> codec_error + bytes" where
  "u16be value =
     (if value < 0 \<or> value > 0xffff then Inl Not_16_bit
      else let v = word_of_int value :: 32 word
           in Inr [ucast (drop_bit 8 v), ucast (v AND 0xff)])"

definition u32be :: "int \<Rightarrow> codec_error + bytes" where
  "u32be value =
     (if value < 0 \<or> value > 0xffffffff then Inl Not_32_bit
      else let v = word_of_int value :: 32 word
           in Inr [ucast (drop_bit 24 v AND 0xff), ucast (drop_bit 16 v AND 0xff),
                   ucast (drop_bit 8 v AND 0xff), ucast (v AND 0xff)])"

definition lengthPrefixed :: "bytes \<Rightarrow> codec_error + bytes" where
  "lengthPrefixed bs =
     (case u16be (int (length bs)) of
        Inl e \<Rightarrow> Inl e
      | Inr prefix \<Rightarrow> Inr (concatBytes [prefix, bs]))"

definition hex_digit :: "nat \<Rightarrow> char" where
  "hex_digit d = (if d < 10 then char_of (48 + d) else char_of (87 + d))"

definition hex_value :: "char \<Rightarrow> nat" where
  "hex_value c = (let n = of_char c in if n < 58 then n - 48 else n - 87)"

definition is_hex :: "char \<Rightarrow> bool" where
  "is_hex c \<longleftrightarrow> is_digit c \<or> (97 \<le> (of_char c :: nat) \<and> (of_char c :: nat) \<le> 102)"

definition toHex :: "bytes \<Rightarrow> string" where
  "toHex bs = concat (map (\<lambda>b. [hex_digit (unat b div 16), hex_digit (unat b mod 16)]) bs)"

fun hex_pairs :: "string \<Rightarrow> bytes" where
  "hex_pairs (h # l # rest) = of_nat (16 * hex_value h + hex_value l) # hex_pairs rest"
| "hex_pairs _ = []"

definition fromHex :: "js_value \<Rightarrow> nat \<Rightarrow> bytes option" where
  "fromHex v n =
     (case v of
        JString s \<Rightarrow>
          if length s \<noteq> n * 2 then None
          else if \<not> list_all is_hex s then None
          else Some (hex_pairs s)
      | _ \<Rightarrow> None)"

definition base64Length :: "nat \<Rightarrow> nat" where
  "base64Length n = 4 * ((n + 2) div 3)"

definition decodeCanonicalBase64 :: "js_value \<Rightarrow> nat option \<Rightarrow> bytes option" where
  "decodeCanonicalBase64 v len =
     (case v of
        JString s \<Rightarrow>
          if s = [] then None
          else if (case len of Some n \<Rightarrow> length s \<noteq> base64Length n | None \<Rightarrow> False) then None
          else (case fromBase64 s of
                  Inl _ \<Rightarrow> None
                | Inr decoded \<Rightarrow>
                    if (case len of Some n \<Rightarrow> length decoded \<noteq> n | None \<Rightarrow> False) then None
                    else if toBase64 decoded \<noteq> s then None
                    else Some decoded)
      | _ \<Rightarrow> None)"

definition to_url_char :: "char \<Rightarrow> char" where
  "to_url_char c = (if c = CHR ''+'' then CHR ''-'' else if c = CHR ''/'' then CHR ''_'' else c)"

definition from_url_char :: "char \<Rightarrow> char" where
  "from_url_char c = (if c = CHR ''-'' then CHR ''+'' else if c = CHR ''_'' then CHR ''/'' else c)"

definition strip_pad :: "string \<Rightarrow> string" where
  "strip_pad s = rev (dropWhile (\<lambda>c. c = CHR ''='') (rev s))"

definition toBase64Url :: "bytes \<Rightarrow> string" where
  "toBase64Url bs = strip_pad (map to_url_char (toBase64 bs))"

definition is_url_char :: "char \<Rightarrow> bool" where
  "is_url_char c \<longleftrightarrow> is_alnum c \<or> c = CHR ''_'' \<or> c = CHR ''-''"

definition decodeBase64Url :: "js_value \<Rightarrow> nat \<Rightarrow> bytes option" where
  "decodeBase64Url v n =
     (case v of
        JString s \<Rightarrow>
          if s = [] \<or> \<not> list_all is_url_char s then None
          else (let standard = map from_url_char s;
                    padded = standard @ replicate ((4 - length standard mod 4) mod 4) (CHR ''='')
                in case decodeCanonicalBase64 (JString padded) (Some n) of
                     None \<Rightarrow> None
                   | Some decoded \<Rightarrow> if toBase64Url decoded \<noteq> s then None else Some decoded)
      | _ \<Rightarrow> None)"

section \<open>Lemmas: the alphabet\<close>

lemma length_alphabet: "length STD_ALPHABET = 64"
  by (simp add: STD_ALPHABET_def)

lemma alphabet_letters:
  "list_all (\<lambda>i. lookup64 (STD_ALPHABET ! i) = Some (int i) \<and> \<not> js_space (STD_ALPHABET ! i)
       \<and> STD_ALPHABET ! i \<noteq> CHR ''='') [0..<64]"
  by code_simp

lemma alphabet_letter:
  assumes "i < 64"
  shows "lookup64 (STD_ALPHABET ! i) = Some (int i)" "\<not> js_space (STD_ALPHABET ! i)"
    "STD_ALPHABET ! i \<noteq> CHR ''=''"
  using alphabet_letters assms by (auto simp: list_all_iff)

lemma and_63: "(w AND 0x3f :: 32 word) = take_bit 6 w"
  by (simp add: take_bit_eq_mask mask_numeral)

lemma and_255: "(w AND 0xff :: 32 word) = take_bit 8 w"
  by (simp add: take_bit_eq_mask mask_numeral)

lemma unat_sextet: "unat (take_bit 6 (w :: 32 word)) < 64"
proof -
  have "take_bit 6 (unat w) < 2 ^ 6" by (rule take_bit_nat_less_exp)
  then show ?thesis by (simp add: unsigned_take_bit_eq)
qed

lemma lookup_alphabet_at:
  shows "lookup64 (alphabet_at k t) = Some (uint (take_bit 6 (drop_bit k t)))"
    "\<not> js_space (alphabet_at k t)" "alphabet_at k t \<noteq> CHR ''=''"
  using alphabet_letter [OF unat_sextet [of "drop_bit k t"]]
  by (simp_all add: alphabet_at_def and_63)

lemma padded_lookup_alphabet_at:
  "padded_lookup (alphabet_at k t) = Some (uint (take_bit 6 (drop_bit k t)))"
  by (simp add: padded_lookup_def lookup_alphabet_at)

lemma lookup_uint [simp]:
  "lookup_negative (Some (uint w)) \<longleftrightarrow> False" "lookup_bits (Some (uint w)) = w"
  "lookup_negative (Some 0) \<longleftrightarrow> False" "lookup_bits (Some 0) = 0"
  by (simp_all add: lookup_negative_def lookup_bits_def)

text \<open>Four sextets put back together are the 24 bits they came from.\<close>

lemma sextets_join:
  fixes t :: "32 word"
  assumes "take_bit 24 t = t"
  shows "push_bit 18 (take_bit 6 (drop_bit 18 t)) OR push_bit 12 (take_bit 6 (drop_bit 12 t)) OR
         push_bit 6 (take_bit 6 (drop_bit 6 t)) OR take_bit 6 t = t"
proof (rule bit_eqI)
  fix n assume "possible_bit TYPE(32 word) n"
  then have n: "n < 32" by simp
  have "bit t n \<longleftrightarrow> n < 24 \<and> bit t n"
    using assms by (metis bit_take_bit_iff)
  then show "bit (push_bit 18 (take_bit 6 (drop_bit 18 t)) OR push_bit 12 (take_bit 6 (drop_bit 12 t)) OR
         push_bit 6 (take_bit 6 (drop_bit 6 t)) OR take_bit 6 t) n = bit t n"
    using n by (cases "6 \<le> n"; cases "12 \<le> n"; cases "18 \<le> n") (auto simp: bit_simps)
qed

definition triplet_of :: "byte \<Rightarrow> byte \<Rightarrow> byte \<Rightarrow> 32 word" where
  "triplet_of a b c = push_bit 16 (ucast a) OR push_bit 8 (ucast b) OR ucast c"

lemma triplet_24: "take_bit 24 (triplet_of a b c) = triplet_of a b c"
  by (rule bit_eqI) (auto simp: triplet_of_def bit_simps dest: bit_imp_le_length)

lemma triplet_bytes:
  "ucast (take_bit 8 (drop_bit 16 (triplet_of a b c))) = a"
  "ucast (take_bit 8 (drop_bit 8 (triplet_of a b c))) = b"
  "ucast (take_bit 8 (triplet_of a b c)) = c"
  by (rule bit_eqI; auto simp: triplet_of_def bit_simps dest: bit_imp_le_length)+

lemma toBase64_triplet:
  "toBase64 (a # b # c # rest) =
     alphabet_at 18 (triplet_of a b c) # alphabet_at 12 (triplet_of a b c) #
     alphabet_at 6 (triplet_of a b c) # alphabet_at 0 (triplet_of a b c) # toBase64 rest"
  "toBase64 [a] = [alphabet_at 18 (triplet_of a 0 0), alphabet_at 12 (triplet_of a 0 0), CHR ''='', CHR ''='']"
  "toBase64 [a, b] = [alphabet_at 18 (triplet_of a b 0), alphabet_at 12 (triplet_of a b 0),
     alphabet_at 6 (triplet_of a b 0), CHR ''='']"
  by (simp_all add: triplet_of_def Let_def)

lemma length_toBase64: "length (toBase64 bs) = base64Length (length bs)"
proof (induction bs rule: toBase64.induct)
  case (1 a b c rest)
  have "(length rest + 5) div 3 = Suc ((length rest + 2) div 3)" by presburger
  with 1 show ?case by (simp add: Let_def base64Length_def add.commute)
qed (simp_all add: Let_def base64Length_def)

lemma toBase64_no_space: "filter (\<lambda>c. \<not> js_space c) (toBase64 bs) = toBase64 bs"
proof -
  have "\<not> js_space (CHR ''='')" by (simp add: js_space_def)
  then show ?thesis
    by (induction bs rule: toBase64.induct) (simp_all add: Let_def lookup_alphabet_at)
qed

text \<open>The low sextets of a triplet whose last bytes are zero are zero.\<close>

lemma sextets_join_short:
  "push_bit 18 (take_bit 6 (drop_bit 18 (triplet_of a 0 0))) OR
     push_bit 12 (take_bit 6 (drop_bit 12 (triplet_of a 0 0))) = triplet_of a 0 0"
  "push_bit 18 (take_bit 6 (drop_bit 18 (triplet_of a b 0))) OR
     push_bit 12 (take_bit 6 (drop_bit 12 (triplet_of a b 0))) OR
     push_bit 6 (take_bit 6 (drop_bit 6 (triplet_of a b 0))) = triplet_of a b 0"
proof -
  have z1: "take_bit 6 (drop_bit 6 (triplet_of a 0 0)) = 0" "take_bit 6 (triplet_of a 0 0) = 0"
    by (rule bit_eqI; auto simp: triplet_of_def bit_simps dest: bit_imp_le_length)+
  have z2: "take_bit 6 (triplet_of a b 0) = 0"
    by (rule bit_eqI) (auto simp: triplet_of_def bit_simps dest: bit_imp_le_length)
  show "push_bit 18 (take_bit 6 (drop_bit 18 (triplet_of a 0 0))) OR
     push_bit 12 (take_bit 6 (drop_bit 12 (triplet_of a 0 0))) = triplet_of a 0 0"
    using sextets_join [OF triplet_24 [of a 0 0]] by (simp add: z1)
  show "push_bit 18 (take_bit 6 (drop_bit 18 (triplet_of a b 0))) OR
     push_bit 12 (take_bit 6 (drop_bit 12 (triplet_of a b 0))) OR
     push_bit 6 (take_bit 6 (drop_bit 6 (triplet_of a b 0))) = triplet_of a b 0"
    using sextets_join [OF triplet_24 [of a b 0]] by (simp add: z2)
qed

lemma padded_lookup_pad: "padded_lookup (CHR ''='') = Some 0"
  by (simp add: padded_lookup_def)

lemma decode_toBase64: "decode_quads (length bs) (toBase64 bs) = Inr bs"
proof (induction bs rule: toBase64.induct)
  case (1 a b c rest)
  then show ?case
    by (simp add: toBase64_triplet lookup_alphabet_at padded_lookup_alphabet_at sextets_join [OF triplet_24]
        and_255 triplet_bytes del: toBase64.simps take_bit_or drop_bit_or)
next
  case (2 a)
  then show ?case
    by (simp add: toBase64_triplet lookup_alphabet_at padded_lookup_pad sextets_join_short
        and_255 triplet_bytes del: toBase64.simps take_bit_or drop_bit_or)
next
  case (3 a b)
  then show ?case
    by (simp add: toBase64_triplet lookup_alphabet_at padded_lookup_alphabet_at padded_lookup_pad
        sextets_join_short and_255 triplet_bytes del: toBase64.simps take_bit_or drop_bit_or)
next
  case 4
  then show ?case by simp
qed

lemma ends_with_append: "length t \<le> length v \<Longrightarrow> ends_with (u @ v) t = ends_with v t"
  by (simp add: ends_with_def)

lemma toBase64_Nil_iff [simp]: "toBase64 bs = [] \<longleftrightarrow> bs = []"
  by (cases bs rule: toBase64.cases) (simp_all add: Let_def)

lemma toBase64_shape:
  assumes "bs \<noteq> []"
  obtains u v where "toBase64 bs = u @ v" "length v = 4"
    "(if ends_with v ''=='' then 2 else if ends_with v ''='' then 1 else 0) =
       length (toBase64 bs) div 4 * 3 - length bs"
    "length bs \<le> length (toBase64 bs) div 4 * 3"
  using assms
proof (induction bs arbitrary: thesis rule: toBase64.induct)
  case (1 a b c rest)
  show ?case
  proof (cases "rest = []")
    case True
    with 1 show ?thesis
      by (intro "1.prems"(1) [of "[]" "toBase64 (a # b # c # rest)"])
        (simp_all add: Let_def ends_with_def lookup_alphabet_at)
  next
    case False
    with "1.IH" obtain u v where uv: "toBase64 rest = u @ v" "length v = 4"
      "(if ends_with v ''=='' then 2 else if ends_with v ''='' then 1 else 0) =
         length (toBase64 rest) div 4 * 3 - length rest"
      "length rest \<le> length (toBase64 rest) div 4 * 3" by blast
    have "length (toBase64 (a # b # c # rest)) = length (toBase64 rest) + 4" by (simp add: Let_def)
    then have n: "length (toBase64 (a # b # c # rest)) div 4 = Suc (length (toBase64 rest) div 4)" by simp
    show ?thesis
    proof (rule "1.prems"(1))
      show "toBase64 (a # b # c # rest) = (take 4 (toBase64 (a # b # c # rest)) @ u) @ v"
        using uv(1) by (simp add: Let_def)
      show "length v = 4" by (rule uv(2))
      show "(if ends_with v ''=='' then 2 else if ends_with v ''='' then 1 else 0) =
          length (toBase64 (a # b # c # rest)) div 4 * 3 - length (a # b # c # rest)"
        using uv(3) by (simp add: n del: toBase64.simps)
      show "length (a # b # c # rest) \<le> length (toBase64 (a # b # c # rest)) div 4 * 3"
        using uv(4) by (simp add: n del: toBase64.simps)
    qed
  qed
next
  case (2 a)
  then show ?case
    by (intro "2.prems"(1) [of "[]" "toBase64 [a]"]) (simp_all add: Let_def ends_with_def)
next
  case (3 a b)
  then show ?case
    by (intro "3.prems"(1) [of "[]" "toBase64 [a, b]"])
      (simp_all add: Let_def ends_with_def lookup_alphabet_at)
qed simp

lemma fromBase64_toBase64: "fromBase64 (toBase64 bs) = Inr bs"
proof (cases "bs = []")
  case True
  then show ?thesis by (simp add: fromBase64_def)
next
  case False
  then obtain u v where uv: "toBase64 bs = u @ v" "length v = 4"
    "(if ends_with v ''=='' then 2 else if ends_with v ''='' then 1 else 0) =
       length (toBase64 bs) div 4 * 3 - length bs"
    "length bs \<le> length (toBase64 bs) div 4 * 3"
    by (rule toBase64_shape)
  have e: "ends_with (toBase64 bs) ''=='' = ends_with v ''==''" "ends_with (toBase64 bs) ''='' = ends_with v ''=''"
    using uv(2) by (simp_all add: uv(1) ends_with_append)
  have pad: "(if ends_with (toBase64 bs) ''=='' then 2 else if ends_with (toBase64 bs) ''='' then 1 else 0) =
       length (toBase64 bs) div 4 * 3 - length bs"
    unfolding e by (rule uv(3))
  have "length (toBase64 bs) mod 4 = 0" by (simp add: length_toBase64 base64Length_def)
  then show ?thesis
    using False uv(4) by (simp add: fromBase64_def toBase64_no_space pad decode_toBase64 Let_def)
qed

text \<open>The canonical decoder accepts exactly the encodings, each for one value.\<close>

lemma decodeCanonicalBase64_iff:
  "decodeCanonicalBase64 v len = Some bs \<longleftrightarrow>
     v = JString (toBase64 bs) \<and> bs \<noteq> [] \<and> (case len of Some n \<Rightarrow> length bs = n | None \<Rightarrow> True)"
proof
  assume "decodeCanonicalBase64 v len = Some bs"
  then show "v = JString (toBase64 bs) \<and> bs \<noteq> [] \<and> (case len of Some n \<Rightarrow> length bs = n | None \<Rightarrow> True)"
    by (auto simp: decodeCanonicalBase64_def split: js_value.splits if_splits sum.splits option.splits)
next
  assume "v = JString (toBase64 bs) \<and> bs \<noteq> [] \<and> (case len of Some n \<Rightarrow> length bs = n | None \<Rightarrow> True)"
  then show "decodeCanonicalBase64 v len = Some bs"
    by (auto simp: decodeCanonicalBase64_def fromBase64_toBase64 length_toBase64 split: option.splits)
qed

lemma toBase64_inject: "toBase64 x = toBase64 y \<Longrightarrow> x = y"
  by (metis fromBase64_toBase64 sum.inject(2))

section \<open>Lemmas: comparison, lengths, hex, base64url\<close>


lemma xor_zero_iff: "x XOR y = (0 :: byte) \<longleftrightarrow> x = y"
  by (auto simp: bit_eq_iff bit_simps)

lemma or_zero_iff: "x OR y = (0 :: byte) \<longleftrightarrow> x = 0 \<and> y = 0"
  by (auto simp: bit_eq_iff bit_simps)

lemma fold_diff_zero:
  "fold (\<lambda>(x, y) diff. diff OR (x XOR y)) ps d = (0 :: byte) \<longleftrightarrow> d = 0 \<and> list_all (\<lambda>(x, y). x = y) ps"
proof (induction ps arbitrary: d)
  case (Cons p ps)
  then show ?case by (cases p) (simp add: or_zero_iff xor_zero_iff conj_assoc)
qed simp

lemma bytesEqual_iff: "bytesEqual a b \<longleftrightarrow> a = b"
proof (induction a b rule: list_induct2')
  case (4 x xs y ys)
  then show ?case by (auto simp: bytesEqual_def fold_diff_zero xor_zero_iff)
qed (simp_all add: bytesEqual_def fold_diff_zero)

text \<open>The value of a big-endian byte list.\<close>

definition be_value :: "bytes \<Rightarrow> int" where
  "be_value bs = foldl (\<lambda>n b. 256 * n + uint b) 0 bs"

lemma uint_byte_of:
  "uint (w AND 0xff :: 32 word) = uint w mod 256"
  "uint (ucast w :: byte) = uint w mod 256"
  unfolding and_255 unsigned_take_bit_eq unsigned_ucast_eq by (simp_all add: take_bit_eq_mod)

lemma uint_drop_32: "uint (drop_bit k (w :: 32 word)) = uint w div 2 ^ k"
proof -
  have "take_bit 32 (uint w) = uint w" using unsigned_less [where ?'a = int and w = w] by (simp add: take_bit_int_eq_self)
  then show ?thesis unfolding unsigned_drop_bit_eq by (simp add: drop_bit_eq_div)
qed

lemma u16be_value:
  assumes "u16be n = Inr p"
  shows "length p = 2" "be_value p = n" "0 \<le> n" "n < 2 ^ 16"
proof -
  from assms have n: "0 \<le> n" "n < 2 ^ 16" by (auto simp: u16be_def split: if_splits)
  then show "0 \<le> n" "n < 2 ^ 16" by auto
  have v: "uint (word_of_int n :: 32 word) = n" using n by (simp add: uint_word_of_int)
  have p: "p = [ucast (drop_bit 8 (word_of_int n :: 32 word)), ucast (word_of_int n AND 0xff :: 32 word)]"
    using assms n by (simp add: u16be_def Let_def)
  show "length p = 2" by (simp add: p)
  show "be_value p = n" using n by (simp add: p be_value_def uint_byte_of uint_drop_32 v)
qed

lemma u16be_total: "0 \<le> n \<Longrightarrow> n < 2 ^ 16 \<Longrightarrow> \<exists>p. u16be n = Inr p"
  by (simp add: u16be_def Let_def)

lemma u32be_value:
  assumes "u32be n = Inr p"
  shows "length p = 4" "be_value p = n" "0 \<le> n" "n < 2 ^ 32"
proof -
  from assms have n: "0 \<le> n" "n < 2 ^ 32" by (auto simp: u32be_def split: if_splits)
  then show "0 \<le> n" "n < 2 ^ 32" by auto
  have v: "uint (word_of_int n :: 32 word) = n" using n by (simp add: uint_word_of_int)
  have p: "p = [ucast (drop_bit 24 (word_of_int n) AND 0xff :: 32 word), ucast (drop_bit 16 (word_of_int n) AND 0xff :: 32 word),
      ucast (drop_bit 8 (word_of_int n) AND 0xff :: 32 word), ucast (word_of_int n AND 0xff :: 32 word)]"
    using assms n by (simp add: u32be_def Let_def)
  show "length p = 4" by (simp add: p)
  have "be_value p = 256 * (256 * (256 * (n div 2 ^ 24 mod 256) + n div 2 ^ 16 mod 256) + n div 2 ^ 8 mod 256) + n mod 256"
    by (simp add: p be_value_def uint_byte_of uint_drop_32 v)
  also have "\<dots> = n"
  proof -
    have "n div 2 ^ 16 = n div 256 div 256" "n div 2 ^ 24 = n div 256 div 256 div 256"
      by (simp_all add: zdiv_zmult2_eq [symmetric])
    moreover have "n div 256 div 256 div 256 mod 256 = n div 256 div 256 div 256"
      using n by (simp add: zdiv_zmult2_eq [symmetric])
    ultimately show ?thesis by simp
  qed
  finally show "be_value p = n" .
qed

text \<open>A length-prefixed field can be read back from the front of any byte string.\<close>

lemma lengthPrefixed_inject:
  assumes "lengthPrefixed x = Inr px" "lengthPrefixed y = Inr py" "px @ r = py @ s"
  shows "x = y" "r = s"
proof -
  from assms obtain a b where ab: "u16be (int (length x)) = Inr a" "px = a @ x"
      "u16be (int (length y)) = Inr b" "py = b @ y"
    by (auto simp: lengthPrefixed_def concatBytes_def split: sum.splits)
  have l: "length a = length b" using u16be_value(1) ab(1,3) by metis
  with assms(3) ab(2,4) have "a = b" "x @ r = y @ s" by auto
  moreover have "length x = length y"
    using u16be_value(2) [OF ab(1)] u16be_value(2) [OF ab(3)] \<open>a = b\<close> by simp
  ultimately show "x = y" "r = s" by auto
qed

lemma lengthPrefixed_total: "length x < 2 ^ 16 \<Longrightarrow> \<exists>p. lengthPrefixed x = Inr p"
  using u16be_total [of "int (length x)"] by (auto simp: lengthPrefixed_def)

subsection \<open>Hex\<close>

lemma of_char_hex_digit: "d < 16 \<Longrightarrow> (of_char (hex_digit d) :: nat) = (if d < 10 then 48 + d else 87 + d)"
  by (simp add: hex_digit_def)

lemma hex_digit_value: "d < 16 \<Longrightarrow> hex_value (hex_digit d) = d" "d < 16 \<Longrightarrow> is_hex (hex_digit d)"
  by (auto simp: hex_value_def is_hex_def is_digit_def of_char_hex_digit)

lemma unat_byte_split: "unat (b :: byte) div 16 < 16" "unat b mod 16 < 16"
  using unsigned_less [where ?'a = nat and w = b] by (auto simp: less_mult_imp_div_less)

lemma hex_pairs_toHex: "hex_pairs (toHex bs) = bs"
  by (induction bs)
    (auto simp: toHex_def hex_digit_value unat_byte_split mult.commute [of 16])

lemma length_toHex: "length (toHex bs) = length bs * 2"
  by (induction bs) (auto simp: toHex_def)

lemma is_hex_toHex: "list_all is_hex (toHex bs)"
  by (induction bs) (auto simp: toHex_def hex_digit_value unat_byte_split)

lemma fromHex_toHex: "fromHex (JString (toHex bs)) (length bs) = Some bs"
  by (simp add: fromHex_def length_toHex is_hex_toHex hex_pairs_toHex)

lemma hex_value_digit: "is_hex c \<Longrightarrow> hex_value c < 16 \<and> hex_digit (hex_value c) = c"
  by (auto simp: is_hex_def is_digit_def hex_value_def hex_digit_def Let_def)

lemma toHex_hex_pairs: "even (length s) \<Longrightarrow> list_all is_hex s \<Longrightarrow> toHex (hex_pairs s) = s"
proof (induction s rule: hex_pairs.induct)
  case (1 h l rest)
  then have hl: "hex_value h < 16" "hex_digit (hex_value h) = h" "hex_value l < 16" "hex_digit (hex_value l) = l"
    using hex_value_digit by auto
  then have "unat (of_nat (16 * hex_value h + hex_value l) :: byte) = 16 * hex_value h + hex_value l"
    by (subst unat_of_nat) (simp add: )
  with 1 hl show ?case by (simp add: toHex_def)
qed (simp_all add: toHex_def)

lemma fromHex_iff: "fromHex v n = Some bs \<longleftrightarrow> v = JString (toHex bs) \<and> length bs = n"
proof
  assume "fromHex v n = Some bs"
  then obtain s where s: "v = JString s" "length s = n * 2" "list_all is_hex s" "bs = hex_pairs s"
    by (auto simp: fromHex_def split: js_value.splits if_splits)
  then have "toHex bs = s" by (simp add: toHex_hex_pairs)
  moreover from this s(2) have "length bs = n" using length_toHex [of bs] by simp
  ultimately show "v = JString (toHex bs) \<and> length bs = n" using s(1) by simp
qed (auto simp: fromHex_toHex)

subsection \<open>Base64url\<close>

lemma url_letters:
  "list_all (\<lambda>c. from_url_char (to_url_char c) = c \<and> is_url_char (to_url_char c) \<and> c \<noteq> CHR ''='' \<and>
       to_url_char c \<noteq> CHR ''='') STD_ALPHABET"
  by code_simp

lemma alphabet_at_mem: "alphabet_at k t \<in> set STD_ALPHABET"
  using unat_sextet [of "drop_bit k t"] by (simp add: alphabet_at_def and_63 length_alphabet)

lemma toBase64_letters:
  obtains ls where "toBase64 bs = ls @ replicate ((4 - length ls mod 4) mod 4) (CHR ''='')"
    "set ls \<subseteq> set STD_ALPHABET"
proof (induction bs arbitrary: thesis rule: toBase64.induct)
  case (1 a b c rest)
  obtain ls where ls: "toBase64 rest = ls @ replicate ((4 - length ls mod 4) mod 4) (CHR ''='')"
      "set ls \<subseteq> set STD_ALPHABET" by (rule "1.IH" [OF refl])
  show ?case
    by (rule "1.prems" [of "take 4 (toBase64 (a # b # c # rest)) @ ls"])
      (simp_all add: Let_def ls(1), simp_all add: alphabet_at_mem ls(2))
next
  case (2 a)
  show ?case
    by (rule "2.prems" [of "take 2 (toBase64 [a])"]) (simp_all add: Let_def alphabet_at_mem numeral_2_eq_2)
next
  case (3 a b)
  show ?case
    by (rule "3.prems" [of "take 3 (toBase64 [a, b])"]) (simp_all add: Let_def alphabet_at_mem)
next
  case 4
  show ?case by (rule "4.prems" [of "[]"]) simp_all
qed

lemma strip_pad_append:
  assumes "CHR ''='' \<notin> set ls"
  shows "strip_pad (ls @ replicate k (CHR ''='')) = ls"
proof -
  have "dropWhile (\<lambda>c. c = CHR ''='') (rev ls) = rev ls"
  proof (cases "rev ls")
    case (Cons x xs)
    then have "x \<in> set ls" by (metis list.set_intros(1) set_rev)
    with assms Cons show ?thesis by auto
  qed simp
  moreover have "dropWhile (\<lambda>c. c = CHR ''='') (replicate k (CHR ''='') @ ys) = dropWhile (\<lambda>c. c = CHR ''='') ys" for ys
    by (induction k) simp_all
  ultimately show ?thesis by (simp add: strip_pad_def)
qed

lemma toBase64Url_padded:
  assumes "s = toBase64Url bs"
  shows "list_all is_url_char s"
    "map from_url_char s @ replicate ((4 - length s mod 4) mod 4) (CHR ''='') = toBase64 bs"
proof -
  obtain ls where ls: "toBase64 bs = ls @ replicate ((4 - length ls mod 4) mod 4) (CHR ''='')"
    "set ls \<subseteq> set STD_ALPHABET" by (rule toBase64_letters)
  have a: "from_url_char (to_url_char c) = c" "is_url_char (to_url_char c)" "to_url_char c \<noteq> CHR ''=''"
    if "c \<in> set ls" for c
    using that ls(2) url_letters by (auto simp: list_all_iff)
  have "map to_url_char (toBase64 bs) = map to_url_char ls @ replicate ((4 - length ls mod 4) mod 4) (CHR ''='')"
    unfolding ls(1) by (simp add: to_url_char_def)
  moreover have "CHR ''='' \<notin> set (map to_url_char ls)" using a(3) by force
  ultimately have s: "s = map to_url_char ls" by (simp add: assms toBase64Url_def strip_pad_append)
  show "list_all is_url_char s" using a(2) by (simp add: s list_all_iff)
  have "map from_url_char s = ls" unfolding s by (simp add: map_idI a(1))
  then show "map from_url_char s @ replicate ((4 - length s mod 4) mod 4) (CHR ''='') = toBase64 bs"
    unfolding ls(1) by (metis length_map)
qed

lemma decodeBase64Url_iff:
  "decodeBase64Url v n = Some bs \<longleftrightarrow> v = JString (toBase64Url bs) \<and> bs \<noteq> [] \<and> length bs = n"
proof
  assume "decodeBase64Url v n = Some bs"
  then show "v = JString (toBase64Url bs) \<and> bs \<noteq> [] \<and> length bs = n"
    by (auto simp: decodeBase64Url_def decodeCanonicalBase64_iff Let_def
        split: js_value.splits if_splits option.splits)
next
  assume a: "v = JString (toBase64Url bs) \<and> bs \<noteq> [] \<and> length bs = n"
  define s where "s = toBase64Url bs"
  note u = toBase64Url_padded [OF s_def]
  have "s \<noteq> []"
  proof
    assume "s = []"
    with u(2) have "toBase64 bs = []" by simp
    with a show False by simp
  qed
  moreover have "decodeCanonicalBase64 (JString (map from_url_char s @
      replicate ((4 - length s mod 4) mod 4) (CHR ''=''))) (Some n) = Some bs"
    using a by (simp add: u(2) decodeCanonicalBase64_iff)
  ultimately show "decodeBase64Url v n = Some bs"
    using a u(1) by (simp add: decodeBase64Url_def Let_def s_def [symmetric])
qed

end
