(* ===== verification/Utf8.thy ===== *)
theory Utf8
  imports Byte_Codec
begin

text \<open>
  Text and its UTF-8 bytes, as \<^verbatim>\<open>TextEncoder\<close> and a fatal
  \<^verbatim>\<open>TextDecoder('utf-8')\<close> convert them. A JavaScript string is a list of
  16-bit code units; the encoder replaces a lone surrogate by U+FFFD, and the
  decoder drops a byte order mark at the start. Identifiers and labels are
  \<open>string\<close>s, whose characters are the code units U+0000 to U+00FF.
\<close>

type_synonym js_text = "16 word list"

section \<open>Code points\<close>

definition high_surrogate :: "nat \<Rightarrow> bool" where
  "high_surrogate u \<longleftrightarrow> 0xD800 \<le> u \<and> u \<le> 0xDBFF"

definition low_surrogate :: "nat \<Rightarrow> bool" where
  "low_surrogate u \<longleftrightarrow> 0xDC00 \<le> u \<and> u \<le> 0xDFFF"

definition scalar_value :: "nat \<Rightarrow> bool" where
  "scalar_value n \<longleftrightarrow> n < 0x110000 \<and> \<not> high_surrogate n \<and> \<not> low_surrogate n"

fun code_points :: "nat list \<Rightarrow> nat list" where
  "code_points [] = []"
| "code_points [u] = [if high_surrogate u \<or> low_surrogate u then 0xFFFD else u]"
| "code_points (u # v # us) =
     (if high_surrogate u \<and> low_surrogate v
      then (0x10000 + (u - 0xD800) * 0x400 + (v - 0xDC00)) # code_points us
      else (if high_surrogate u \<or> low_surrogate u then 0xFFFD else u) # code_points (v # us))"

definition units_of_point :: "nat \<Rightarrow> nat list" where
  "units_of_point n =
     (if n < 0x10000 then [n] else [0xD800 + (n - 0x10000) div 0x400, 0xDC00 + (n - 0x10000) mod 0x400])"

fun well_formed_units :: "nat list \<Rightarrow> bool" where
  "well_formed_units [] \<longleftrightarrow> True"
| "well_formed_units [u] \<longleftrightarrow> \<not> high_surrogate u \<and> \<not> low_surrogate u"
| "well_formed_units (u # v # us) \<longleftrightarrow>
     (if high_surrogate u then low_surrogate v \<and> well_formed_units us
      else \<not> low_surrogate u \<and> well_formed_units (v # us))"

section \<open>UTF-8\<close>

definition encode_point :: "nat \<Rightarrow> nat list" where
  "encode_point n =
     (if n < 0x80 then [n]
      else if n < 0x800 then [0xC0 + n div 0x40, 0x80 + n mod 0x40]
      else if n < 0x10000 then [0xE0 + n div 0x1000, 0x80 + n div 0x40 mod 0x40, 0x80 + n mod 0x40]
      else [0xF0 + n div 0x40000, 0x80 + n div 0x1000 mod 0x40, 0x80 + n div 0x40 mod 0x40, 0x80 + n mod 0x40])"

definition cont_byte :: "nat \<Rightarrow> bool" where
  "cont_byte b \<longleftrightarrow> 0x80 \<le> b \<and> b \<le> 0xBF"

definition decode_point :: "nat list \<Rightarrow> (nat \<times> nat list) option" where
  "decode_point bs =
     (case bs of
        [] \<Rightarrow> None
      | b # r1 \<Rightarrow>
          if b < 0x80 then Some (b, r1)
          else case r1 of
            [] \<Rightarrow> None
          | c # r2 \<Rightarrow>
              if 0xC2 \<le> b \<and> b \<le> 0xDF
              then (if cont_byte c then Some ((b - 0xC0) * 0x40 + (c - 0x80), r2) else None)
              else case r2 of
                [] \<Rightarrow> None
              | d # r3 \<Rightarrow>
                  if 0xE0 \<le> b \<and> b \<le> 0xEF
                  then (if (if b = 0xE0 then 0xA0 else 0x80) \<le> c \<and> c \<le> (if b = 0xED then 0x9F else 0xBF) \<and> cont_byte d
                        then Some ((b - 0xE0) * 0x1000 + (c - 0x80) * 0x40 + (d - 0x80), r3) else None)
                  else case r3 of
                    [] \<Rightarrow> None
                  | e # r4 \<Rightarrow>
                      if 0xF0 \<le> b \<and> b \<le> 0xF4 \<and> (if b = 0xF0 then 0x90 else 0x80) \<le> c \<and>
                         c \<le> (if b = 0xF4 then 0x8F else 0xBF) \<and> cont_byte d \<and> cont_byte e
                      then Some ((b - 0xF0) * 0x40000 + (c - 0x80) * 0x1000 + (d - 0x80) * 0x40 + (e - 0x80), r4)
                      else None)"

lemma decode_point_shrinks: "decode_point bs = Some (n, rest) \<Longrightarrow> length rest < length bs"
  by (auto simp: decode_point_def split: list.splits if_splits)

function decode_points :: "nat list \<Rightarrow> nat list option" where
  "decode_points bs =
     (if bs = [] then Some []
      else case decode_point bs of
             None \<Rightarrow> None
           | Some (n, rest) \<Rightarrow> map_option (Cons n) (decode_points rest))"
  by pat_completeness auto
termination
  by (relation "measure length") (auto dest: decode_point_shrinks)

declare decode_points.simps [simp del]

definition utf8Encode :: "js_text \<Rightarrow> bytes" where
  "utf8Encode text = map of_nat (concat (map encode_point (code_points (map unat text))))"

definition drop_bom :: "js_text \<Rightarrow> js_text" where
  "drop_bom text = (case text of u # us \<Rightarrow> if u = 0xFEFF then us else text | [] \<Rightarrow> [])"

definition fatalUtf8 :: "bytes \<Rightarrow> js_text option" where
  "fatalUtf8 bs =
     (let bs = (if take 3 bs = [0xEF, 0xBB, 0xBF] then drop 3 bs else bs)
      in map_option (\<lambda>points. map of_nat (concat (map units_of_point points))) (decode_points (map unat bs)))"

definition units :: "string \<Rightarrow> js_text" where
  "units s = map (\<lambda>c. of_nat (of_char c)) s"

definition labelBytes :: "string \<Rightarrow> bytes" where
  "labelBytes label = concatBytes [utf8Encode (units label), [0]]"

section \<open>Lemmas\<close>

lemma scalar_code_points: "list_all (\<lambda>u. u < 0x10000) us \<Longrightarrow> list_all scalar_value (code_points us)"
  by (induction us rule: code_points.induct)
    (auto simp: scalar_value_def high_surrogate_def low_surrogate_def)

lemma decode_encode_point:
  assumes "scalar_value n"
  shows "decode_point (encode_point n @ rest) = Some (n, rest)"
proof -
  consider "n < 0x80" | "0x80 \<le> n" "n < 0x800" | "0x800 \<le> n" "n < 0x10000" | "0x10000 \<le> n" "n < 0x110000"
    using assms by (metis not_le scalar_value_def)
  then show ?thesis
  proof cases
    case 1
    then show ?thesis by (simp add: encode_point_def decode_point_def)
  next
    case 2
    have "2 \<le> n div 0x40" "n div 0x40 < 0x20" using 2 by auto
    then show ?thesis using 2
      by (simp add: encode_point_def decode_point_def cont_byte_def less_Suc_eq_le)
  next
    case 3
    define a b c where "a = n div 0x1000" and "b = n div 0x40 mod 0x40" and "c = n mod 0x40"
    have a: "a = n div 0x40 div 0x40" by (simp add: a_def div_mult2_eq [symmetric])
    have n: "n = a * 0x1000 + b * 0x40 + c"
      using div_mult_mod_eq [of n "0x40"] div_mult_mod_eq [of "n div 0x40" "0x40"]
      unfolding a b_def c_def by linarith
    have "a < 0x10" "b < 0x40" "c < 0x40" using 3 by (auto simp: a_def b_def c_def)
    moreover have "a = 0 \<Longrightarrow> 0x20 \<le> b" using 3 n \<open>c < 0x40\<close> by auto
    moreover have "a = 0xD \<Longrightarrow> b < 0x20"
      using assms n \<open>c < 0x40\<close> \<open>b < 0x40\<close> by (auto simp: scalar_value_def high_surrogate_def low_surrogate_def)
    moreover have "encode_point n = [0xE0 + a, 0x80 + b, 0x80 + c]"
      using 3 by (simp add: encode_point_def a_def b_def c_def)
    ultimately show ?thesis using n by (auto simp: decode_point_def cont_byte_def)
  next
    case 4
    define a b c d where "a = n div 0x40000" and "b = n div 0x1000 mod 0x40" and "c = n div 0x40 mod 0x40"
      and "d = n mod 0x40"
    have a: "n div 0x1000 = n div 0x40 div 0x40" "a = n div 0x40 div 0x40 div 0x40"
      by (simp_all add: a_def div_mult2_eq [symmetric])
    have n: "n = a * 0x40000 + b * 0x1000 + c * 0x40 + d"
      using div_mult_mod_eq [of n "0x40"] div_mult_mod_eq [of "n div 0x40" "0x40"]
        div_mult_mod_eq [of "n div 0x40 div 0x40" "0x40"]
      unfolding a(2) b_def c_def d_def a(1) by linarith
    have "a < 5" "b < 0x40" "c < 0x40" "d < 0x40" using 4 by (auto simp: a_def b_def c_def d_def)
    moreover have "a = 0 \<Longrightarrow> 0x10 \<le> b" using 4 n \<open>c < 0x40\<close> \<open>d < 0x40\<close> by auto
    moreover have "a = 4 \<Longrightarrow> b < 0x10" using 4 n by auto
    moreover have "encode_point n = [0xF0 + a, 0x80 + b, 0x80 + c, 0x80 + d]"
      using 4 by (simp add: encode_point_def a_def b_def c_def d_def)
    ultimately show ?thesis using n by (auto simp: decode_point_def cont_byte_def)
  qed
qed

lemma encode_point_bytes: "scalar_value n \<Longrightarrow> list_all (\<lambda>b. b < 256) (encode_point n)"
  by (auto simp: encode_point_def scalar_value_def less_mult_imp_div_less)

lemma encode_point_not_Nil [simp]: "encode_point n \<noteq> []"
  by (simp add: encode_point_def)

lemma decode_encode_points:
  "list_all scalar_value ns \<Longrightarrow> decode_points (concat (map encode_point ns)) = Some ns"
proof (induction ns)
  case Nil
  then show ?case by (simp add: decode_points.simps)
next
  case (Cons n ns)
  then show ?case by (subst decode_points.simps) (simp add: decode_encode_point)
qed

lemma unat_of_nat_bytes: "list_all (\<lambda>b. b < 256) xs \<Longrightarrow> map unat (map of_nat xs :: bytes) = xs"
  by (induction xs) (simp_all add: unat_of_nat)

lemma encode_points_bytes:
  "list_all scalar_value ns \<Longrightarrow> list_all (\<lambda>b. b < 256) (concat (map encode_point ns))"
  by (induction ns) (auto simp: encode_point_bytes)

text \<open>The text that comes back: a lone surrogate is U+FFFD.\<close>

definition repaired :: "js_text \<Rightarrow> js_text" where
  "repaired text = map of_nat (concat (map units_of_point (code_points (map unat text))))"

lemma text_scalars: "list_all scalar_value (code_points (map unat (text :: js_text)))"
proof (rule scalar_code_points)
  show "list_all (\<lambda>u. u < 0x10000) (map unat text)"
    using unsigned_less [where ?'a = nat and ?'b = 16] by (auto simp: list_all_iff)
qed

lemma bom_head:
  assumes "list_all scalar_value ns"
  shows "take 3 (concat (map encode_point ns)) = [0xEF, 0xBB, 0xBF] \<longleftrightarrow> (\<exists>ms. ns = 0xFEFF # ms)"
proof (cases ns)
  case (Cons n ms)
  have dec: "decode_point (concat (map encode_point ns)) = Some (n, concat (map encode_point ms))"
    using assms by (simp add: Cons decode_encode_point)
  show ?thesis
  proof
    assume "take 3 (concat (map encode_point ns)) = [0xEF, 0xBB, 0xBF]"
    then have "concat (map encode_point ns) = [0xEF, 0xBB, 0xBF] @ drop 3 (concat (map encode_point ns))"
      by (metis append_take_drop_id)
    with dec have "decode_point ([0xEF, 0xBB, 0xBF] @ drop 3 (concat (map encode_point ns))) = Some (n, concat (map encode_point ms))"
      by simp
    then show "\<exists>ms. ns = 0xFEFF # ms" by (simp add: decode_point_def cont_byte_def Cons)
  qed (auto simp: encode_point_def)
qed simp

lemma map_of_nat_bom:
  "list_all (\<lambda>b. b < 256) xs \<Longrightarrow>
     take 3 (map of_nat xs :: bytes) = [0xEF, 0xBB, 0xBF] \<longleftrightarrow> take 3 xs = [0xEF, 0xBB, 0xBF]"
proof
  assume b: "list_all (\<lambda>b. b < 256) xs" and t: "take 3 (map of_nat xs :: bytes) = [0xEF, 0xBB, 0xBF]"
  have "map unat (take 3 (map of_nat xs :: bytes)) = take 3 xs"
    by (simp only: take_map [symmetric] unat_of_nat_bytes [OF b])
  with t show "take 3 xs = [0xEF, 0xBB, 0xBF]" by simp
qed (simp add: take_map)

lemma of_nat_unit_eq: "h < 0x10000 \<Longrightarrow> (of_nat h :: 16 word) = 0xFEFF \<longleftrightarrow> h = 0xFEFF"
proof
  assume h: "h < 0x10000" "(of_nat h :: 16 word) = 0xFEFF"
  then have "unat (of_nat h :: 16 word) = unat (0xFEFF :: 16 word)" by simp
  with h(1) show "h = 0xFEFF" by (simp add: unat_of_nat)
qed simp

text \<open>What is encoded decodes, to the text up to lone surrogates and a leading mark.\<close>

lemma fatalUtf8_utf8Encode: "fatalUtf8 (utf8Encode text) = Some (drop_bom (repaired text))"
proof -
  define ns where "ns = code_points (map unat text)"
  have ns: "list_all scalar_value ns" unfolding ns_def by (rule text_scalars)
  have enc: "utf8Encode text = map of_nat (concat (map encode_point ns))" by (simp add: utf8Encode_def ns_def)
  have rep: "repaired text = map of_nat (concat (map units_of_point ns))" by (simp add: repaired_def ns_def)
  note bytes = encode_points_bytes [OF ns]
  show ?thesis
  proof (cases "\<exists>ms. ns = 0xFEFF # ms")
    case True
    then obtain ms where ms: "ns = 0xFEFF # ms" by blast
    have ms': "list_all scalar_value ms" using ns by (simp add: ms)
    have "drop 3 (utf8Encode text) = map of_nat (concat (map encode_point ms))"
      by (simp add: enc ms encode_point_def)
    then have "map unat (drop 3 (utf8Encode text)) = concat (map encode_point ms)"
      using unat_of_nat_bytes [OF encode_points_bytes [OF ms']] by simp
    moreover have "take 3 (utf8Encode text) = [0xEF, 0xBB, 0xBF]"
      using bom_head [OF ns] map_of_nat_bom [OF bytes] True by (simp add: enc)
    moreover have "drop_bom (repaired text) = map of_nat (concat (map units_of_point ms))"
      by (simp add: rep ms units_of_point_def drop_bom_def)
    ultimately show ?thesis by (simp add: fatalUtf8_def decode_encode_points [OF ms'])
  next
    case False
    have "take 3 (utf8Encode text) \<noteq> [0xEF, 0xBB, 0xBF]"
      using bom_head [OF ns] map_of_nat_bom [OF bytes] False by (simp add: enc)
    moreover have "drop_bom (repaired text) = repaired text"
    proof (cases ns)
      case (Cons n ms)
      have "units_of_point n \<noteq> []" "hd (units_of_point n) < 0x10000" "hd (units_of_point n) \<noteq> 0xFEFF"
        using ns False by (auto simp: Cons units_of_point_def scalar_value_def less_mult_imp_div_less)
      then have "hd (repaired text) \<noteq> 0xFEFF"
        by (cases "units_of_point n") (simp_all add: rep Cons of_nat_unit_eq)
      then show ?thesis by (cases "repaired text") (simp_all add: drop_bom_def)
    qed (simp add: rep drop_bom_def)
    ultimately show ?thesis
      using unat_of_nat_bytes [OF bytes]
      by (simp add: fatalUtf8_def enc [symmetric] rep decode_encode_points [OF ns] del: list.map_comp)
  qed
qed

lemma units_code_points: "well_formed_units us \<Longrightarrow> list_all (\<lambda>u. u < 0x10000) us \<Longrightarrow>
    concat (map units_of_point (code_points us)) = us"
proof (induction us rule: code_points.induct)
  case (3 u v us)
  show ?case
  proof (cases "high_surrogate u")
    case True
    define x y where "x = u - 0xD800" and "y = v - 0xDC00"
    from True 3 have xy: "u = 0xD800 + x" "v = 0xDC00 + y" "x < 0x400" "y < 0x400"
      by (auto simp: high_surrogate_def low_surrogate_def x_def y_def)
    have "units_of_point (0x10000 + x * 0x400 + y) = [u, v]" using xy by (simp add: units_of_point_def)
    with True 3 show ?thesis by (simp add: x_def y_def)
  next
    case False
    with 3 show ?thesis by (simp add: units_of_point_def)
  qed
qed (simp_all add: units_of_point_def)

lemma repaired_well_formed: "well_formed_units (map unat text) \<Longrightarrow> repaired text = text"
proof -
  assume w: "well_formed_units (map unat text)"
  have "list_all (\<lambda>u. u < 0x10000) (map unat text)"
    using unsigned_less [where ?'a = nat and ?'b = 16] by (auto simp: list_all_iff)
  from units_code_points [OF w this] show ?thesis by (simp add: repaired_def map_idI)
qed

lemma utf8_roundtrip:
  "well_formed_units (map unat text) \<Longrightarrow> text = [] \<or> hd text \<noteq> 0xFEFF \<Longrightarrow> fatalUtf8 (utf8Encode text) = Some text"
  by (cases "text") (simp_all add: fatalUtf8_utf8Encode repaired_well_formed drop_bom_def)

section \<open>ASCII\<close>

lemma of_char_less_256: "(of_char c :: nat) < 256"
  using mod_less_divisor [of 256 "of_char c :: nat"] by simp

definition ascii :: "string \<Rightarrow> bool" where
  "ascii s \<longleftrightarrow> list_all (\<lambda>c. (of_char c :: nat) < 128) s"

lemma unat_of_char: "unat (of_nat (of_char c) :: 16 word) = of_char c"
proof -
  have "(of_char c :: nat) mod 2 ^ 16 = of_char c"
    by (rule mod_less, rule less_trans [OF of_char_less_256]) simp
  then show ?thesis by (simp add: unat_of_nat)
qed

lemma code_points_ascii: "list_all (\<lambda>u. u < 128) us \<Longrightarrow> code_points us = us"
  by (induction us rule: code_points.induct) (auto simp: high_surrogate_def low_surrogate_def)

lemma utf8Encode_ascii:
  assumes "ascii s"
  shows "utf8Encode (units s) = map (\<lambda>c. of_nat (of_char c)) s"
proof -
  have u: "map unat (units s) = map of_char s" by (simp add: units_def unat_of_char)
  have "code_points (map of_char s) = map of_char s"
    using assms by (intro code_points_ascii) (simp add: ascii_def list_all_iff)
  moreover have "concat (map encode_point (map of_char s)) = map of_char s"
    using assms by (induction s) (simp_all add: ascii_def encode_point_def)
  ultimately show ?thesis by (simp add: utf8Encode_def u)
qed

lemma of_char_byte_inject: "(of_nat (of_char a) :: byte) = of_nat (of_char b) \<longleftrightarrow> a = b"
proof
  assume "(of_nat (of_char a) :: byte) = of_nat (of_char b)"
  then have "unat (of_nat (of_char a) :: byte) = unat (of_nat (of_char b) :: byte)" by simp
  then show "a = b" using of_char_less_256 [of a] of_char_less_256 [of b] by (simp add: unat_of_nat)
qed simp

lemma utf8Encode_ascii_inject:
  "ascii s \<Longrightarrow> ascii t \<Longrightarrow> utf8Encode (units s) = utf8Encode (units t) \<longleftrightarrow> s = t"
proof (induction s t rule: list_induct2')
  case (4 x xs y ys)
  then show ?case by (auto simp: utf8Encode_ascii of_char_byte_inject ascii_def)
qed (auto simp: utf8Encode_ascii ascii_def)

lemma length_utf8_ascii: "ascii s \<Longrightarrow> length (utf8Encode (units s)) = length s"
  by (simp add: utf8Encode_ascii)

text \<open>The terminating zero keeps one label from being the start of another.\<close>

definition label_text :: "string \<Rightarrow> bool" where
  "label_text s \<longleftrightarrow> ascii s \<and> CHR 0x00 \<notin> set s"

lemma labelBytes_prefix_free:
  assumes "label_text s" "label_text t" "labelBytes s @ x = labelBytes t @ y"
  shows "s = t \<and> x = y"
  using assms
proof (induction s t rule: list_induct2')
  case (4 a s b t)
  then show ?case
    by (auto simp: label_text_def labelBytes_def concatBytes_def utf8Encode_ascii ascii_def of_char_byte_inject)
next
  case (2 a s)
  then have "(of_nat (of_char a) :: byte) = of_nat (of_char (CHR 0x00))"
    by (auto simp: label_text_def labelBytes_def concatBytes_def utf8Encode_ascii ascii_def)
  with 2 show ?case unfolding of_char_byte_inject by (simp add: label_text_def)
next
  case (3 b t)
  then have "(of_nat (of_char b) :: byte) = of_nat (of_char (CHR 0x00))"
    by (auto simp: label_text_def labelBytes_def concatBytes_def utf8Encode_ascii ascii_def)
  with 3 show ?case unfolding of_char_byte_inject by (simp add: label_text_def)
qed (simp add: labelBytes_def concatBytes_def)

end
