(* ===== verification/Key_Forms.thy ===== *)
theory Key_Forms
  imports Byte_Codec
begin

unbundle bit_operations_syntax

text \<open>
  The checks on the encoded keys and signatures of a release identity, before
  any cryptography runs (\<^verbatim>\<open>packages/blackout-protocol/src/release/identity.ts\<close>):
  the canonical form of X25519 and Ed25519 keys, the list of small-order points,
  the range of the scalar of a signature and the modulus check of an ML-KEM-768
  key. Each check reads single bytes; the lemmas say which condition on the
  encoded numbers it decides.
\<close>

definition ED25519_PUBLIC_KEY_BYTES :: nat where "ED25519_PUBLIC_KEY_BYTES = 32"
definition ED25519_SIGNATURE_BYTES :: nat where "ED25519_SIGNATURE_BYTES = 64"
definition X25519_PUBLIC_KEY_BYTES :: nat where "X25519_PUBLIC_KEY_BYTES = 32"
definition MLKEM768_PUBLIC_KEY_BYTES :: nat where "MLKEM768_PUBLIC_KEY_BYTES = 1184"
definition RELEASE_FINGERPRINT_BYTES :: nat where "RELEASE_FINGERPRINT_BYTES = 32"

lemmas key_lengths = ED25519_PUBLIC_KEY_BYTES_def ED25519_SIGNATURE_BYTES_def X25519_PUBLIC_KEY_BYTES_def
  MLKEM768_PUBLIC_KEY_BYTES_def RELEASE_FINGERPRINT_BYTES_def

section \<open>The checks\<close>

text \<open>The loop over three bytes at a time, each holding two coefficients of 12 bits.\<close>

fun coefficients_below_q :: "bytes \<Rightarrow> bool" where
  "coefficients_below_q (b0 # b1 # b2 # rest) =
     (let low = (ucast b0 :: 32 word) OR push_bit 8 (ucast b1 AND 0x0f);
          high = drop_bit 4 (ucast b1 :: 32 word) OR push_bit 4 (ucast b2)
      in if low \<ge> 3329 \<or> high \<ge> 3329 then False else coefficients_below_q rest)"
| "coefficients_below_q _ = True"

definition mlKem768EncapsulationKeyIsWellFormed :: "bytes \<Rightarrow> bool" where
  "mlKem768EncapsulationKeyIsWellFormed key =
     (if length key \<noteq> MLKEM768_PUBLIC_KEY_BYTES then False else coefficients_below_q (take 1152 key))"

definition fieldElementIsUnreduced :: "bytes \<Rightarrow> bool" where
  "fieldElementIsUnreduced bs =
     (if (bs ! 31) AND 0x7f \<noteq> 0x7f then False
      else if \<not> list_all (\<lambda>i. bs ! i = 0xff) (rev [1..<31]) then False
      else bs ! 0 \<ge> 0xed)"

definition x25519KeyIsCanonical :: "bytes \<Rightarrow> bool" where
  "x25519KeyIsCanonical key \<longleftrightarrow>
     length key = X25519_PUBLIC_KEY_BYTES \<and> (key ! 31) AND 0x80 = 0 \<and> \<not> fieldElementIsUnreduced key"

definition ED25519_SMALL_ORDER_Y :: "string list" where
  "ED25519_SMALL_ORDER_Y =
     [''0000000000000000000000000000000000000000000000000000000000000000'',
      ''0100000000000000000000000000000000000000000000000000000000000000'',
      ''26e8958fc2b227b045c3f489f2ef98f0d5dfac05d3c63339b13802886d53fc05'',
      ''c7176a703d4dd84fba3c0b760d10670f2a2053fa2c39ccc64ec7fd7792ac037a'',
      ''ecffffffffffffffffffffffffffffffffffffffffffffffffffffffffffff7f'',
      ''edffffffffffffffffffffffffffffffffffffffffffffffffffffffffffff7f'',
      ''eeffffffffffffffffffffffffffffffffffffffffffffffffffffffffffff7f'']"

definition ED25519_SMALL_ORDER_BYTES :: "bytes list" where
  "ED25519_SMALL_ORDER_BYTES = map hex_pairs ED25519_SMALL_ORDER_Y"

definition ed25519PointHasSmallOrder :: "bytes \<Rightarrow> bool" where
  "ed25519PointHasSmallOrder point \<longleftrightarrow>
     length point = ED25519_PUBLIC_KEY_BYTES \<and>
     list_ex (\<lambda>entry. if \<not> list_all (\<lambda>i. point ! i = entry ! i) [0..<31] then False
                      else (point ! 31) AND 0x7f = entry ! 31) ED25519_SMALL_ORDER_BYTES"

definition ed25519PublicKeyIsAcceptable :: "bytes \<Rightarrow> bool" where
  "ed25519PublicKeyIsAcceptable key \<longleftrightarrow>
     length key = ED25519_PUBLIC_KEY_BYTES \<and> \<not> fieldElementIsUnreduced key \<and> \<not> ed25519PointHasSmallOrder key"

definition ED25519_GROUP_ORDER_LE :: bytes where
  "ED25519_GROUP_ORDER_LE = hex_pairs ''edd3f55c1a631258d69cf7a2def9de1400000000000000000000000000000010''"

fun scalar_loop :: "nat \<Rightarrow> bytes \<Rightarrow> bool" where
  "scalar_loop 0 scalar = False"
| "scalar_loop (Suc i) scalar =
     (if scalar ! i < ED25519_GROUP_ORDER_LE ! i then True
      else if scalar ! i > ED25519_GROUP_ORDER_LE ! i then False
      else scalar_loop i scalar)"

definition ed25519ScalarIsCanonical :: "bytes \<Rightarrow> bool" where
  "ed25519ScalarIsCanonical scalar = scalar_loop 32 scalar"

definition ed25519SignatureIsAcceptable :: "bytes \<Rightarrow> bool" where
  "ed25519SignatureIsAcceptable signature \<longleftrightarrow>
     length signature = ED25519_SIGNATURE_BYTES \<and>
     \<not> ed25519PointHasSmallOrder (take 32 signature) \<and>
     ed25519ScalarIsCanonical (drop 32 signature)"

section \<open>Little-endian numbers\<close>

fun le_value :: "bytes \<Rightarrow> nat" where
  "le_value [] = 0"
| "le_value (b # bs) = unat b + 256 * le_value bs"

lemma unat_byte: "unat (b :: byte) < 256"
  using unsigned_less [where ?'a = nat and w = b] by simp

lemma le_value_bound: "le_value bs < 256 ^ length bs"
proof (induction bs)
  case (Cons b bs)
  have "le_value bs + 1 \<le> 256 ^ length bs" using Cons by simp
  then have "256 * (le_value bs + 1) \<le> 256 * 256 ^ length bs" by (rule mult_left_mono) simp
  with unat_byte [of b] show ?case by simp
qed simp

lemma le_value_append: "le_value (xs @ ys) = le_value xs + 256 ^ length xs * le_value ys"
  by (induction xs) (simp_all add: algebra_simps)

lemma le_value_inject: "length xs = length ys \<Longrightarrow> le_value xs = le_value ys \<Longrightarrow> xs = ys"
proof (induction xs ys rule: list_induct2)
  case (Cons x xs y ys)
  have "(unat x + 256 * le_value xs) mod 256 = (unat y + 256 * le_value ys) mod 256" using Cons.prems by simp
  then have "unat x = unat y" using unat_byte [of x] unat_byte [of y] by simp
  with Cons show ?case by (simp add: word_unat_eq_iff)
qed simp

text \<open>The order of two numbers is decided by their most significant byte.\<close>

lemma le_value_snoc_less:
  assumes "length xs = length ys"
  shows "le_value (xs @ [x]) < le_value (ys @ [y]) \<longleftrightarrow> x < y \<or> x = y \<and> le_value xs < le_value ys"
proof -
  define P where "P = (256 :: nat) ^ length ys"
  have b: "le_value xs < P" "le_value ys < P"
    using le_value_bound [of xs] le_value_bound [of ys] assms by (auto simp: P_def)
  have e: "le_value (xs @ [x]) = le_value xs + P * unat x" "le_value (ys @ [y]) = le_value ys + P * unat y"
    by (simp_all add: le_value_append assms P_def)
  consider "x < y" | "x = y" | "y < x" by (meson linorder_neqE)
  then show ?thesis
  proof cases
    case 1
    then have "P * (unat x + 1) \<le> P * unat y" by (intro mult_left_mono) (simp_all add: word_less_nat_alt)
    with b 1 show ?thesis unfolding e by (simp add: algebra_simps)
  next
    case 2
    then show ?thesis unfolding e by simp
  next
    case 3
    then have "P * (unat y + 1) \<le> P * unat x" by (intro mult_left_mono) (simp_all add: word_less_nat_alt)
    with b 3 show ?thesis unfolding e by (auto simp: algebra_simps)
  qed
qed

lemma take_Suc_snoc: "i < length xs \<Longrightarrow> take (Suc i) xs = take i xs @ [xs ! i]"
  by (rule take_Suc_conv_app_nth)

section \<open>What the checks decide\<close>

lemma group_order: "le_value ED25519_GROUP_ORDER_LE = 2 ^ 252 + 27742317777372353535851937790883648493"
  "length ED25519_GROUP_ORDER_LE = 32"
  by (simp_all add: ED25519_GROUP_ORDER_LE_def hex_value_def)

lemma scalar_loop_iff:
  "i \<le> 32 \<Longrightarrow> length scalar = 32 \<Longrightarrow>
     scalar_loop i scalar \<longleftrightarrow> le_value (take i scalar) < le_value (take i ED25519_GROUP_ORDER_LE)"
proof (induction i)
  case (Suc i)
  have "le_value (take (Suc i) scalar) < le_value (take (Suc i) ED25519_GROUP_ORDER_LE) \<longleftrightarrow>
      scalar ! i < ED25519_GROUP_ORDER_LE ! i \<or>
      scalar ! i = ED25519_GROUP_ORDER_LE ! i \<and>
      le_value (take i scalar) < le_value (take i ED25519_GROUP_ORDER_LE)"
    using Suc.prems by (simp add: take_Suc_snoc group_order(2) le_value_snoc_less)
  with Suc show ?case by auto
qed simp

lemma ed25519ScalarIsCanonical_iff:
  "length scalar = 32 \<Longrightarrow>
     ed25519ScalarIsCanonical scalar \<longleftrightarrow> le_value scalar < 2 ^ 252 + 27742317777372353535851937790883648493"
  using scalar_loop_iff [of 32 scalar] by (simp add: ed25519ScalarIsCanonical_def group_order)

text \<open>The 255-bit number of a key, and the prime it must be below.\<close>

definition field_prime :: nat where
  "field_prime = 2 ^ 255 - 19"

definition field_prime_le :: bytes where
  "field_prime_le = 0xed # replicate 30 0xff @ [0x7f]"

lemma le_value_replicate: "Suc (le_value (replicate n 0xff)) = 256 ^ n"
proof (induction n)
  case (Suc n)
  then have "256 * Suc (le_value (replicate n 0xff)) = 256 ^ Suc n" by (metis power_Suc)
  then show ?case by simp
qed simp

lemma field_prime_le_value: "le_value field_prime_le = field_prime" "length field_prime_le = 32"
proof -
  have "le_value (replicate 30 0xff) = 256 ^ 30 - 1" using le_value_replicate [of 30] by linarith
  then show "le_value field_prime_le = field_prime"
    by (simp add: field_prime_le_def field_prime_def le_value_append)
qed (simp add: field_prime_le_def)

lemma low_bits_byte: "(b :: byte) AND 0x7f = take_bit 7 b"
  by (simp add: take_bit_eq_mask mask_numeral)

lemma unat_low_bits: "unat ((b :: byte) AND 0x7f) = unat b mod 128"
  unfolding low_bits_byte unsigned_take_bit_eq by (simp add: take_bit_eq_mod)

lemma below_7f: "take_bit 7 (b :: byte) < 0x7f \<longleftrightarrow> take_bit 7 b \<noteq> 0x7f"
proof -
  have "unat (take_bit 7 b) < 128" unfolding unsigned_take_bit_eq by (simp add: take_bit_eq_mod)
  then show ?thesis by (auto simp: word_less_nat_alt word_unat_eq_iff)
qed

lemma below_ff: "(b :: byte) < 0xff \<longleftrightarrow> b \<noteq> 0xff"
  using unat_byte [of b] by (auto simp: word_less_nat_alt word_unat_eq_iff)

lemma middle_bytes:
  "length bs = Suc n \<Longrightarrow>
     le_value bs < le_value (0xed # replicate n 0xff) \<longleftrightarrow> \<not> (list_all (\<lambda>i. bs ! i = 0xff) [1..<Suc n] \<and> bs ! 0 \<ge> 0xed)"
proof (induction n arbitrary: bs)
  case 0
  then obtain b where "bs = [b]" by (cases bs) auto
  then show ?case by (simp add: word_less_nat_alt not_le word_le_nat_alt)
next
  case (Suc n)
  define front where "front = take (Suc n) bs"
  have bs: "bs = front @ [bs ! Suc n]" and l: "length front = Suc n"
    using Suc.prems take_Suc_conv_app_nth [of "Suc n" bs] by (simp_all add: front_def)
  have f: "bs ! i = front ! i" if "i < Suc n" for i using that by (simp add: front_def)
  have "le_value (front @ [bs ! Suc n]) < le_value ((0xed # replicate n 0xff) @ [0xff]) \<longleftrightarrow>
      bs ! Suc n < 0xff \<or> bs ! Suc n = 0xff \<and> le_value front < le_value (0xed # replicate n 0xff)"
    using l by (intro le_value_snoc_less) simp
  moreover have "0xed # replicate (Suc n) 0xff = (0xed # replicate n 0xff) @ [0xff :: byte]"
    by (simp add: replicate_append_same)
  moreover have "list_all (\<lambda>i. bs ! i = 0xff) [1..<Suc n] = list_all (\<lambda>i. front ! i = 0xff) [1..<Suc n]"
    using f by (auto simp: list_all_iff)
  ultimately show ?case
    using bs Suc.IH [OF l] f [of 0] by (auto simp: below_ff)
qed

lemma mod_top: "f < P \<Longrightarrow> (f + P * t) mod (P * 128) = f + P * (t mod 128)" for f P t :: nat
  by (simp add: mod_mult2_eq)

lemma le_value_top:
  assumes "length bs = 32"
  shows "le_value bs = le_value (take 31 bs) + 2 ^ 248 * unat (bs ! 31)" "le_value (take 31 bs) < 2 ^ 248"
proof -
  have bs: "bs = take 31 bs @ [bs ! 31]" using assms take_Suc_conv_app_nth [of 31 bs] by simp
  show "le_value bs = le_value (take 31 bs) + 2 ^ 248 * unat (bs ! 31)"
    by (subst bs) (simp add: le_value_append assms)
  show "le_value (take 31 bs) < 2 ^ 248" using le_value_bound [of "take 31 bs"] assms by simp
qed

lemma le_value_mask_top:
  assumes "length bs = 32"
  shows "le_value bs mod 2 ^ 255 = le_value (take 31 bs @ [(bs ! 31) AND 0x7f])"
proof -
  have "(2 :: nat) ^ 255 = 2 ^ 248 * 128" by simp
  then have "le_value bs mod 2 ^ 255 = le_value (take 31 bs) + 2 ^ 248 * (unat (bs ! 31) mod 128)"
    using mod_top [OF le_value_top(2) [OF assms]] le_value_top(1) [OF assms] by metis
  then show ?thesis using assms by (simp add: le_value_append unat_low_bits)
qed

lemma fieldElementIsUnreduced_iff:
  assumes "length bs = 32"
  shows "fieldElementIsUnreduced bs \<longleftrightarrow> field_prime \<le> le_value bs mod 2 ^ 255"
proof -
  define m where "m = (bs ! 31) AND 0x7f"
  define mid where "mid = (0xed # replicate 30 0xff :: bytes)"
  define ff where "ff = (\<lambda>i. bs ! i = 0xff)"
  have l: "length (take 31 bs) = length mid" using assms by (simp add: mid_def)
  have e: "mid @ [0x7f] = field_prime_le" by (simp add: field_prime_le_def mid_def)
  have A: "le_value bs mod 2 ^ 255 < field_prime \<longleftrightarrow> m < 0x7f \<or> m = 0x7f \<and> le_value (take 31 bs) < le_value mid"
    using le_value_snoc_less [OF l, of m "0x7f"]
    unfolding e field_prime_le_value le_value_mask_top [OF assms] m_def by simp
  have B: "le_value (take 31 bs) < le_value mid \<longleftrightarrow> \<not> (list_all ff [1..<31] \<and> bs ! 0 \<ge> 0xed)"
    using middle_bytes [of "take 31 bs" 30] assms by (simp add: list_all_iff mid_def ff_def)
  have C: "m < 0x7f \<longleftrightarrow> m \<noteq> 0x7f" by (simp only: m_def low_bits_byte below_7f)
  have D: "fieldElementIsUnreduced bs \<longleftrightarrow> m = 0x7f \<and> list_all ff [1..<31] \<and> bs ! 0 \<ge> 0xed"
    by (auto simp: fieldElementIsUnreduced_def m_def ff_def list_all_iff)
  show ?thesis unfolding D not_less [symmetric] A B C by blast
qed

lemma top_bit_byte: "(b :: byte) AND 0x80 = 0 \<longleftrightarrow> unat b < 128"
proof -
  have "(b AND 0x80 = 0) = (take_bit 7 b = b)"
  proof
    assume z: "b AND 0x80 = 0"
    show "take_bit 7 b = b"
    proof (rule bit_eqI)
      fix n assume "possible_bit TYPE(8 word) n"
      then have n: "n < 8" by simp
      have "\<not> bit (b AND 0x80) 7" using z by simp
      then have "\<not> bit b 7" by (simp add: bit_simps)
      with n show "bit (take_bit 7 b) n = bit b n" by (cases "n = 7") (auto simp: bit_simps)
    qed
  next
    assume t: "take_bit 7 b = b"
    have "bit b 7 = bit (take_bit 7 b) 7" by (simp only: t)
    then have "\<not> bit b 7" by (simp add: bit_simps)
    then show "b AND 0x80 = 0" by (simp add: and_exp_eq_0_iff_not_bit [of b 7, simplified])
  qed
  also have "\<dots> = (unat b < 128)"
  proof -
    have "unat (take_bit 7 b) = unat b mod 128" unfolding unsigned_take_bit_eq by (simp add: take_bit_eq_mod)
    then show ?thesis by (metis mod_less mod_less_divisor word_unat_eq_iff zero_less_numeral)
  qed
  finally show ?thesis .
qed

lemma top_bit_clear:
  assumes "length bs = 32"
  shows "(bs ! 31) AND 0x80 = 0 \<longleftrightarrow> le_value bs < 2 ^ 255"
proof -
  define P where "P = (2 :: nat) ^ 248"
  define f where "f = le_value (take 31 bs)"
  have v: "le_value bs = f + P * unat (bs ! 31)" "f < P" "(2 :: nat) ^ 255 = P * 128"
    using le_value_top [OF assms] by (simp_all add: P_def f_def)
  have "(f + P * t < P * 128) = (t < 128)" for t
  proof
    assume "f + P * t < P * 128"
    then have "P * t < P * 128" by linarith
    then show "t < 128" by simp
  next
    assume "t < 128"
    then have "P * Suc t \<le> P * 128" by (intro mult_left_mono) simp_all
    with v(2) show "f + P * t < P * 128" by (simp only: mult_Suc_right)
  qed
  then show ?thesis unfolding top_bit_byte v(1,3) by simp
qed

lemma x25519KeyIsCanonical_iff:
  "x25519KeyIsCanonical key \<longleftrightarrow> length key = 32 \<and> le_value key < field_prime"
proof (cases "length key = 32")
  case True
  have "le_value key < field_prime \<Longrightarrow> le_value key < 2 ^ 255" by (simp add: field_prime_def)
  with True show ?thesis
    by (auto simp: x25519KeyIsCanonical_def X25519_PUBLIC_KEY_BYTES_def fieldElementIsUnreduced_iff top_bit_clear)
qed (simp add: x25519KeyIsCanonical_def X25519_PUBLIC_KEY_BYTES_def)

lemma ed25519PublicKey_reduced:
  "ed25519PublicKeyIsAcceptable key \<Longrightarrow> length key = 32 \<and> le_value key mod 2 ^ 255 < field_prime"
  by (auto simp: ed25519PublicKeyIsAcceptable_def ED25519_PUBLIC_KEY_BYTES_def fieldElementIsUnreduced_iff)

text \<open>
  The coefficients of an ML-KEM key are the digits of its first 1152 bytes,
  read as one number, in base \<open>2 ^ 12\<close>.
\<close>

definition coefficient :: "bytes \<Rightarrow> nat \<Rightarrow> nat" where
  "coefficient key k = le_value key div 4096 ^ k mod 4096"

lemma three_bytes:
  "unat ((ucast b0 :: 32 word) OR push_bit 8 (ucast (b1 :: byte) AND 0x0f)) = unat (b0 :: byte) + 256 * (unat b1 mod 16)"
  "unat (drop_bit 4 (ucast b1 :: 32 word) OR push_bit 4 (ucast (b2 :: byte))) = unat b1 div 16 + 16 * unat b2"
proof -
  have join: "x OR push_bit k y = x + 2 ^ k * y" if "x < 2 ^ k" for x y k :: nat
  proof -
    have "x + push_bit k y = x OR push_bit k y"
    proof (rule disjunctive_add)
      fix n
      have "\<not> bit x n" if "k \<le> n"
        using that \<open>x < 2 ^ k\<close> by (metis bit_take_bit_iff not_le take_bit_nat_eq_self)
      then show "\<not> bit x n \<or> \<not> bit (push_bit k y) n" by (auto simp: bit_simps)
    qed
    then show ?thesis by (simp add: push_bit_eq_mult mult.commute)
  qed
  have u: "unat (ucast b :: 32 word) = unat b" for b :: byte
    using unat_byte [of b] by (simp add: unsigned_ucast_eq take_bit_eq_mod)
  have "(w :: 32 word) AND 0x0f = take_bit 4 w" for w by (simp add: take_bit_eq_mask mask_numeral)
  then have a: "unat (ucast b1 AND 0x0f :: 32 word) = unat b1 mod 16"
    unfolding \<open>\<And>w. w AND 0x0f = take_bit 4 w\<close> unsigned_take_bit_eq u by (simp add: take_bit_eq_mod)
  have push: "unat (push_bit k w) = push_bit k (unat w)" if "unat w * 2 ^ k < 2 ^ 32" for w :: "32 word" and k
    using that unfolding unsigned_push_bit_eq by (simp add: push_bit_eq_mult take_bit_nat_eq_self)
  have "unat (ucast b1 AND 0x0f :: 32 word) * 2 ^ 8 < 2 ^ 32"
    unfolding a using mod_less_divisor [of 16 "unat b1"] by simp
  from push [OF this] have p: "unat (push_bit 8 (ucast b1 AND 0x0f :: 32 word)) = push_bit 8 (unat b1 mod 16)"
    unfolding a .
  show "unat ((ucast b0 :: 32 word) OR push_bit 8 (ucast b1 AND 0x0f)) = unat b0 + 256 * (unat b1 mod 16)"
    unfolding unsigned_or_eq u p using join [of "unat b0" 8 "unat b1 mod 16"] unat_byte [of b0] by simp
  have "unat (drop_bit 4 (ucast b1 :: 32 word)) = unat b1 div 16"
    using unat_byte [of b1] unfolding unsigned_drop_bit_eq u by (simp add: drop_bit_eq_div take_bit_nat_eq_self)
  then show "unat (drop_bit 4 (ucast b1 :: 32 word) OR push_bit 4 (ucast b2)) = unat b1 div 16 + 16 * unat b2"
    using join [of "unat b1 div 16" 4 "unat b2"] unat_byte [of b1] unat_byte [of b2] push [of "ucast b2" 4]
    unfolding unsigned_or_eq by (simp add: u less_mult_imp_div_less)
qed

lemma coefficients_three:
  fixes low high v :: nat
  assumes "low < 4096" "high < 4096"
  shows "(\<forall>k < Suc (Suc n). (low + 4096 * high + 4096 ^ 2 * v) div 4096 ^ k mod 4096 < 3329) \<longleftrightarrow>
     low < 3329 \<and> high < 3329 \<and> (\<forall>k < n. v div 4096 ^ k mod 4096 < 3329)"
proof -
  define w where "w = low + 4096 * high + 4096 ^ 2 * v"
  have w: "w = low + 4096 * (high + 4096 * v)" by (simp add: w_def)
  have 0: "w div 4096 ^ 0 mod 4096 = low" unfolding w using assms(1) by (simp only: power_0 div_by_1 mod_mult_self2 mod_less)
  have d: "w div 4096 = high + 4096 * v" unfolding w using assms(1) by simp
  have 1: "w div 4096 ^ 1 mod 4096 = high" using assms by (simp add: d)
  have "w div 4096 ^ Suc (Suc k) = v div 4096 ^ k" for k
  proof -
    have "w div 4096 ^ Suc (Suc k) = w div 4096 div 4096 div 4096 ^ k"
      by (simp only: power_Suc div_mult2_eq)
    also have "w div 4096 div 4096 = v" unfolding d using assms by simp
    finally show ?thesis .
  qed
  then show ?thesis
    unfolding w_def [symmetric] All_less_Suc2 using 0 1 by simp
qed

lemma coefficients_below_q_iff:
  "coefficients_below_q bs \<longleftrightarrow> (\<forall>k < 2 * n. coefficient bs k < 3329)" if "length bs = 3 * n"
  using that
proof (induction bs arbitrary: n rule: coefficients_below_q.induct)
  case (1 b0 b1 b2 rest)
  then obtain m where m: "n = Suc m" "length rest = 3 * m" by (cases n) auto
  define low high where "low = unat b0 + 256 * (unat b1 mod 16)" and "high = unat b1 div 16 + 16 * unat b2"
  have "unat b1 mod 16 < 16" by simp
  then have lh: "low < 4096" "high < 4096"
    using unat_byte [of b0] unat_byte [of b1] unat_byte [of b2] by (auto simp: low_def high_def less_mult_imp_div_less)
  have v: "le_value (b0 # b1 # b2 # rest) = low + 4096 * high + 4096 ^ 2 * le_value rest"
  proof -
    define x y where "x = unat b1 mod 16" and "y = unat b1 div 16"
    have "unat b1 = x + 16 * y" by (simp add: x_def y_def)
    moreover have "low = unat b0 + 256 * x" "high = y + 16 * unat b2"
      by (simp_all add: low_def high_def x_def y_def)
    ultimately show ?thesis by simp
  qed
  have "coefficients_below_q (b0 # b1 # b2 # rest) \<longleftrightarrow> low < 3329 \<and> high < 3329 \<and> coefficients_below_q rest"
    unfolding coefficients_below_q.simps(1) Let_def word_le_nat_alt three_bytes low_def high_def by auto
  also have "\<dots> \<longleftrightarrow> low < 3329 \<and> high < 3329 \<and> (\<forall>k < 2 * m. coefficient rest k < 3329)"
  proof (cases "low < 3329 \<and> high < 3329")
    case True
    have "coefficients_below_q rest \<longleftrightarrow> (\<forall>k < 2 * m. coefficient rest k < 3329)"
      by (rule "1.IH" [OF refl refl]) (use True m(2) in \<open>simp_all only: word_le_nat_alt three_bytes low_def high_def, auto\<close>)
    then show ?thesis by simp
  qed auto
  also have "\<dots> \<longleftrightarrow> (\<forall>k < Suc (Suc (2 * m)). coefficient (b0 # b1 # b2 # rest) k < 3329)"
    unfolding coefficient_def v coefficients_three [OF lh] ..
  finally show ?case by (simp add: m(1))
next
  case "2_3"
  then have "2 = 3 * n" by simp
  then show ?case by presburger
qed simp_all

lemma mlKem768_wellFormed_iff:
  "mlKem768EncapsulationKeyIsWellFormed key \<longleftrightarrow>
     length key = 1184 \<and> (\<forall>k < 768. coefficient (take 1152 key) k < 3329)"
  using coefficients_below_q_iff [of "take 1152 key" 384]
  by (auto simp: mlKem768EncapsulationKeyIsWellFormed_def MLKEM768_PUBLIC_KEY_BYTES_def)

end
