(* ===== verification/Padding.thy ===== *)
theory Padding
  imports Byte_Codec
begin

text \<open>
  Length padding (\<^verbatim>\<open>packages/blackout-protocol/src/deaddrop/crypto/padding.ts\<close>):
  a plaintext is followed by one 0x80 byte and zero bytes up to the next
  multiple of 256 or up to one of six bucket sizes. The random bytes the
  buffer starts with are an argument.
\<close>

datatype PaddingStrategy = Pad_minimal | Pad_bucket

datatype padding_error =
    Exceeds_largest_bucket
  | Bucket_too_small
  | Invalid_padding

definition BUCKETS :: "nat list" where
  "BUCKETS = [1024, 16 * 1024, 256 * 1024, 1024 * 1024, 16 * 1024 * 1024, 128 * 1024 * 1024]"

definition ABSOLUTE_MAX :: nat where
  "ABSOLUTE_MAX = BUCKETS ! (length BUCKETS - 1)"

definition selectBucket :: "nat \<Rightarrow> padding_error + nat" where
  "selectBucket n =
     (case find (\<lambda>bucket. n + 16 \<le> bucket) BUCKETS of
        Some bucket \<Rightarrow> Inr bucket
      | None \<Rightarrow> Inl Exceeds_largest_bucket)"

definition minimalPaddedLength :: "nat \<Rightarrow> nat" where
  "minimalPaddedLength n = (let total = n + 1 in (total + 255) div 256 * 256)"

text \<open>\<^verbatim>\<open>padded.set(plaintext, 0)\<close>, the marker, and the loop that clears the rest.\<close>

definition set_at_start :: "bytes \<Rightarrow> bytes \<Rightarrow> bytes" where
  "set_at_start plain buffer = plain @ drop (length plain) buffer"

fun clear_from :: "nat \<Rightarrow> nat \<Rightarrow> bytes \<Rightarrow> bytes" where
  "clear_from 0 i buffer = buffer"
| "clear_from (Suc k) i buffer = clear_from k (i + 1) (buffer[i := 0])"

definition pad :: "(nat \<Rightarrow> bytes) \<Rightarrow> bytes \<Rightarrow> PaddingStrategy \<Rightarrow> padding_error + bytes \<times> nat" where
  "pad randomBytes plain strategy =
     (case (case strategy of
              Pad_bucket \<Rightarrow> selectBucket (length plain)
            | Pad_minimal \<Rightarrow> Inr (minimalPaddedLength (length plain))) of
        Inl e \<Rightarrow> Inl e
      | Inr target \<Rightarrow>
          if target < length plain + 1 then Inl Bucket_too_small
          else let padded = set_at_start plain (randomBytes target);
                   padded = padded[length plain := 0x80];
                   padded = clear_from (target - (length plain + 1)) (length plain + 1) padded
               in Inr (padded, target))"

text \<open>The scan of \<open>unpad\<close> from the end, on the reversed bytes.\<close>

definition unpad :: "bytes \<Rightarrow> padding_error + bytes" where
  "unpad padded =
     (case dropWhile (\<lambda>b. b = 0) (rev padded) of
        [] \<Rightarrow> Inl Invalid_padding
      | b # front \<Rightarrow> if b \<noteq> 0x80 then Inl Invalid_padding else Inr (rev front))"

definition isBucketSize :: "nat \<Rightarrow> bool" where
  "isBucketSize n \<longleftrightarrow> n \<in> set BUCKETS"

section \<open>Lemmas\<close>

lemma selectBucket_Inr:
  "selectBucket n = Inr b \<Longrightarrow> b \<in> set BUCKETS \<and> n + 16 \<le> b \<and> (\<forall>b' \<in> set BUCKETS. n + 16 \<le> b' \<longrightarrow> b \<le> b')"
  by (auto simp: selectBucket_def BUCKETS_def split: if_splits option.splits)

lemma selectBucket_total: "n + 16 \<le> ABSOLUTE_MAX \<longleftrightarrow> (\<exists>b. selectBucket n = Inr b)"
  by (auto simp: selectBucket_def BUCKETS_def ABSOLUTE_MAX_def)

lemma minimalPaddedLength_fits: "n + 1 \<le> minimalPaddedLength n" "minimalPaddedLength n < n + 257"
  "256 dvd minimalPaddedLength n"
  by (simp_all add: minimalPaddedLength_def)

lemma length_clear_from [simp]: "length (clear_from k i buffer) = length buffer"
  by (induction k i buffer rule: clear_from.induct) simp_all

lemma clear_from_append:
  "length buffer = k \<Longrightarrow> clear_from k (length front) (front @ buffer) = front @ replicate k 0"
proof (induction k arbitrary: front buffer)
  case (Suc k)
  then obtain b rest where b: "buffer = b # rest" by (cases buffer) auto
  have "clear_from k (length (front @ [0])) ((front @ [0]) @ rest) = (front @ [0]) @ replicate k 0"
    using Suc.prems by (intro Suc.IH) (simp add: b)
  then show ?case by (simp add: b)
qed simp

lemma pad_Inr:
  assumes "pad rb plain strategy = Inr (padded, target)" "\<And>n. length (rb n) = n"
  shows "padded = plain @ [0x80] @ replicate (target - (length plain + 1)) 0" "length plain < target"
    "case strategy of Pad_bucket \<Rightarrow> selectBucket (length plain) = Inr target
     | Pad_minimal \<Rightarrow> target = minimalPaddedLength (length plain)"
proof -
  from assms(1) show t: "length plain < target"
    by (auto simp: pad_def Let_def split: PaddingStrategy.splits sum.splits if_splits)
  show "case strategy of Pad_bucket \<Rightarrow> selectBucket (length plain) = Inr target
     | Pad_minimal \<Rightarrow> target = minimalPaddedLength (length plain)"
    using assms(1) by (auto simp: pad_def Let_def split: PaddingStrategy.splits sum.splits if_splits)
  define tail where "tail = drop (length plain + 1) (rb target)"
  have l: "length tail = target - (length plain + 1)" by (simp add: tail_def assms(2))
  have "drop (length plain) (rb target) = (rb target ! length plain) # tail"
    using t by (simp add: tail_def Cons_nth_drop_Suc assms(2))
  then have "(set_at_start plain (rb target))[length plain := 0x80] = (plain @ [0x80]) @ tail"
    by (simp add: set_at_start_def)
  then have "padded = clear_from (target - (length plain + 1)) (length (plain @ [0x80])) ((plain @ [0x80]) @ tail)"
    using assms(1) by (auto simp: pad_def Let_def split: PaddingStrategy.splits sum.splits if_splits)
  then show "padded = plain @ [0x80] @ replicate (target - (length plain + 1)) 0"
    using clear_from_append [OF l, of "plain @ [0x80]"] by simp
qed

lemma unpad_marker: "unpad (plain @ [0x80] @ replicate k 0) = Inr plain"
proof -
  have "dropWhile (\<lambda>b. b = 0) (replicate k 0 @ ys) = dropWhile (\<lambda>b. b = 0) ys" for ys :: bytes
    by (induction k) simp_all
  then show ?thesis by (simp add: unpad_def)
qed

lemma unpad_pad:
  "pad rb plain strategy = Inr (padded, target) \<Longrightarrow> (\<And>n. length (rb n) = n) \<Longrightarrow> unpad padded = Inr plain"
  using pad_Inr(1) [of rb plain strategy padded target] unpad_marker [of plain "target - (length plain + 1)"] by simp

text \<open>The converse: what \<open>unpad\<close> accepts is a padded form of what it returns.\<close>

lemma unpad_Inr:
  assumes "unpad padded = Inr plain"
  shows "padded = plain @ [0x80] @ replicate (length padded - (length plain + 1)) 0"
proof -
  define z where "z = takeWhile (\<lambda>b. b = 0) (rev padded)"
  from assms have d: "dropWhile (\<lambda>b. b = 0) (rev padded) = 0x80 # rev plain"
    by (auto simp: unpad_def split: list.splits if_splits)
  have z: "rev z = replicate (length z) 0"
    unfolding z_def by (metis (full_types) replicate_eqI rev_replicate set_takeWhileD)
  have "rev padded = z @ 0x80 # rev plain"
    unfolding z_def d [symmetric] by simp
  then have p: "padded = rev (z @ 0x80 # rev plain)" by (metis rev_rev_ident)
  have "length padded - (length plain + 1) = length z" unfolding p by simp
  then show ?thesis using p z by simp
qed

lemma pad_length:
  assumes "pad rb plain strategy = Inr (padded, target)" "\<And>n. length (rb n) = n"
  shows "length padded = target"
  using pad_Inr(1) [OF assms] pad_Inr(2) [OF assms] by simp

end
