(* ===== verification/Release_Crypto.thy ===== *)
theory Release_Crypto
  imports Utf8 Key_Forms Padding
begin

text \<open>
  What the release formats take from outside the repository: WebCrypto and the
  ML-KEM provider of \<^verbatim>\<open>@noble/post-quantum\<close>, as a record of functions that
  every definition above them takes as an argument. A call that may throw is a
  sum whose left side tells a missing algorithm (\<^verbatim>\<open>NotSupportedError\<close>)
  from any other refusal. Randomness is an argument: a \<open>seed\<close> stands for what a
  generator draws, and a list of bytes for what \<^verbatim>\<open>randomBytes\<close> returned.
  A \<^verbatim>\<open>CryptoKey\<close> is an opaque handle. The documented behaviour that
  the theorems rely on is stated as predicates on the record in \<open>Hybrid_Seal\<close>.
\<close>

type_synonym seed = nat
type_synonym CryptoKey = bytes

datatype crypto_error = Not_supported | Operation_failed

record JsonWebKey =
  jk_kty :: string
  jk_crv :: string
  jk_d :: string
  jk_x :: string

text \<open>The interface \<^verbatim>\<open>KemProvider\<close> of \<^verbatim>\<open>deaddrop/crypto/pqHybrid.ts\<close>.\<close>

record KemProvider =
  kp_publicKeyLength :: nat
  kp_secretKeyLength :: nat
  kp_ciphertextLength :: nat
  kp_sharedSecretLength :: nat
  kp_generateKeyPair :: "seed \<Rightarrow> crypto_error + bytes \<times> bytes"
  kp_encapsulate :: "bytes \<Rightarrow> seed \<Rightarrow> crypto_error + bytes \<times> bytes"
  kp_decapsulate :: "bytes \<Rightarrow> bytes \<Rightarrow> crypto_error + bytes"

record Crypto =
  cr_sha256 :: "bytes \<Rightarrow> bytes"
  cr_sha512 :: "bytes \<Rightarrow> bytes"
  cr_hkdf :: "bytes \<Rightarrow> bytes \<Rightarrow> bytes \<Rightarrow> nat \<Rightarrow> crypto_error + bytes"
  cr_aesEncrypt :: "bytes \<Rightarrow> bytes \<Rightarrow> bytes \<Rightarrow> bytes \<Rightarrow> crypto_error + bytes"
  cr_aesDecrypt :: "bytes \<Rightarrow> bytes \<Rightarrow> bytes \<Rightarrow> bytes \<Rightarrow> crypto_error + bytes"
  cr_x25519Generate :: "seed \<Rightarrow> crypto_error + CryptoKey \<times> bytes"
  cr_x25519Import :: "bytes \<Rightarrow> crypto_error + CryptoKey"
  cr_x25519ImportJwk :: "JsonWebKey \<Rightarrow> crypto_error + CryptoKey"
  cr_x25519Derive :: "CryptoKey \<Rightarrow> CryptoKey \<Rightarrow> crypto_error + bytes"
  cr_ed25519Import :: "bytes \<Rightarrow> crypto_error + CryptoKey"
  cr_ed25519ImportJwk :: "JsonWebKey \<Rightarrow> crypto_error + CryptoKey"
  cr_ed25519Sign :: "CryptoKey \<Rightarrow> bytes \<Rightarrow> crypto_error + bytes"
  cr_ed25519Verify :: "CryptoKey \<Rightarrow> bytes \<Rightarrow> bytes \<Rightarrow> crypto_error + bool"
  cr_kem :: KemProvider

section \<open>Thrown errors\<close>

datatype ReleaseEnvelopeErrorCode =
    Err_owner_key_set
  | Err_recipient_identity
  | Err_recipients
  | Err_message
  | Err_owner_key_changed
  | Err_own_copy
  | Err_release_mismatch
  | Err_kem_provider

text \<open>A plain \<^verbatim>\<open>Error\<close> is \<open>Fault_form\<close>; the others carry what callers look at.\<close>

datatype fault =
    Fault_form
  | Fault_codec codec_error
  | Fault_padding padding_error
  | Fault_crypto crypto_error
  | Fault_zero_shared_secret
  | Fault_release ReleaseEnvelopeErrorCode

fun and_then :: "'e + 'a \<Rightarrow> ('a \<Rightarrow> 'e + 'b) \<Rightarrow> 'e + 'b" where
  "and_then (Inl e) f = Inl e"
| "and_then (Inr a) f = f a"

fun thrown :: "('c \<Rightarrow> 'e) \<Rightarrow> 'c + 'a \<Rightarrow> 'e + 'a" where
  "thrown g (Inl e) = Inl (g e)"
| "thrown g (Inr a) = Inr a"

lemma and_then_Inr [simp]: "and_then m f = Inr b \<longleftrightarrow> (\<exists>a. m = Inr a \<and> f a = Inr b)"
  by (cases m) auto

lemma and_then_Inl: "and_then m f = Inl e \<longleftrightarrow> m = Inl e \<or> (\<exists>a. m = Inr a \<and> f a = Inl e)"
  by (cases m) auto

lemma thrown_Inr [simp]: "thrown g m = Inr b \<longleftrightarrow> m = Inr b"
  by (cases m) auto

end
