(* ===== verification/Release_Identity.thy ===== *)
theory Release_Identity
  imports Release_Crypto
begin

text \<open>
  Release identities (\<^verbatim>\<open>packages/blackout-protocol/src/release/identity.ts\<close>):
  the public keys of an account, the bytes their signature covers, the
  fingerprint, and the check of an identity received from anywhere. The input
  of the check is any JavaScript value; an object is the list of its own
  properties.
\<close>

section \<open>Objects and identifiers\<close>

definition js_field :: "(string \<times> js_value) list \<Rightarrow> string \<Rightarrow> js_value" where
  "js_field kvs f = (case map_of kvs f of Some v \<Rightarrow> v | None \<Rightarrow> JUndefined)"

definition hasExactly :: "(string \<times> js_value) list \<Rightarrow> string list \<Rightarrow> bool" where
  "hasExactly kvs names \<longleftrightarrow>
     length kvs = length names \<and> list_all (\<lambda>f. f \<in> set (map fst kvs)) names"

text \<open>A value whose type was checked to be a string.\<close>

definition as_string :: "js_value \<Rightarrow> string" where
  "as_string v = (case v of JString s \<Rightarrow> s | _ \<Rightarrow> [])"

definition RELEASE_IDENTITY_VERSION :: int where
  "RELEASE_IDENTITY_VERSION = 1"

definition RELEASE_IDENTITY_LABEL :: string where
  "RELEASE_IDENTITY_LABEL = ''blackout-release-identity-v1''"

text \<open>\<^verbatim>\<open>RELEASE_ACCOUNT_ID_PATTERN\<close>: one letter or digit, then at most 127 of a few more.\<close>

definition account_id_char :: "char \<Rightarrow> bool" where
  "account_id_char c \<longleftrightarrow> is_alnum c \<or> c = CHR ''.'' \<or> c = CHR ''_'' \<or> c = CHR ''-''"

definition RELEASE_ACCOUNT_ID_PATTERN :: "string \<Rightarrow> bool" where
  "RELEASE_ACCOUNT_ID_PATTERN s =
     (case s of
        [] \<Rightarrow> False
      | c # cs \<Rightarrow> is_alnum c \<and> length cs \<le> 127 \<and> list_all account_id_char cs)"

record ReleaseIdentity =
  ri_v :: int
  ri_accountId :: string
  ri_signingKey :: string
  ri_x25519Key :: string
  ri_mlkem768Key :: string
  ri_signature :: string

datatype ReleaseIdentityProblem =
    Id_shape
  | Id_version
  | Id_account_id
  | Id_account_mismatch
  | Id_signing_key
  | Id_x25519_key
  | Id_mlkem768_key
  | Id_signature
  | Id_unsupported

datatype ReleaseIdentityCheck =
    Identity_ok ReleaseIdentity string
  | Identity_refused ReleaseIdentityProblem

definition IDENTITY_FIELDS :: "string list" where
  "IDENTITY_FIELDS = [''v'', ''accountId'', ''signingKey'', ''x25519Key'', ''mlkem768Key'', ''signature'']"

text \<open>The object that \<^verbatim>\<open>publicReleaseIdentity\<close> builds.\<close>

definition publicReleaseIdentity :: "ReleaseIdentity \<Rightarrow> js_value" where
  "publicReleaseIdentity identity =
     JObject [(''v'', JNumber (Fin (of_int (ri_v identity)))),
              (''accountId'', JString (ri_accountId identity)),
              (''signingKey'', JString (ri_signingKey identity)),
              (''x25519Key'', JString (ri_x25519Key identity)),
              (''mlkem768Key'', JString (ri_mlkem768Key identity)),
              (''signature'', JString (ri_signature identity))]"

section \<open>Signed bytes and fingerprint\<close>

record ReleaseIdentityKeyBytes =
  kb_accountId :: string
  kb_signingKey :: bytes
  kb_x25519Key :: bytes
  kb_mlkem768Key :: bytes

definition releaseIdentitySignedBytes :: "ReleaseIdentityKeyBytes \<Rightarrow> fault + bytes" where
  "releaseIdentitySignedBytes keys =
     (if \<not> RELEASE_ACCOUNT_ID_PATTERN (kb_accountId keys) then Inl Fault_form
      else if length (kb_signingKey keys) \<noteq> ED25519_PUBLIC_KEY_BYTES \<or>
              length (kb_x25519Key keys) \<noteq> X25519_PUBLIC_KEY_BYTES \<or>
              length (kb_mlkem768Key keys) \<noteq> MLKEM768_PUBLIC_KEY_BYTES then Inl Fault_form
      else and_then (thrown Fault_codec (lengthPrefixed (utf8Encode (units (kb_accountId keys))))) (\<lambda>account.
           Inr (concatBytes [labelBytes RELEASE_IDENTITY_LABEL, account, kb_signingKey keys,
                             kb_x25519Key keys, kb_mlkem768Key keys])))"

definition releaseIdentityFingerprint :: "Crypto \<Rightarrow> bytes \<Rightarrow> string" where
  "releaseIdentityFingerprint cr signedBytes = toHex (cr_sha256 cr signedBytes)"

fun formatReleaseFingerprint :: "string \<Rightarrow> string" where
  "formatReleaseFingerprint (a # b # c # d # e # rest) = [a, b, c, d] @ '' '' @ formatReleaseFingerprint (e # rest)"
| "formatReleaseFingerprint s = s"

section \<open>The check\<close>

datatype KeyContribution = Contributes | No_contribution | Contribution_unsupported

definition importRecipientPublicKey :: "Crypto \<Rightarrow> string \<Rightarrow> fault + CryptoKey" where
  "importRecipientPublicKey cr publicKeyBase64 =
     and_then (thrown Fault_codec (fromBase64 publicKeyBase64)) (\<lambda>raw.
       if length raw \<noteq> 32 then Inl Fault_form else thrown Fault_crypto (cr_x25519Import cr raw))"

definition x25519KeyContributes :: "Crypto \<Rightarrow> seed \<Rightarrow> bytes \<Rightarrow> KeyContribution" where
  "x25519KeyContributes cr seed key =
     (if \<not> x25519KeyIsCanonical key then No_contribution
      else case and_then (importRecipientPublicKey cr (toBase64 key)) (\<lambda>peer.
                and_then (thrown Fault_crypto (cr_x25519Generate cr seed)) (\<lambda>(privateKey, _).
                thrown Fault_crypto (cr_x25519Derive cr privateKey peer))) of
             Inr shared \<Rightarrow> if list_ex (\<lambda>b. b \<noteq> 0) shared then Contributes else No_contribution
           | Inl cause \<Rightarrow> if cause = Fault_crypto Not_supported then Contribution_unsupported else No_contribution)"

definition ed25519_check :: "Crypto \<Rightarrow> bytes \<Rightarrow> bytes \<Rightarrow> bytes \<Rightarrow> crypto_error + bool" where
  "ed25519_check cr publicKey signature message =
     and_then (cr_ed25519Import cr publicKey) (\<lambda>key. cr_ed25519Verify cr key signature message)"

text \<open>The second half of the check, once every field has its form.\<close>

definition verify_signature ::
    "Crypto \<Rightarrow> seed \<Rightarrow> (string \<times> js_value) list \<Rightarrow> ReleaseIdentityKeyBytes \<Rightarrow> bytes \<Rightarrow> fault + ReleaseIdentityCheck" where
  "verify_signature cr seed kvs keys signature =
     (case x25519KeyContributes cr seed (kb_x25519Key keys) of
        Contribution_unsupported \<Rightarrow> Inr (Identity_refused Id_unsupported)
      | No_contribution \<Rightarrow> Inr (Identity_refused Id_x25519_key)
      | Contributes \<Rightarrow>
          and_then (releaseIdentitySignedBytes keys) (\<lambda>signedBytes.
            case ed25519_check cr (kb_signingKey keys) signature signedBytes of
              Inl cause \<Rightarrow> Inr (Identity_refused (if cause = Not_supported then Id_unsupported else Id_signing_key))
            | Inr valid \<Rightarrow>
                if \<not> valid then Inr (Identity_refused Id_signature)
                else Inr (Identity_ok
                       \<lparr>ri_v = RELEASE_IDENTITY_VERSION, ri_accountId = kb_accountId keys,
                        ri_signingKey = as_string (js_field kvs ''signingKey''),
                        ri_x25519Key = as_string (js_field kvs ''x25519Key''),
                        ri_mlkem768Key = as_string (js_field kvs ''mlkem768Key''),
                        ri_signature = as_string (js_field kvs ''signature'')\<rparr>
                       (releaseIdentityFingerprint cr signedBytes))))"

text \<open>The keys and the signature, decoded and checked one after the other.\<close>

definition identity_keys ::
    "(string \<times> js_value) list \<Rightarrow> string \<Rightarrow> ReleaseIdentityProblem + ReleaseIdentityKeyBytes \<times> bytes" where
  "identity_keys kvs accountId =
     (case decodeCanonicalBase64 (js_field kvs ''signingKey'') (Some ED25519_PUBLIC_KEY_BYTES) of
        None \<Rightarrow> Inl Id_signing_key
      | Some signingKey \<Rightarrow>
          if \<not> ed25519PublicKeyIsAcceptable signingKey then Inl Id_signing_key
          else case decodeCanonicalBase64 (js_field kvs ''x25519Key'') (Some X25519_PUBLIC_KEY_BYTES) of
            None \<Rightarrow> Inl Id_x25519_key
          | Some x25519Key \<Rightarrow>
              if \<not> x25519KeyIsCanonical x25519Key then Inl Id_x25519_key
              else case decodeCanonicalBase64 (js_field kvs ''mlkem768Key'') (Some MLKEM768_PUBLIC_KEY_BYTES) of
                None \<Rightarrow> Inl Id_mlkem768_key
              | Some mlkem768Key \<Rightarrow>
                  if \<not> mlKem768EncapsulationKeyIsWellFormed mlkem768Key then Inl Id_mlkem768_key
                  else case decodeCanonicalBase64 (js_field kvs ''signature'') (Some ED25519_SIGNATURE_BYTES) of
                    None \<Rightarrow> Inl Id_signature
                  | Some signature \<Rightarrow>
                      if \<not> ed25519SignatureIsAcceptable signature then Inl Id_signature
                      else Inr (\<lparr>kb_accountId = accountId, kb_signingKey = signingKey,
                                 kb_x25519Key = x25519Key, kb_mlkem768Key = mlkem768Key\<rparr>, signature))"

definition verifyReleaseIdentity ::
    "Crypto \<Rightarrow> seed \<Rightarrow> js_value \<Rightarrow> string option \<Rightarrow> fault + ReleaseIdentityCheck" where
  "verifyReleaseIdentity cr seed input expected =
     (case input of
        JObject kvs \<Rightarrow>
          if \<not> hasExactly kvs IDENTITY_FIELDS then Inr (Identity_refused Id_shape)
          else if js_field kvs ''v'' \<noteq> JNumber (Fin (of_int RELEASE_IDENTITY_VERSION))
          then Inr (Identity_refused Id_version)
          else (case js_field kvs ''accountId'' of
                  JString accountId \<Rightarrow>
                    if \<not> RELEASE_ACCOUNT_ID_PATTERN accountId then Inr (Identity_refused Id_account_id)
                    else if expected \<noteq> None \<and> expected \<noteq> Some accountId
                    then Inr (Identity_refused Id_account_mismatch)
                    else (case identity_keys kvs accountId of
                            Inl problem \<Rightarrow> Inr (Identity_refused problem)
                          | Inr (keys, signature) \<Rightarrow> verify_signature cr seed kvs keys signature)
                | _ \<Rightarrow> Inr (Identity_refused Id_account_id))
      | _ \<Rightarrow> Inr (Identity_refused Id_shape))"

definition signReleaseIdentity :: "Crypto \<Rightarrow> ReleaseIdentity \<Rightarrow> CryptoKey \<Rightarrow> fault + ReleaseIdentity" where
  "signReleaseIdentity cr draft signingPrivateKey =
     (case (decodeCanonicalBase64 (JString (ri_signingKey draft)) (Some ED25519_PUBLIC_KEY_BYTES),
            decodeCanonicalBase64 (JString (ri_x25519Key draft)) (Some X25519_PUBLIC_KEY_BYTES),
            decodeCanonicalBase64 (JString (ri_mlkem768Key draft)) (Some MLKEM768_PUBLIC_KEY_BYTES)) of
        (Some signingKey, Some x25519Key, Some mlkem768Key) \<Rightarrow>
          and_then (releaseIdentitySignedBytes
                      \<lparr>kb_accountId = ri_accountId draft, kb_signingKey = signingKey,
                       kb_x25519Key = x25519Key, kb_mlkem768Key = mlkem768Key\<rparr>) (\<lambda>signedBytes.
          and_then (thrown Fault_crypto (cr_ed25519Sign cr signingPrivateKey signedBytes)) (\<lambda>signature.
            Inr (draft\<lparr>ri_v := RELEASE_IDENTITY_VERSION, ri_signature := toBase64 signature\<rparr>)))
      | _ \<Rightarrow> Inl Fault_form)"

section \<open>Lemmas\<close>

lemma account_id_ascii:
  assumes "RELEASE_ACCOUNT_ID_PATTERN s"
  shows "ascii s" "s \<noteq> []" "length s \<le> 128"
proof -
  have "list_all account_id_char s" "s \<noteq> []" "length s \<le> 128"
    using assms by (auto simp: RELEASE_ACCOUNT_ID_PATTERN_def account_id_char_def split: list.splits)
  moreover have "account_id_char c \<Longrightarrow> (of_char c :: nat) < 128" for c
    by (auto simp: account_id_char_def is_alnum_def is_lower_def is_upper_def is_digit_def)
  ultimately show "ascii s" "s \<noteq> []" "length s \<le> 128" by (auto simp: ascii_def list_all_iff)
qed

lemma lengthPrefixed_account:
  "RELEASE_ACCOUNT_ID_PATTERN s \<Longrightarrow> \<exists>p. lengthPrefixed (utf8Encode (units s)) = Inr p"
  using lengthPrefixed_total [of "utf8Encode (units s)"] account_id_ascii [of s] length_utf8_ascii [of s] by simp

lemma releaseIdentitySignedBytes_total:
  "RELEASE_ACCOUNT_ID_PATTERN (kb_accountId k) \<Longrightarrow> length (kb_signingKey k) = 32 \<Longrightarrow> length (kb_x25519Key k) = 32 \<Longrightarrow>
     length (kb_mlkem768Key k) = 1184 \<Longrightarrow> \<exists>b. releaseIdentitySignedBytes k = Inr b"
  using lengthPrefixed_account [of "kb_accountId k"]
  by (auto simp: releaseIdentitySignedBytes_def key_lengths)

lemma label_identity: "label_text RELEASE_IDENTITY_LABEL"
  by (simp add: label_text_def ascii_def RELEASE_IDENTITY_LABEL_def)

text \<open>The signed bytes determine the account and the three keys.\<close>

lemma releaseIdentitySignedBytes_inject:
  assumes "releaseIdentitySignedBytes a = Inr x" "releaseIdentitySignedBytes b = Inr x"
  shows "a = b"
proof -
  obtain pa where pa: "RELEASE_ACCOUNT_ID_PATTERN (kb_accountId a)" "lengthPrefixed (utf8Encode (units (kb_accountId a))) = Inr pa"
      "length (kb_signingKey a) = 32" "length (kb_x25519Key a) = 32" "length (kb_mlkem768Key a) = 1184"
      "x = labelBytes RELEASE_IDENTITY_LABEL @ pa @ kb_signingKey a @ kb_x25519Key a @ kb_mlkem768Key a"
    using assms(1) by (auto simp: releaseIdentitySignedBytes_def key_lengths concatBytes_def split: if_splits)
  obtain pb where pb: "RELEASE_ACCOUNT_ID_PATTERN (kb_accountId b)" "lengthPrefixed (utf8Encode (units (kb_accountId b))) = Inr pb"
      "length (kb_signingKey b) = 32" "length (kb_x25519Key b) = 32" "length (kb_mlkem768Key b) = 1184"
      "x = labelBytes RELEASE_IDENTITY_LABEL @ pb @ kb_signingKey b @ kb_x25519Key b @ kb_mlkem768Key b"
    using assms(2) by (auto simp: releaseIdentitySignedBytes_def key_lengths concatBytes_def split: if_splits)
  from pa(6) pb(6) have e: "pa @ (kb_signingKey a @ kb_x25519Key a @ kb_mlkem768Key a) =
      pb @ (kb_signingKey b @ kb_x25519Key b @ kb_mlkem768Key b)" by simp
  from lengthPrefixed_inject [OF pa(2) pb(2) e]
  have "kb_accountId a = kb_accountId b"
    and "kb_signingKey a @ kb_x25519Key a @ kb_mlkem768Key a = kb_signingKey b @ kb_x25519Key b @ kb_mlkem768Key b"
    using utf8Encode_ascii_inject [OF account_id_ascii(1) [OF pa(1)] account_id_ascii(1) [OF pb(1)]] by simp_all
  then show ?thesis using pa(3,4) pb(3,4) by (cases a; cases b) simp
qed

section \<open>What an accepted identity is\<close>

text \<open>
  The specification of the check: an identity is sound when each field is the
  encoding of a key or signature of the accepted form and the signature
  verifies, under the identity's own signing key, over its signed bytes.
\<close>

definition key_bytes_of :: "ReleaseIdentity \<Rightarrow> ReleaseIdentityKeyBytes \<Rightarrow> bool" where
  "key_bytes_of i k \<longleftrightarrow>
     kb_accountId k = ri_accountId i \<and> RELEASE_ACCOUNT_ID_PATTERN (ri_accountId i) \<and>
     ri_signingKey i = toBase64 (kb_signingKey k) \<and> ed25519PublicKeyIsAcceptable (kb_signingKey k) \<and>
     ri_x25519Key i = toBase64 (kb_x25519Key k) \<and> x25519KeyIsCanonical (kb_x25519Key k) \<and>
     ri_mlkem768Key i = toBase64 (kb_mlkem768Key k) \<and> mlKem768EncapsulationKeyIsWellFormed (kb_mlkem768Key k)"

definition identity_sound ::
    "Crypto \<Rightarrow> seed \<Rightarrow> ReleaseIdentity \<Rightarrow> ReleaseIdentityKeyBytes \<Rightarrow> string \<Rightarrow> bool" where
  "identity_sound cr seed i k fingerprint \<longleftrightarrow>
     ri_v i = RELEASE_IDENTITY_VERSION \<and> key_bytes_of i k \<and>
     x25519KeyContributes cr seed (kb_x25519Key k) = Contributes \<and>
     (\<exists>signature signedBytes.
        ri_signature i = toBase64 signature \<and> ed25519SignatureIsAcceptable signature \<and>
        releaseIdentitySignedBytes k = Inr signedBytes \<and>
        ed25519_check cr (kb_signingKey k) signature signedBytes = Inr True \<and>
        fingerprint = releaseIdentityFingerprint cr signedBytes)"

text \<open>An object with exactly the fields of the identity, in any order.\<close>

definition carries :: "js_value \<Rightarrow> ReleaseIdentity \<Rightarrow> bool" where
  "carries v i \<longleftrightarrow> (\<exists>kvs. v = JObject kvs \<and> hasExactly kvs IDENTITY_FIELDS \<and>
     js_field kvs ''v'' = JNumber (Fin (of_int (ri_v i))) \<and> js_field kvs ''accountId'' = JString (ri_accountId i) \<and>
     js_field kvs ''signingKey'' = JString (ri_signingKey i) \<and> js_field kvs ''x25519Key'' = JString (ri_x25519Key i) \<and>
     js_field kvs ''mlkem768Key'' = JString (ri_mlkem768Key i) \<and> js_field kvs ''signature'' = JString (ri_signature i))"

lemma as_string [simp]: "as_string (JString s) = s"
  by (simp add: as_string_def)

lemma key_form_lengths:
  "ed25519PublicKeyIsAcceptable a \<Longrightarrow> length a = 32" "x25519KeyIsCanonical b \<Longrightarrow> length b = 32"
  "mlKem768EncapsulationKeyIsWellFormed c \<Longrightarrow> length c = 1184" "ed25519SignatureIsAcceptable d \<Longrightarrow> length d = 64"
  by (simp_all add: ed25519PublicKeyIsAcceptable_def x25519KeyIsCanonical_def ed25519SignatureIsAcceptable_def
      mlKem768EncapsulationKeyIsWellFormed_def key_lengths split: if_splits)

lemma canonical_32: "decodeCanonicalBase64 v (Some n) = Some bs \<longleftrightarrow> v = JString (toBase64 bs) \<and> bs \<noteq> [] \<and> length bs = n"
  by (simp add: decodeCanonicalBase64_iff)

lemma identity_keys_ok:
  "identity_keys kvs accountId = Inr (k, signature) \<longleftrightarrow>
     kb_accountId k = accountId \<and>
     js_field kvs ''signingKey'' = JString (toBase64 (kb_signingKey k)) \<and> ed25519PublicKeyIsAcceptable (kb_signingKey k) \<and>
     js_field kvs ''x25519Key'' = JString (toBase64 (kb_x25519Key k)) \<and> x25519KeyIsCanonical (kb_x25519Key k) \<and>
     js_field kvs ''mlkem768Key'' = JString (toBase64 (kb_mlkem768Key k)) \<and>
     mlKem768EncapsulationKeyIsWellFormed (kb_mlkem768Key k) \<and>
     js_field kvs ''signature'' = JString (toBase64 signature) \<and> ed25519SignatureIsAcceptable signature"
  (is "?L \<longleftrightarrow> ?R")
proof
  assume ?L
  then show ?R
    by (auto simp: identity_keys_def canonical_32 split: option.splits if_splits)
next
  assume R: ?R
  note l = key_form_lengths(1) [of "kb_signingKey k"] key_form_lengths(2) [of "kb_x25519Key k"]
    key_form_lengths(3) [of "kb_mlkem768Key k"] key_form_lengths(4) [of signature]
  have "decodeCanonicalBase64 (js_field kvs ''signingKey'') (Some ED25519_PUBLIC_KEY_BYTES) = Some (kb_signingKey k)"
    "decodeCanonicalBase64 (js_field kvs ''x25519Key'') (Some X25519_PUBLIC_KEY_BYTES) = Some (kb_x25519Key k)"
    "decodeCanonicalBase64 (js_field kvs ''mlkem768Key'') (Some MLKEM768_PUBLIC_KEY_BYTES) = Some (kb_mlkem768Key k)"
    "decodeCanonicalBase64 (js_field kvs ''signature'') (Some ED25519_SIGNATURE_BYTES) = Some signature"
    using R l by (auto simp: canonical_32 key_lengths)
  with R show ?L by (simp add: identity_keys_def)
qed

lemma verify_signature_ok:
  "verify_signature cr seed kvs k signature = Inr (Identity_ok i fp) \<longleftrightarrow>
     x25519KeyContributes cr seed (kb_x25519Key k) = Contributes \<and>
     (\<exists>signedBytes. releaseIdentitySignedBytes k = Inr signedBytes \<and>
        ed25519_check cr (kb_signingKey k) signature signedBytes = Inr True \<and>
        fp = releaseIdentityFingerprint cr signedBytes) \<and>
     i = \<lparr>ri_v = RELEASE_IDENTITY_VERSION, ri_accountId = kb_accountId k,
          ri_signingKey = as_string (js_field kvs ''signingKey''), ri_x25519Key = as_string (js_field kvs ''x25519Key''),
          ri_mlkem768Key = as_string (js_field kvs ''mlkem768Key''), ri_signature = as_string (js_field kvs ''signature'')\<rparr>"
proof (cases "x25519KeyContributes cr seed (kb_x25519Key k)")
  case Contributes
  show ?thesis
  proof (cases "releaseIdentitySignedBytes k")
    case (Inr signedBytes)
    show ?thesis
      by (cases "ed25519_check cr (kb_signingKey k) signature signedBytes")
        (auto simp: verify_signature_def Contributes Inr)
  qed (simp add: verify_signature_def Contributes)
qed (simp_all add: verify_signature_def)

lemma verifyReleaseIdentity_stages:
  "verifyReleaseIdentity cr seed v expected = Inr (Identity_ok i fp) \<longleftrightarrow>
     (\<exists>kvs accountId k signature. v = JObject kvs \<and> hasExactly kvs IDENTITY_FIELDS \<and>
        js_field kvs ''v'' = JNumber (Fin (of_int RELEASE_IDENTITY_VERSION)) \<and>
        js_field kvs ''accountId'' = JString accountId \<and> RELEASE_ACCOUNT_ID_PATTERN accountId \<and>
        (expected = None \<or> expected = Some accountId) \<and> identity_keys kvs accountId = Inr (k, signature) \<and>
        verify_signature cr seed kvs k signature = Inr (Identity_ok i fp))"
proof (cases v)
  case (JObject kvs)
  show ?thesis
  proof (cases "js_field kvs ''accountId''")
    case (JString a)
    show ?thesis
      by (cases "identity_keys kvs a") (auto simp: verifyReleaseIdentity_def JObject JString)
  qed (simp_all add: verifyReleaseIdentity_def JObject)
qed (simp_all add: verifyReleaseIdentity_def)

lemma verifyReleaseIdentity_iff:
  "verifyReleaseIdentity cr seed v expected = Inr (Identity_ok i fp) \<longleftrightarrow>
     carries v i \<and> (\<exists>k. identity_sound cr seed i k fp) \<and> (expected = None \<or> expected = Some (ri_accountId i))"
  (is "?L \<longleftrightarrow> ?R")
proof
  assume ?L
  then obtain kvs accountId k signature where
    "v = JObject kvs" "hasExactly kvs IDENTITY_FIELDS"
    "js_field kvs ''v'' = JNumber (Fin (of_int RELEASE_IDENTITY_VERSION))"
    "js_field kvs ''accountId'' = JString accountId" "RELEASE_ACCOUNT_ID_PATTERN accountId"
    "expected = None \<or> expected = Some accountId"
    and k: "identity_keys kvs accountId = Inr (k, signature)"
    and s: "verify_signature cr seed kvs k signature = Inr (Identity_ok i fp)"
    unfolding verifyReleaseIdentity_stages by blast
  with k [unfolded identity_keys_ok] s [unfolded verify_signature_ok] show ?R
    by (auto simp: carries_def identity_sound_def key_bytes_of_def)
next
  assume ?R
  then obtain kvs k signature signedBytes where v: "v = JObject kvs" "hasExactly kvs IDENTITY_FIELDS"
      "js_field kvs ''v'' = JNumber (Fin (of_int (ri_v i)))" "js_field kvs ''accountId'' = JString (ri_accountId i)"
      "js_field kvs ''signingKey'' = JString (ri_signingKey i)" "js_field kvs ''x25519Key'' = JString (ri_x25519Key i)"
      "js_field kvs ''mlkem768Key'' = JString (ri_mlkem768Key i)" "js_field kvs ''signature'' = JString (ri_signature i)"
    and i: "ri_v i = RELEASE_IDENTITY_VERSION" "key_bytes_of i k" "x25519KeyContributes cr seed (kb_x25519Key k) = Contributes"
      "ri_signature i = toBase64 signature" "ed25519SignatureIsAcceptable signature"
      "releaseIdentitySignedBytes k = Inr signedBytes" "ed25519_check cr (kb_signingKey k) signature signedBytes = Inr True"
      "fp = releaseIdentityFingerprint cr signedBytes"
    and e: "expected = None \<or> expected = Some (ri_accountId i)"
    by (auto simp: carries_def identity_sound_def)
  have "identity_keys kvs (ri_accountId i) = Inr (k, signature)"
    unfolding identity_keys_ok using v i by (simp add: key_bytes_of_def)
  moreover have "verify_signature cr seed kvs k signature = Inr (Identity_ok i fp)"
    unfolding verify_signature_ok using v i by (auto simp: key_bytes_of_def)
  ultimately show ?L
    unfolding verifyReleaseIdentity_stages using v i e by (auto simp: key_bytes_of_def)
qed

lemma verifyReleaseIdentity_total: "\<exists>c. verifyReleaseIdentity cr seed v expected = Inr c"
proof -
  have "\<exists>c. verify_signature cr seed kvs k signature = Inr c"
    if "identity_keys kvs a = Inr (k, signature)" "RELEASE_ACCOUNT_ID_PATTERN a" for kvs k signature a
  proof -
    have "\<exists>b. releaseIdentitySignedBytes k = Inr b"
      using that key_form_lengths unfolding identity_keys_ok by (intro releaseIdentitySignedBytes_total) auto
    then obtain b where b: "releaseIdentitySignedBytes k = Inr b" ..
    show ?thesis
      by (cases "x25519KeyContributes cr seed (kb_x25519Key k)"; cases "ed25519_check cr (kb_signingKey k) signature b")
        (simp_all add: verify_signature_def b)
  qed
  then show ?thesis
    by (auto simp: verifyReleaseIdentity_def split: js_value.splits sum.splits)
qed

end
