(* ===== verification/Hybrid_Seal.thy ===== *)
theory Hybrid_Seal
  imports Release_Identity
begin

text \<open>
  The hybrid sealing construction
  (\<^verbatim>\<open>packages/blackout-protocol/src/deaddrop/crypto/hybridSeal.ts\<close> and
  \<^verbatim>\<open>pqHybrid.ts\<close>): an X25519 and an ML-KEM secret, combined by HKDF with a
  transcript, give the AES-GCM key of the sealed bytes. The laws of the
  primitives are predicates on the record of functions, so that a property
  names the ones it needs. Clearing buffers has no effect on the results and is
  left out.
\<close>

definition PQ_HYBRID_INFO :: bytes where
  "PQ_HYBRID_INFO = utf8Encode (units ''blackout-deaddrop-v2-hybrid'')"

definition HYBRID_SEAL_NONCE_BYTES :: nat where "HYBRID_SEAL_NONCE_BYTES = 12"

record HybridSealed =
  hs_ephemeralPublicKey :: bytes
  hs_kemCiphertext :: bytes
  hs_nonce :: bytes
  hs_ciphertext :: bytes

record HybridSealRandomness =
  hr_ephemeralPrivateKey :: CryptoKey
  hr_ephemeralPublicKey :: bytes
  hr_kemCiphertext :: bytes
  hr_sharedSecret :: bytes
  hr_nonce :: bytes

definition deriveHybridAeadKey :: "Crypto \<Rightarrow> bytes \<Rightarrow> bytes \<Rightarrow> bytes \<Rightarrow> bytes \<Rightarrow> bytes \<Rightarrow> fault + bytes" where
  "deriveHybridAeadKey cr ecSecret pqSecret ephemeralPub pqCiphertext transcript =
     (if ecSecret = [] then Inl Fault_form
      else if pqSecret = [] then Inl Fault_form
      else let ikm = ecSecret @ pqSecret;
               salt = ephemeralPub @ pqCiphertext;
               info = (if transcript \<noteq> [] then PQ_HYBRID_INFO @ transcript else PQ_HYBRID_INFO)
           in thrown Fault_crypto (cr_hkdf cr ikm salt info 32))"

definition isAllZero :: "bytes \<Rightarrow> bool" where
  "isAllZero bs \<longleftrightarrow> fold (\<lambda>b acc. acc OR b) bs 0 = 0"

definition refuseZero :: "bytes \<Rightarrow> fault + unit" where
  "refuseZero sharedSecret = (if isAllZero sharedSecret then Inl Fault_zero_shared_secret else Inr ())"

definition hybridSealWith ::
    "Crypto \<Rightarrow> bytes \<Rightarrow> CryptoKey \<Rightarrow> bytes \<Rightarrow> HybridSealRandomness \<Rightarrow> fault + HybridSealed" where
  "hybridSealWith cr plain recipientKey transcript randomness =
     (if length (hr_nonce randomness) \<noteq> HYBRID_SEAL_NONCE_BYTES then Inl Fault_form
      else and_then (thrown Fault_crypto (cr_x25519Derive cr (hr_ephemeralPrivateKey randomness) recipientKey)) (\<lambda>ecSecret.
           and_then (refuseZero ecSecret) (\<lambda>_.
           and_then (deriveHybridAeadKey cr ecSecret (hr_sharedSecret randomness) (hr_ephemeralPublicKey randomness)
                       (hr_kemCiphertext randomness) transcript) (\<lambda>key.
           and_then (thrown Fault_crypto (cr_aesEncrypt cr key (hr_nonce randomness) [] plain)) (\<lambda>ciphertext.
             Inr \<lparr>hs_ephemeralPublicKey = hr_ephemeralPublicKey randomness,
                  hs_kemCiphertext = hr_kemCiphertext randomness,
                  hs_nonce = hr_nonce randomness, hs_ciphertext = ciphertext\<rparr>)))))"

text \<open>The fresh randomness of one seal: an ephemeral pair, an encapsulation and a nonce.\<close>

record SealDraws =
  sd_ephemeral :: seed
  sd_encapsulation :: seed
  sd_nonce :: bytes

definition hybridSeal ::
    "Crypto \<Rightarrow> bytes \<Rightarrow> string \<Rightarrow> bytes \<Rightarrow> bytes \<Rightarrow> SealDraws \<Rightarrow> fault + HybridSealed" where
  "hybridSeal cr plain recipientX25519PublicKeyBase64 recipientPqPublicKey transcript draws =
     (if length recipientPqPublicKey \<noteq> kp_publicKeyLength (cr_kem cr) then Inl Fault_form
      else and_then (importRecipientPublicKey cr recipientX25519PublicKeyBase64) (\<lambda>recipient.
           and_then (thrown Fault_crypto (cr_x25519Generate cr (sd_ephemeral draws))) (\<lambda>(privateKey, publicKeyBytes).
           and_then (thrown Fault_crypto (kp_encapsulate (cr_kem cr) recipientPqPublicKey (sd_encapsulation draws)))
             (\<lambda>(ciphertext, sharedSecret).
             hybridSealWith cr plain recipient transcript
               \<lparr>hr_ephemeralPrivateKey = privateKey, hr_ephemeralPublicKey = publicKeyBytes,
                hr_kemCiphertext = ciphertext, hr_sharedSecret = sharedSecret, hr_nonce = sd_nonce draws\<rparr>))))"

definition hybridOpen :: "Crypto \<Rightarrow> HybridSealed \<Rightarrow> CryptoKey \<Rightarrow> bytes \<Rightarrow> bytes \<Rightarrow> fault + bytes" where
  "hybridOpen cr sealed recipientPrivateKey recipientPqSecretKey transcript =
     and_then (importRecipientPublicKey cr (toBase64 (hs_ephemeralPublicKey sealed))) (\<lambda>ephemeral.
     and_then (thrown Fault_crypto (cr_x25519Derive cr recipientPrivateKey ephemeral)) (\<lambda>ecSecret.
     and_then (refuseZero ecSecret) (\<lambda>_.
     and_then (thrown Fault_crypto (kp_decapsulate (cr_kem cr) (hs_kemCiphertext sealed) recipientPqSecretKey)) (\<lambda>pqSecret.
     and_then (deriveHybridAeadKey cr ecSecret pqSecret (hs_ephemeralPublicKey sealed) (hs_kemCiphertext sealed) transcript) (\<lambda>key.
       thrown Fault_crypto (cr_aesDecrypt cr key (hs_nonce sealed) [] (hs_ciphertext sealed)))))))"

section \<open>Laws of the primitives\<close>

text \<open>AES-GCM decrypts what it encrypted under the same key, nonce and associated data; the tag has 16 bytes.\<close>

definition aes_lawful :: "Crypto \<Rightarrow> bool" where
  "aes_lawful cr \<longleftrightarrow> (\<forall>key iv ad plain ciphertext. cr_aesEncrypt cr key iv ad plain = Inr ciphertext \<longrightarrow>
     cr_aesDecrypt cr key iv ad ciphertext = Inr plain \<and> length ciphertext = length plain + 16)"

text \<open>SHA-256 has 32 bytes.\<close>

definition sha_lawful :: "Crypto \<Rightarrow> bool" where
  "sha_lawful cr \<longleftrightarrow> (\<forall>bs. length (cr_sha256 cr bs) = 32)"

text \<open>A private handle and public bytes that belong together agree on a secret with any generated pair.\<close>

definition x25519_pair :: "Crypto \<Rightarrow> CryptoKey \<Rightarrow> bytes \<Rightarrow> bool" where
  "x25519_pair cr privateKey publicKey \<longleftrightarrow>
     (\<forall>seed priv pub here there. cr_x25519Generate cr seed = Inr (priv, pub) \<longrightarrow>
        cr_x25519Import cr publicKey = Inr there \<longrightarrow> cr_x25519Import cr pub = Inr here \<longrightarrow>
        cr_x25519Derive cr priv there = cr_x25519Derive cr privateKey here)"

text \<open>Generated X25519 keys are 32 canonical bytes and can be imported.\<close>

definition x25519_lawful :: "Crypto \<Rightarrow> bool" where
  "x25519_lawful cr \<longleftrightarrow> (\<forall>seed priv pub. cr_x25519Generate cr seed = Inr (priv, pub) \<longrightarrow>
     x25519KeyIsCanonical pub \<and> (\<exists>handle. cr_x25519Import cr pub = Inr handle))"

text \<open>Decapsulation with the secret half returns the encapsulated secret.\<close>

definition kem_pair :: "Crypto \<Rightarrow> bytes \<Rightarrow> bytes \<Rightarrow> bool" where
  "kem_pair cr secretKey publicKey \<longleftrightarrow>
     (\<forall>seed ciphertext secret. kp_encapsulate (cr_kem cr) publicKey seed = Inr (ciphertext, secret) \<longrightarrow>
        kp_decapsulate (cr_kem cr) ciphertext secretKey = Inr secret)"

text \<open>The provider returns ciphertexts of the length it states.\<close>

definition kem_lawful :: "Crypto \<Rightarrow> bool" where
  "kem_lawful cr \<longleftrightarrow>
     (\<forall>publicKey seed ciphertext secret. kp_encapsulate (cr_kem cr) publicKey seed = Inr (ciphertext, secret) \<longrightarrow>
        length ciphertext = kp_ciphertextLength (cr_kem cr))"

text \<open>A signature made with the private half has the accepted form and verifies.\<close>

definition ed25519_pair :: "Crypto \<Rightarrow> CryptoKey \<Rightarrow> bytes \<Rightarrow> bool" where
  "ed25519_pair cr privateKey publicKey \<longleftrightarrow>
     (\<forall>message signature. cr_ed25519Sign cr privateKey message = Inr signature \<longrightarrow>
        ed25519SignatureIsAcceptable signature \<and> ed25519_check cr publicKey signature message = Inr True)"

section \<open>Lemmas\<close>

lemma isAllZero_iff: "isAllZero bs \<longleftrightarrow> set bs \<subseteq> {0}"
proof -
  have "fold (\<lambda>b acc. acc OR b) bs a = 0 \<longleftrightarrow> a = 0 \<and> set bs \<subseteq> {0}" for a :: byte
    by (induction bs arbitrary: a) (auto simp: or_zero_iff)
  then show ?thesis by (simp add: isAllZero_def)
qed

lemma refuseZero_Inr [simp]: "refuseZero s = Inr u \<longleftrightarrow> \<not> isAllZero s"
  by (simp add: refuseZero_def)

lemma importRecipientPublicKey_toBase64:
  "length bs = 32 \<Longrightarrow> importRecipientPublicKey cr (toBase64 bs) = thrown Fault_crypto (cr_x25519Import cr bs)"
  by (simp add: importRecipientPublicKey_def fromBase64_toBase64)

lemma hybridSealWith_Inr:
  "hybridSealWith cr plain recipientKey transcript r = Inr s \<longleftrightarrow>
     length (hr_nonce r) = 12 \<and>
     (\<exists>ec key c. cr_x25519Derive cr (hr_ephemeralPrivateKey r) recipientKey = Inr ec \<and> \<not> isAllZero ec \<and>
        deriveHybridAeadKey cr ec (hr_sharedSecret r) (hr_ephemeralPublicKey r) (hr_kemCiphertext r) transcript = Inr key \<and>
        cr_aesEncrypt cr key (hr_nonce r) [] plain = Inr c \<and>
        s = \<lparr>hs_ephemeralPublicKey = hr_ephemeralPublicKey r, hs_kemCiphertext = hr_kemCiphertext r,
             hs_nonce = hr_nonce r, hs_ciphertext = c\<rparr>)"
  by (auto simp: hybridSealWith_def HYBRID_SEAL_NONCE_BYTES_def)

text \<open>What is sealed with a generated pair and an encapsulation opens with the private halves.\<close>

lemma hybridOpen_sealed:
  assumes "aes_lawful cr" "x25519_lawful cr"
    and gen: "cr_x25519Generate cr seed = Inr (priv, pub)"
    and imp: "cr_x25519Import cr publicKey = Inr recipientKey" "x25519_pair cr privateKey publicKey"
    and enc: "kp_encapsulate (cr_kem cr) pqKey seed' = Inr (ct, ss)" "kem_pair cr secretKey pqKey"
    and sealed: "hybridSealWith cr plain recipientKey transcript
      \<lparr>hr_ephemeralPrivateKey = priv, hr_ephemeralPublicKey = pub, hr_kemCiphertext = ct, hr_sharedSecret = ss, hr_nonce = nonce\<rparr> = Inr s"
  shows "hybridOpen cr s privateKey secretKey transcript = Inr plain"
proof -
  from sealed obtain ec key c where c: "cr_x25519Derive cr priv recipientKey = Inr ec" "\<not> isAllZero ec"
      "deriveHybridAeadKey cr ec ss pub ct transcript = Inr key" "cr_aesEncrypt cr key nonce [] plain = Inr c"
    and s: "s = \<lparr>hs_ephemeralPublicKey = pub, hs_kemCiphertext = ct, hs_nonce = nonce, hs_ciphertext = c\<rparr>"
    by (auto simp: hybridSealWith_Inr)
  from assms(2) gen obtain here where pub: "x25519KeyIsCanonical pub" "cr_x25519Import cr pub = Inr here"
    unfolding x25519_lawful_def by blast
  have "cr_x25519Derive cr privateKey here = Inr ec"
    using imp gen pub(2) c(1) unfolding x25519_pair_def by metis
  moreover have "kp_decapsulate (cr_kem cr) ct secretKey = Inr ss" using enc unfolding kem_pair_def by blast
  moreover have "cr_aesDecrypt cr key nonce [] c = Inr plain" using assms(1) c(4) unfolding aes_lawful_def by blast
  ultimately show ?thesis
    using c(2,3) pub key_form_lengths(2) [OF pub(1)]
    by (simp add: hybridOpen_def s importRecipientPublicKey_toBase64 refuseZero_def)
qed

end
