(* ===== verification/Release_Key_Set.thy ===== *)
theory Release_Key_Set
  imports Hybrid_Seal JS_Date
begin

text \<open>
  Release key sets (\<^verbatim>\<open>packages/blackout-protocol/src/release/keySet.ts\<close>): an
  identity together with its private keys, made on a device and checked before
  every use. A key set is a record, so the \<^verbatim>\<open>typeof\<close> tests of its fields
  hold by typing; the draws of one check are a record of seeds.
\<close>

definition MLKEM768_SECRET_KEY_BYTES :: nat where "MLKEM768_SECRET_KEY_BYTES = 2400"
definition MLKEM768_CIPHERTEXT_BYTES :: nat where "MLKEM768_CIPHERTEXT_BYTES = 1088"
definition MLKEM768_SHARED_SECRET_BYTES :: nat where "MLKEM768_SHARED_SECRET_BYTES = 32"
definition MLKEM768_SECRET_KEY_EK_OFFSET :: nat where "MLKEM768_SECRET_KEY_EK_OFFSET = 1152"

lemmas kem_lengths = MLKEM768_SECRET_KEY_BYTES_def MLKEM768_CIPHERTEXT_BYTES_def MLKEM768_SHARED_SECRET_BYTES_def
  MLKEM768_SECRET_KEY_EK_OFFSET_def

definition RELEASE_KEY_CHECK_LABEL :: string where
  "RELEASE_KEY_CHECK_LABEL = ''blackout-release-key-check-v1''"

record ReleaseKeySet =
  ks_identity :: ReleaseIdentity
  ks_fingerprint :: string
  ks_signingPrivateJwk :: JsonWebKey
  ks_x25519PrivateJwk :: JsonWebKey
  ks_mlkem768SecretKey :: string
  ks_createdAt :: iso

datatype ReleaseKeySetProblem =
    Ks_shape
  | Ks_identity
  | Ks_fingerprint
  | Ks_signing_private_key
  | Ks_x25519_private_key
  | Ks_mlkem768_secret_key
  | Ks_kem_provider

definition okpJwk :: "JsonWebKey \<Rightarrow> string \<Rightarrow> JsonWebKey option" where
  "okpJwk jwk crv =
     (if jk_kty jwk \<noteq> ''OKP'' \<or> jk_crv jwk \<noteq> crv then None
      else if decodeBase64Url (JString (jk_d jwk)) 32 = None \<or> decodeBase64Url (JString (jk_x jwk)) 32 = None then None
      else Some \<lparr>jk_kty = ''OKP'', jk_crv = crv, jk_d = jk_d jwk, jk_x = jk_x jwk\<rparr>)"

definition kem_is_mlkem768 :: "KemProvider \<Rightarrow> bool" where
  "kem_is_mlkem768 kem \<longleftrightarrow>
     kp_publicKeyLength kem = MLKEM768_PUBLIC_KEY_BYTES \<and> kp_secretKeyLength kem = MLKEM768_SECRET_KEY_BYTES \<and>
     kp_ciphertextLength kem = MLKEM768_CIPHERTEXT_BYTES \<and> kp_sharedSecretLength kem = MLKEM768_SHARED_SECRET_BYTES"

text \<open>Only the four members are imported.\<close>

definition jwkMembers :: "JsonWebKey \<Rightarrow> JsonWebKey" where
  "jwkMembers jwk = \<lparr>jk_kty = jk_kty jwk, jk_crv = jk_crv jwk, jk_d = jk_d jwk, jk_x = jk_x jwk\<rparr>"

definition importReleaseSigningKey :: "Crypto \<Rightarrow> ReleaseKeySet \<Rightarrow> fault + CryptoKey" where
  "importReleaseSigningKey cr keySet = thrown Fault_crypto (cr_ed25519ImportJwk cr (jwkMembers (ks_signingPrivateJwk keySet)))"

definition importReleaseX25519Key :: "Crypto \<Rightarrow> ReleaseKeySet \<Rightarrow> fault + CryptoKey" where
  "importReleaseX25519Key cr keySet = thrown Fault_crypto (cr_x25519ImportJwk cr (jwkMembers (ks_x25519PrivateJwk keySet)))"

text \<open>What one check draws: 32 bytes to sign, a fresh X25519 pair, an encapsulation, and the pair of the identity check.\<close>

record CheckDraws =
  cd_identity :: seed
  cd_message :: bytes
  cd_fresh :: seed
  cd_encapsulation :: seed

definition caught :: "'e + bool \<Rightarrow> bool" where
  "caught r = (case r of Inl _ \<Rightarrow> False | Inr b \<Rightarrow> b)"

text \<open>
  The promise of \<^verbatim>\<open>verify\<close> is returned from the \<^verbatim>\<open>try\<close> without being awaited, so
  the \<^verbatim>\<open>catch\<close> sees what fails before it, and a rejection of \<^verbatim>\<open>verify\<close> itself escapes.
\<close>

definition signingKeyMatches :: "Crypto \<Rightarrow> bytes \<Rightarrow> ReleaseKeySet \<Rightarrow> bytes \<Rightarrow> fault + bool" where
  "signingKeyMatches cr random keySet publicKey =
     (if jk_x (ks_signingPrivateJwk keySet) \<noteq> toBase64Url publicKey then Inr False
      else let message = concatBytes [labelBytes RELEASE_KEY_CHECK_LABEL, random]
           in case and_then (importReleaseSigningKey cr keySet) (\<lambda>privateKey.
                   and_then (thrown Fault_crypto (cr_ed25519Sign cr privateKey message)) (\<lambda>signature.
                   and_then (thrown Fault_crypto (cr_ed25519Import cr publicKey)) (\<lambda>verifier.
                     Inr (signature, verifier)))) of
                Inl _ \<Rightarrow> Inr False
              | Inr (signature, verifier) \<Rightarrow> thrown Fault_crypto (cr_ed25519Verify cr verifier signature message))"

definition x25519KeyMatches :: "Crypto \<Rightarrow> seed \<Rightarrow> ReleaseKeySet \<Rightarrow> bytes \<Rightarrow> bool" where
  "x25519KeyMatches cr seed keySet publicKey =
     (if jk_x (ks_x25519PrivateJwk keySet) \<noteq> toBase64Url publicKey then False
      else caught (
        and_then (importReleaseX25519Key cr keySet) (\<lambda>privateKey.
        and_then (importRecipientPublicKey cr (toBase64 publicKey)) (\<lambda>identityKey.
        and_then (thrown Fault_crypto (cr_x25519Generate cr seed)) (\<lambda>(freshPrivate, freshPublicBytes).
        and_then (importRecipientPublicKey cr (toBase64 freshPublicBytes)) (\<lambda>freshPublic.
        and_then (thrown Fault_crypto (cr_x25519Derive cr privateKey freshPublic)) (\<lambda>one.
        and_then (thrown Fault_crypto (cr_x25519Derive cr freshPrivate identityKey)) (\<lambda>other.
          Inr (bytesEqual one other \<and> list_ex (\<lambda>b. b \<noteq> 0) one)))))))))"

datatype KemMatch = Kem_yes | Kem_no | Kem_provider

definition mlKemKeyMatches :: "KemProvider \<Rightarrow> seed \<Rightarrow> bytes \<Rightarrow> bytes \<Rightarrow> KemMatch" where
  "mlKemKeyMatches kem seed secretKey publicKey =
     (let embedded = take MLKEM768_PUBLIC_KEY_BYTES (drop MLKEM768_SECRET_KEY_EK_OFFSET secretKey)
      in if \<not> bytesEqual embedded publicKey then Kem_no
         else case kp_encapsulate kem publicKey seed of
                Inl _ \<Rightarrow> Kem_provider
              | Inr (ciphertext, sharedSecret) \<Rightarrow>
                  (case kp_decapsulate kem ciphertext secretKey of
                     Inl _ \<Rightarrow> Kem_no
                   | Inr opened \<Rightarrow> if bytesEqual opened sharedSecret then Kem_yes else Kem_no))"

text \<open>The checks of the private keys, once the identity is known to be sound.\<close>

definition check_private_keys :: "Crypto \<Rightarrow> CheckDraws \<Rightarrow> ReleaseKeySet \<Rightarrow> fault + ReleaseKeySetProblem option" where
  "check_private_keys cr draws keySet =
     (case (decodeCanonicalBase64 (JString (ri_signingKey (ks_identity keySet))) (Some ED25519_PUBLIC_KEY_BYTES),
            decodeCanonicalBase64 (JString (ri_x25519Key (ks_identity keySet))) (Some X25519_PUBLIC_KEY_BYTES),
            decodeCanonicalBase64 (JString (ri_mlkem768Key (ks_identity keySet))) (Some MLKEM768_PUBLIC_KEY_BYTES)) of
        (Some signingKey, Some x25519Key, Some mlkem768Key) \<Rightarrow>
          (case decodeCanonicalBase64 (JString (ks_mlkem768SecretKey keySet)) (Some MLKEM768_SECRET_KEY_BYTES) of
             None \<Rightarrow> Inr (Some Ks_mlkem768_secret_key)
           | Some secretKey \<Rightarrow>
               and_then (signingKeyMatches cr (cd_message draws) keySet signingKey) (\<lambda>matches.
                 Inr (if \<not> matches then Some Ks_signing_private_key
                      else if \<not> x25519KeyMatches cr (cd_fresh draws) keySet x25519Key then Some Ks_x25519_private_key
                      else if \<not> kem_is_mlkem768 (cr_kem cr) then Some Ks_kem_provider
                      else case mlKemKeyMatches (cr_kem cr) (cd_encapsulation draws) secretKey mlkem768Key of
                             Kem_provider \<Rightarrow> Some Ks_kem_provider
                           | Kem_no \<Rightarrow> Some Ks_mlkem768_secret_key
                           | Kem_yes \<Rightarrow> None)))
      | _ \<Rightarrow> Inr (Some Ks_identity))"

definition checkReleaseKeySet ::
    "Crypto \<Rightarrow> CheckDraws \<Rightarrow> ReleaseKeySet \<Rightarrow> string option \<Rightarrow> fault + ReleaseKeySetProblem option" where
  "checkReleaseKeySet cr draws keySet expected =
     (if Date_parse (ks_createdAt keySet) = None \<or> okpJwk (ks_signingPrivateJwk keySet) ''Ed25519'' = None \<or>
         okpJwk (ks_x25519PrivateJwk keySet) ''X25519'' = None then Inr (Some Ks_shape)
      else and_then (verifyReleaseIdentity cr (cd_identity draws) (publicReleaseIdentity (ks_identity keySet)) expected) (\<lambda>check.
           case check of
             Identity_refused _ \<Rightarrow> Inr (Some Ks_identity)
           | Identity_ok _ fingerprint \<Rightarrow>
               if fingerprint \<noteq> ks_fingerprint keySet then Inr (Some Ks_fingerprint)
               else check_private_keys cr draws keySet))"

text \<open>
  Creating a key set. What WebCrypto generates and exports for a seed is
  the argument \<open>generated\<close>: the Ed25519 and X25519 pairs with their JWKs.
\<close>

record GeneratedKeys =
  gk_signingPublic :: bytes
  gk_signingJwk :: JsonWebKey
  gk_signingPrivate :: CryptoKey
  gk_x25519Public :: bytes
  gk_x25519Jwk :: JsonWebKey

definition createReleaseKeySet ::
    "Crypto \<Rightarrow> GeneratedKeys \<Rightarrow> seed \<Rightarrow> seed \<Rightarrow> CheckDraws \<Rightarrow> string \<Rightarrow> iso \<Rightarrow> fault + ReleaseKeySet" where
  "createReleaseKeySet cr generated kemSeed identitySeed draws accountId now =
     (if \<not> RELEASE_ACCOUNT_ID_PATTERN accountId then Inl Fault_form
      else if \<not> kem_is_mlkem768 (cr_kem cr) then Inl Fault_form
      else and_then (thrown Fault_crypto (kp_generateKeyPair (cr_kem cr) kemSeed)) (\<lambda>(pqPublic, pqSecret).
           case (okpJwk (gk_signingJwk generated) ''Ed25519'', okpJwk (gk_x25519Jwk generated) ''X25519'') of
             (Some signingJwk, Some x25519Jwk) \<Rightarrow>
               if length (gk_signingPublic generated) \<noteq> ED25519_PUBLIC_KEY_BYTES \<or>
                  length pqPublic \<noteq> MLKEM768_PUBLIC_KEY_BYTES \<or> length pqSecret \<noteq> MLKEM768_SECRET_KEY_BYTES
               then Inl Fault_form
               else and_then (signReleaseIdentity cr
                      \<lparr>ri_v = RELEASE_IDENTITY_VERSION, ri_accountId = accountId,
                       ri_signingKey = toBase64 (gk_signingPublic generated),
                       ri_x25519Key = toBase64 (gk_x25519Public generated),
                       ri_mlkem768Key = toBase64 pqPublic, ri_signature = ''''\<rparr>
                      (gk_signingPrivate generated)) (\<lambda>identity.
                    and_then (verifyReleaseIdentity cr identitySeed (publicReleaseIdentity identity) (Some accountId)) (\<lambda>check.
                      case check of
                        Identity_refused _ \<Rightarrow> Inl Fault_form
                      | Identity_ok _ fingerprint \<Rightarrow>
                          (let keySet = \<lparr>ks_identity = identity, ks_fingerprint = fingerprint,
                                         ks_signingPrivateJwk = signingJwk, ks_x25519PrivateJwk = x25519Jwk,
                                         ks_mlkem768SecretKey = toBase64 pqSecret, ks_createdAt = now\<rparr>
                           in and_then (checkReleaseKeySet cr draws keySet (Some accountId)) (\<lambda>problem.
                              if problem \<noteq> None then Inl Fault_form else Inr keySet))))
           | _ \<Rightarrow> Inl Fault_form))"

section \<open>Lemmas\<close>

lemma carries_public: "carries (publicReleaseIdentity i) j \<longleftrightarrow> i = j"
  by (auto simp: carries_def publicReleaseIdentity_def hasExactly_def IDENTITY_FIELDS_def js_field_def)

text \<open>A key set that passes its check: what is known of its parts.\<close>

lemma checkReleaseKeySet_None:
  "checkReleaseKeySet cr draws s expected = Inr None \<longleftrightarrow>
     Date_parse (ks_createdAt s) \<noteq> None \<and> okpJwk (ks_signingPrivateJwk s) ''Ed25519'' \<noteq> None \<and>
     okpJwk (ks_x25519PrivateJwk s) ''X25519'' \<noteq> None \<and>
     (\<exists>k. identity_sound cr (cd_identity draws) (ks_identity s) k (ks_fingerprint s)) \<and>
     (expected = None \<or> expected = Some (ri_accountId (ks_identity s))) \<and>
     check_private_keys cr draws s = Inr None"
  (is "?L \<longleftrightarrow> ?R")
proof
  assume L: ?L
  then obtain check where c: "verifyReleaseIdentity cr (cd_identity draws) (publicReleaseIdentity (ks_identity s)) expected = Inr check"
    "Date_parse (ks_createdAt s) \<noteq> None" "okpJwk (ks_signingPrivateJwk s) ''Ed25519'' \<noteq> None"
    "okpJwk (ks_x25519PrivateJwk s) ''X25519'' \<noteq> None"
    unfolding checkReleaseKeySet_def by (auto split: if_splits)
  with L obtain i fp where i: "check = Identity_ok i fp" "fp = ks_fingerprint s" "check_private_keys cr draws s = Inr None"
    unfolding checkReleaseKeySet_def by (cases check) (auto split: if_splits)
  from c(1) i(1) have "verifyReleaseIdentity cr (cd_identity draws) (publicReleaseIdentity (ks_identity s)) expected = Inr (Identity_ok i fp)" by simp
  then have "ks_identity s = i" "\<exists>k. identity_sound cr (cd_identity draws) i k fp" "expected = None \<or> expected = Some (ri_accountId i)"
    unfolding verifyReleaseIdentity_iff carries_public by auto
  with c i show ?R by auto
next
  assume R: ?R
  then have "verifyReleaseIdentity cr (cd_identity draws) (publicReleaseIdentity (ks_identity s)) expected
      = Inr (Identity_ok (ks_identity s) (ks_fingerprint s))"
    unfolding verifyReleaseIdentity_iff carries_public by auto
  with R show ?L unfolding checkReleaseKeySet_def by simp
qed

text \<open>
  WebCrypto answers a verification with an imported key by true or false. Where
  it does, the check of a key set returns; where it rejects, the rejection is
  what the caller gets.
\<close>

definition verify_answers :: "Crypto \<Rightarrow> bool" where
  "verify_answers cr \<longleftrightarrow> (\<forall>publicKey key signature message. cr_ed25519Import cr publicKey = Inr key \<longrightarrow>
     (\<exists>valid. cr_ed25519Verify cr key signature message = Inr valid))"

lemma signingKeyMatches_total:
  assumes "verify_answers cr"
  shows "\<exists>b. signingKeyMatches cr random keySet publicKey = Inr b"
  using assms by (auto simp: signingKeyMatches_def verify_answers_def Let_def split: sum.split)

lemma check_private_keys_total:
  assumes "verify_answers cr"
  shows "\<exists>p. check_private_keys cr draws keySet = Inr p"
  using signingKeyMatches_total [OF assms]
  by (auto simp: check_private_keys_def split: option.split)

lemma checkReleaseKeySet_total:
  assumes "verify_answers cr"
  shows "\<exists>p. checkReleaseKeySet cr draws keySet expected = Inr p"
proof -
  obtain check where "verifyReleaseIdentity cr (cd_identity draws) (publicReleaseIdentity (ks_identity keySet)) expected = Inr check"
    using verifyReleaseIdentity_total by blast
  with check_private_keys_total [OF assms] show ?thesis
    by (cases check) (auto simp: checkReleaseKeySet_def)
qed

lemma verify_rejection_escapes:
  assumes "jk_x (ks_signingPrivateJwk keySet) = toBase64Url publicKey" "importReleaseSigningKey cr keySet = Inr privateKey"
    and "cr_ed25519Sign cr privateKey (concatBytes [labelBytes RELEASE_KEY_CHECK_LABEL, random]) = Inr signature"
    and "cr_ed25519Import cr publicKey = Inr verifier"
    and "cr_ed25519Verify cr verifier signature (concatBytes [labelBytes RELEASE_KEY_CHECK_LABEL, random]) = Inl e"
  shows "signingKeyMatches cr random keySet publicKey = Inl (Fault_crypto e)"
  using assms by (simp add: signingKeyMatches_def)

end
