(* ===== verification/Release_Format.thy ===== *)
theory Release_Format
  imports Release_Key_Set
begin

unbundle bit_operations_syntax

text \<open>
  The wire format of a release
  (\<^verbatim>\<open>packages/blackout-protocol/src/release/envelope.ts\<close>, first half): the
  header, the sealed copies, the envelope, their parsers, and the byte strings
  that are hashed, signed or authenticated. Every such byte string is built
  from decoded fields; the lemmas say that it determines them.
\<close>

section \<open>Constants\<close>

definition RELEASE_ENVELOPE_VERSION :: int where "RELEASE_ENVELOPE_VERSION = 1"

definition RELEASE_SEAL_LABEL :: string where "RELEASE_SEAL_LABEL = ''blackout-release-seal-v1''"
definition RELEASE_SEAL_SIGNATURE_LABEL :: string where
  "RELEASE_SEAL_SIGNATURE_LABEL = ''blackout-release-seal-signature-v1''"
definition RELEASE_KEY_COMMITMENT_LABEL :: string where
  "RELEASE_KEY_COMMITMENT_LABEL = ''blackout-release-key-commitment-v1''"
definition RELEASE_CONTENT_LABEL :: string where "RELEASE_CONTENT_LABEL = ''blackout-release-content-v1''"

lemmas release_labels = RELEASE_SEAL_LABEL_def RELEASE_SEAL_SIGNATURE_LABEL_def RELEASE_KEY_COMMITMENT_LABEL_def
  RELEASE_CONTENT_LABEL_def RELEASE_IDENTITY_LABEL_def RELEASE_KEY_CHECK_LABEL_def

text \<open>A lowercase UUID of version 4.\<close>

definition RELEASE_ID_PATTERN :: "string \<Rightarrow> bool" where
  "RELEASE_ID_PATTERN s \<longleftrightarrow> length s = 36 \<and>
     list_all (\<lambda>i. if i \<in> {8, 13, 18, 23} then s ! i = CHR ''-''
                   else if i = 14 then s ! i = CHR ''4''
                   else if i = 19 then s ! i \<in> set ''89ab''
                   else is_hex (s ! i)) [0..<36]"

definition RELEASE_MESSAGE_MAX_BYTES :: nat where "RELEASE_MESSAGE_MAX_BYTES = 64 * 1024"
definition RELEASE_PADDED_SIZES :: "nat list" where "RELEASE_PADDED_SIZES = [BUCKETS ! 0, BUCKETS ! 1, BUCKETS ! 2]"
definition RELEASE_CONTENT_KEY_BYTES :: nat where "RELEASE_CONTENT_KEY_BYTES = 32"
definition RELEASE_NONCE_BYTES :: nat where "RELEASE_NONCE_BYTES = 12"
definition RELEASE_KEY_COMMITMENT_BYTES :: nat where "RELEASE_KEY_COMMITMENT_BYTES = 32"
definition GCM_TAG_BYTES :: nat where "GCM_TAG_BYTES = 16"
definition WRAPPED_KEY_BYTES :: nat where "WRAPPED_KEY_BYTES = RELEASE_CONTENT_KEY_BYTES + GCM_TAG_BYTES"
definition RELEASE_SEALED_KEY_BYTES :: nat where
  "RELEASE_SEALED_KEY_BYTES =
     X25519_PUBLIC_KEY_BYTES + MLKEM768_CIPHERTEXT_BYTES + RELEASE_NONCE_BYTES + WRAPPED_KEY_BYTES"
definition RELEASE_MAX_RECIPIENTS :: nat where "RELEASE_MAX_RECIPIENTS = 64"
definition RELEASE_MAX_COPIES :: nat where "RELEASE_MAX_COPIES = RELEASE_MAX_RECIPIENTS + 1"
definition MAX_CIPHERTEXT_BYTES :: nat where
  "MAX_CIPHERTEXT_BYTES = RELEASE_PADDED_SIZES ! (length RELEASE_PADDED_SIZES - 1) + GCM_TAG_BYTES"
definition MAX_CIPHERTEXT_BASE64 :: nat where
  "MAX_CIPHERTEXT_BASE64 = (MAX_CIPHERTEXT_BYTES + 2) div 3 * 4"

lemmas release_lengths = RELEASE_CONTENT_KEY_BYTES_def RELEASE_NONCE_BYTES_def RELEASE_KEY_COMMITMENT_BYTES_def
  GCM_TAG_BYTES_def WRAPPED_KEY_BYTES_def RELEASE_SEALED_KEY_BYTES_def key_lengths kem_lengths

section \<open>Data\<close>

record ReleaseHeader =
  rh_releaseId :: string
  rh_ownerAccountId :: string
  rh_ownerFingerprint :: string
  rh_contentNonce :: string
  rh_contentCiphertext :: string
  rh_keyCommitment :: string

record ReleaseCopy =
  rc_recipientAccountId :: string
  rc_recipientFingerprint :: string
  rc_sealedKey :: string
  rc_signature :: string

record ReleaseEnvelope =
  re_header :: ReleaseHeader
  re_copies :: "ReleaseCopy list"

datatype ReleaseEnvelopeProblem =
    Pr_shape
  | Pr_version
  | Pr_release_id
  | Pr_account_id
  | Pr_fingerprint
  | Pr_content_nonce
  | Pr_content_ciphertext
  | Pr_key_commitment
  | Pr_copies
  | Pr_owner_copy
  | Pr_duplicate_recipient
  | Pr_sealed_key
  | Pr_signature

definition HEADER_FIELDS :: "string list" where
  "HEADER_FIELDS = [''v'', ''releaseId'', ''ownerAccountId'', ''ownerFingerprint'', ''contentNonce'',
     ''contentCiphertext'', ''keyCommitment'']"

definition COPY_FIELDS :: "string list" where
  "COPY_FIELDS = [''recipientAccountId'', ''recipientFingerprint'', ''sealedKey'', ''signature'']"

definition ENVELOPE_FIELDS :: "string list" where
  "ENVELOPE_FIELDS = HEADER_FIELDS @ [''copies'']"

text \<open>The objects as they are sent.\<close>

definition header_fields :: "ReleaseHeader \<Rightarrow> (string \<times> js_value) list" where
  "header_fields h =
     [(''v'', JNumber (Fin (of_int RELEASE_ENVELOPE_VERSION))), (''releaseId'', JString (rh_releaseId h)),
      (''ownerAccountId'', JString (rh_ownerAccountId h)), (''ownerFingerprint'', JString (rh_ownerFingerprint h)),
      (''contentNonce'', JString (rh_contentNonce h)), (''contentCiphertext'', JString (rh_contentCiphertext h)),
      (''keyCommitment'', JString (rh_keyCommitment h))]"

definition header_object :: "ReleaseHeader \<Rightarrow> js_value" where
  "header_object h = JObject (header_fields h)"

definition copy_object :: "ReleaseCopy \<Rightarrow> js_value" where
  "copy_object c = JObject
     [(''recipientAccountId'', JString (rc_recipientAccountId c)),
      (''recipientFingerprint'', JString (rc_recipientFingerprint c)),
      (''sealedKey'', JString (rc_sealedKey c)), (''signature'', JString (rc_signature c))]"

definition envelope_object :: "ReleaseEnvelope \<Rightarrow> js_value" where
  "envelope_object e = JObject (header_fields (re_header e) @ [(''copies'', JArray (map copy_object (re_copies e)))])"

section \<open>Parsing\<close>

definition isAccountId :: "js_value \<Rightarrow> bool" where
  "isAccountId v = (case v of JString s \<Rightarrow> RELEASE_ACCOUNT_ID_PATTERN s | _ \<Rightarrow> False)"

definition isFingerprint :: "js_value \<Rightarrow> bool" where
  "isFingerprint v \<longleftrightarrow> fromHex v RELEASE_FINGERPRINT_BYTES \<noteq> None"

definition newReleaseId :: "bytes \<Rightarrow> string" where
  "newReleaseId random =
     (let bs = random[6 := ((random ! 6) AND 0x0f) OR 0x40];
          bs = bs[8 := ((bs ! 8) AND 0x3f) OR 0x80];
          hex = toHex bs
      in take 8 hex @ ''-'' @ take 4 (drop 8 hex) @ ''-'' @ take 4 (drop 12 hex) @ ''-'' @
         take 4 (drop 16 hex) @ ''-'' @ drop 20 hex)"

definition releaseContentCiphertextIsPadded :: "nat \<Rightarrow> bool" where
  "releaseContentCiphertextIsPadded n \<longleftrightarrow> list_ex (\<lambda>size. size + GCM_TAG_BYTES = n) RELEASE_PADDED_SIZES"

definition header_content_problem :: "js_value \<Rightarrow> bool" where
  "header_content_problem v =
     (case v of
        JString s \<Rightarrow>
          if length s > MAX_CIPHERTEXT_BASE64 then True
          else (case decodeCanonicalBase64 (JString s) None of
                  None \<Rightarrow> True
                | Some ciphertext \<Rightarrow> \<not> releaseContentCiphertextIsPadded (length ciphertext))
      | _ \<Rightarrow> True)"

definition parseReleaseHeader :: "js_value \<Rightarrow> ReleaseEnvelopeProblem + ReleaseHeader" where
  "parseReleaseHeader input =
     (case input of
        JObject kvs \<Rightarrow>
          if \<not> hasExactly kvs HEADER_FIELDS then Inl Pr_shape
          else if js_field kvs ''v'' \<noteq> JNumber (Fin (of_int RELEASE_ENVELOPE_VERSION)) then Inl Pr_version
          else if \<not> (case js_field kvs ''releaseId'' of JString s \<Rightarrow> RELEASE_ID_PATTERN s | _ \<Rightarrow> False)
          then Inl Pr_release_id
          else if \<not> isAccountId (js_field kvs ''ownerAccountId'') then Inl Pr_account_id
          else if \<not> isFingerprint (js_field kvs ''ownerFingerprint'') then Inl Pr_fingerprint
          else if decodeCanonicalBase64 (js_field kvs ''contentNonce'') (Some RELEASE_NONCE_BYTES) = None
          then Inl Pr_content_nonce
          else if header_content_problem (js_field kvs ''contentCiphertext'') then Inl Pr_content_ciphertext
          else if decodeCanonicalBase64 (js_field kvs ''keyCommitment'') (Some RELEASE_KEY_COMMITMENT_BYTES) = None
          then Inl Pr_key_commitment
          else Inr \<lparr>rh_releaseId = as_string (js_field kvs ''releaseId''),
                    rh_ownerAccountId = as_string (js_field kvs ''ownerAccountId''),
                    rh_ownerFingerprint = as_string (js_field kvs ''ownerFingerprint''),
                    rh_contentNonce = as_string (js_field kvs ''contentNonce''),
                    rh_contentCiphertext = as_string (js_field kvs ''contentCiphertext''),
                    rh_keyCommitment = as_string (js_field kvs ''keyCommitment'')\<rparr>
      | _ \<Rightarrow> Inl Pr_shape)"

definition parseReleaseCopy :: "js_value \<Rightarrow> ReleaseEnvelopeProblem + ReleaseCopy" where
  "parseReleaseCopy input =
     (case input of
        JObject kvs \<Rightarrow>
          if \<not> hasExactly kvs COPY_FIELDS then Inl Pr_shape
          else if \<not> isAccountId (js_field kvs ''recipientAccountId'') then Inl Pr_account_id
          else if \<not> isFingerprint (js_field kvs ''recipientFingerprint'') then Inl Pr_fingerprint
          else if (case decodeCanonicalBase64 (js_field kvs ''sealedKey'') (Some RELEASE_SEALED_KEY_BYTES) of
                     None \<Rightarrow> True
                   | Some sealedKey \<Rightarrow> \<not> x25519KeyIsCanonical (take X25519_PUBLIC_KEY_BYTES sealedKey))
          then Inl Pr_sealed_key
          else if (case decodeCanonicalBase64 (js_field kvs ''signature'') (Some ED25519_SIGNATURE_BYTES) of
                     None \<Rightarrow> True
                   | Some signature \<Rightarrow> \<not> ed25519SignatureIsAcceptable signature)
          then Inl Pr_signature
          else Inr \<lparr>rc_recipientAccountId = as_string (js_field kvs ''recipientAccountId''),
                    rc_recipientFingerprint = as_string (js_field kvs ''recipientFingerprint''),
                    rc_sealedKey = as_string (js_field kvs ''sealedKey''),
                    rc_signature = as_string (js_field kvs ''signature'')\<rparr>
      | _ \<Rightarrow> Inl Pr_shape)"

text \<open>The loop over the copies: the accounts seen so far and the count of owner copies.\<close>

fun parse_copies ::
    "ReleaseHeader \<Rightarrow> string list \<Rightarrow> nat \<Rightarrow> js_value list \<Rightarrow> ReleaseEnvelopeProblem + ReleaseCopy list \<times> nat" where
  "parse_copies h seen ownerCopies [] = Inr ([], ownerCopies)"
| "parse_copies h seen ownerCopies (entry # entries) =
     and_then (parseReleaseCopy entry) (\<lambda>copy.
       if rc_recipientAccountId copy \<in> set seen then Inl Pr_duplicate_recipient
       else if rc_recipientAccountId copy = rh_ownerAccountId h \<and>
               rc_recipientFingerprint copy \<noteq> rh_ownerFingerprint h then Inl Pr_owner_copy
       else and_then (parse_copies h (rc_recipientAccountId copy # seen)
                        (if rc_recipientAccountId copy = rh_ownerAccountId h then ownerCopies + 1 else ownerCopies) entries)
              (\<lambda>(copies, count). Inr (copy # copies, count)))"

definition parseReleaseEnvelope :: "js_value \<Rightarrow> ReleaseEnvelopeProblem + ReleaseEnvelope" where
  "parseReleaseEnvelope input =
     (case input of
        JObject kvs \<Rightarrow>
          if \<not> hasExactly kvs ENVELOPE_FIELDS then Inl Pr_shape
          else and_then (parseReleaseHeader (JObject (map (\<lambda>f. (f, js_field kvs f)) HEADER_FIELDS))) (\<lambda>header.
               case js_field kvs ''copies'' of
                 JArray copiesInput \<Rightarrow>
                   if length copiesInput < 2 \<or> length copiesInput > RELEASE_MAX_COPIES then Inl Pr_copies
                   else and_then (parse_copies header [] 0 copiesInput) (\<lambda>(copies, ownerCopies).
                        if ownerCopies \<noteq> 1 then Inl Pr_owner_copy
                        else Inr \<lparr>re_header = header, re_copies = copies\<rparr>)
               | _ \<Rightarrow> Inl Pr_copies)
      | _ \<Rightarrow> Inl Pr_shape)"

definition releaseHeaderOf :: "ReleaseEnvelope \<Rightarrow> ReleaseHeader" where
  "releaseHeaderOf envelope = re_header envelope"

section \<open>Bytes that are hashed, signed and authenticated\<close>

record ReleaseCopyContext =
  cx_releaseId :: string
  cx_ownerAccountId :: string
  cx_ownerFingerprint :: string
  cx_recipientAccountId :: string
  cx_recipientFingerprint :: string

definition asciiField :: "string \<Rightarrow> (string \<Rightarrow> bool) \<Rightarrow> fault + bytes" where
  "asciiField v pattern =
     (if \<not> pattern v then Inl Fault_form else thrown Fault_codec (lengthPrefixed (utf8Encode (units v))))"

definition fingerprintField :: "string \<Rightarrow> fault + bytes" where
  "fingerprintField v = (case fromHex (JString v) RELEASE_FINGERPRINT_BYTES of None \<Rightarrow> Inl Fault_form | Some bs \<Rightarrow> Inr bs)"

definition contextBytes :: "ReleaseCopyContext \<Rightarrow> fault + bytes" where
  "contextBytes context =
     and_then (asciiField (cx_releaseId context) RELEASE_ID_PATTERN) (\<lambda>release.
     and_then (asciiField (cx_ownerAccountId context) RELEASE_ACCOUNT_ID_PATTERN) (\<lambda>owner.
     and_then (fingerprintField (cx_ownerFingerprint context)) (\<lambda>ownerFp.
     and_then (asciiField (cx_recipientAccountId context) RELEASE_ACCOUNT_ID_PATTERN) (\<lambda>recipient.
     and_then (fingerprintField (cx_recipientFingerprint context)) (\<lambda>recipientFp.
       Inr (concatBytes [release, owner, ownerFp, recipient, recipientFp]))))))"

definition releaseSealTranscript :: "ReleaseCopyContext \<Rightarrow> fault + bytes" where
  "releaseSealTranscript context =
     and_then (contextBytes context) (\<lambda>bs. Inr (concatBytes [labelBytes RELEASE_SEAL_LABEL, bs]))"

definition releaseCopySignedBytes :: "ReleaseCopyContext \<Rightarrow> bytes \<Rightarrow> bytes \<Rightarrow> bytes \<Rightarrow> fault + bytes" where
  "releaseCopySignedBytes context contentHash keyCommitment sealedKey =
     (if length contentHash \<noteq> 32 \<or> length keyCommitment \<noteq> RELEASE_KEY_COMMITMENT_BYTES \<or>
         length sealedKey \<noteq> RELEASE_SEALED_KEY_BYTES then Inl Fault_form
      else and_then (contextBytes context) (\<lambda>bs.
           Inr (concatBytes [labelBytes RELEASE_SEAL_SIGNATURE_LABEL, bs, contentHash, keyCommitment, sealedKey])))"

definition releaseContentAssociatedData :: "string \<Rightarrow> string \<Rightarrow> fault + bytes" where
  "releaseContentAssociatedData releaseId ownerAccountId =
     and_then (asciiField releaseId RELEASE_ID_PATTERN) (\<lambda>release.
     and_then (asciiField ownerAccountId RELEASE_ACCOUNT_ID_PATTERN) (\<lambda>owner.
       Inr (concatBytes [labelBytes RELEASE_CONTENT_LABEL, release, owner])))"

definition releaseKeyCommitment :: "Crypto \<Rightarrow> bytes \<Rightarrow> fault + bytes" where
  "releaseKeyCommitment cr contentKey =
     (if length contentKey \<noteq> RELEASE_CONTENT_KEY_BYTES then Inl Fault_form
      else Inr (cr_sha256 cr (concatBytes [labelBytes RELEASE_KEY_COMMITMENT_LABEL, contentKey])))"

definition releaseContentHash :: "Crypto \<Rightarrow> bytes \<Rightarrow> bytes \<Rightarrow> bytes" where
  "releaseContentHash cr nonce ciphertext = cr_sha256 cr (concatBytes [nonce, ciphertext])"

definition encodeSealedKey :: "HybridSealed \<Rightarrow> fault + bytes" where
  "encodeSealedKey s =
     (if length (hs_ephemeralPublicKey s) \<noteq> X25519_PUBLIC_KEY_BYTES \<or>
         length (hs_kemCiphertext s) \<noteq> MLKEM768_CIPHERTEXT_BYTES \<or>
         length (hs_nonce s) \<noteq> RELEASE_NONCE_BYTES \<or> length (hs_ciphertext s) \<noteq> WRAPPED_KEY_BYTES
      then Inl Fault_form
      else Inr (concatBytes [hs_ephemeralPublicKey s, hs_kemCiphertext s, hs_nonce s, hs_ciphertext s]))"

definition decodeSealedKey :: "bytes \<Rightarrow> fault + HybridSealed" where
  "decodeSealedKey bs =
     (if length bs \<noteq> RELEASE_SEALED_KEY_BYTES then Inl Fault_form
      else let r1 = drop X25519_PUBLIC_KEY_BYTES bs; r2 = drop MLKEM768_CIPHERTEXT_BYTES r1; r3 = drop RELEASE_NONCE_BYTES r2
           in Inr \<lparr>hs_ephemeralPublicKey = take X25519_PUBLIC_KEY_BYTES bs,
                   hs_kemCiphertext = take MLKEM768_CIPHERTEXT_BYTES r1,
                   hs_nonce = take RELEASE_NONCE_BYTES r2, hs_ciphertext = take WRAPPED_KEY_BYTES r3\<rparr>)"

section \<open>What the parsers accept\<close>

definition fingerprint_text :: "string \<Rightarrow> bool" where
  "fingerprint_text s \<longleftrightarrow> (\<exists>bs. s = toHex bs \<and> length bs = 32)"

definition base64_of :: "nat \<Rightarrow> string \<Rightarrow> bool" where
  "base64_of n s \<longleftrightarrow> (\<exists>bs. s = toBase64 bs \<and> length bs = n)"

definition header_wf :: "ReleaseHeader \<Rightarrow> bool" where
  "header_wf h \<longleftrightarrow>
     RELEASE_ID_PATTERN (rh_releaseId h) \<and> RELEASE_ACCOUNT_ID_PATTERN (rh_ownerAccountId h) \<and>
     fingerprint_text (rh_ownerFingerprint h) \<and> base64_of 12 (rh_contentNonce h) \<and>
     (base64_of 1040 (rh_contentCiphertext h) \<or> base64_of 16400 (rh_contentCiphertext h) \<or>
      base64_of 262160 (rh_contentCiphertext h)) \<and>
     base64_of 32 (rh_keyCommitment h)"

definition copy_wf :: "ReleaseCopy \<Rightarrow> bool" where
  "copy_wf c \<longleftrightarrow>
     RELEASE_ACCOUNT_ID_PATTERN (rc_recipientAccountId c) \<and> fingerprint_text (rc_recipientFingerprint c) \<and>
     (\<exists>sealed. rc_sealedKey c = toBase64 sealed \<and> length sealed = 1180 \<and> x25519KeyIsCanonical (take 32 sealed)) \<and>
     (\<exists>signature. rc_signature c = toBase64 signature \<and> ed25519SignatureIsAcceptable signature)"

definition envelope_wf :: "ReleaseEnvelope \<Rightarrow> bool" where
  "envelope_wf e \<longleftrightarrow>
     header_wf (re_header e) \<and> list_all copy_wf (re_copies e) \<and>
     2 \<le> length (re_copies e) \<and> length (re_copies e) \<le> 65 \<and>
     distinct (map rc_recipientAccountId (re_copies e)) \<and>
     (\<exists>c \<in> set (re_copies e). rc_recipientAccountId c = rh_ownerAccountId (re_header e)) \<and>
     list_all (\<lambda>c. rc_recipientAccountId c = rh_ownerAccountId (re_header e) \<longrightarrow>
                   rc_recipientFingerprint c = rh_ownerFingerprint (re_header e)) (re_copies e)"

lemma sealed_length [simp]: "RELEASE_SEALED_KEY_BYTES = 1180"
  by (simp add: release_lengths)

lemma isFingerprint_iff: "isFingerprint v \<longleftrightarrow> (\<exists>s. v = JString s \<and> fingerprint_text s)"
  by (auto simp: isFingerprint_def fromHex_iff fingerprint_text_def RELEASE_FINGERPRINT_BYTES_def)

lemma isAccountId_iff: "isAccountId v \<longleftrightarrow> (\<exists>s. v = JString s \<and> RELEASE_ACCOUNT_ID_PATTERN s)"
  by (cases v) (auto simp: isAccountId_def)

lemma canonical_base64_of:
  "0 < n \<Longrightarrow> decodeCanonicalBase64 v (Some n) \<noteq> None \<longleftrightarrow> (\<exists>s. v = JString s \<and> base64_of n s)"
  by (auto simp: canonical_32 base64_of_def)

lemma canonical_refused:
  assumes "0 < n"
  shows "(case decodeCanonicalBase64 v (Some n) of None \<Rightarrow> True | Some b \<Rightarrow> \<not> P b) \<longleftrightarrow>
     \<not> (\<exists>b. v = JString (toBase64 b) \<and> length b = n \<and> P b)"
proof -
  have "(case decodeCanonicalBase64 v (Some n) of None \<Rightarrow> True | Some b \<Rightarrow> \<not> P b) \<longleftrightarrow>
      \<not> (\<exists>b. decodeCanonicalBase64 v (Some n) = Some b \<and> P b)"
    by (cases "decodeCanonicalBase64 v (Some n)") simp_all
  then show ?thesis unfolding canonical_32 using assms by auto
qed

lemma padded_sizes: "releaseContentCiphertextIsPadded n \<longleftrightarrow> n = 1040 \<or> n = 16400 \<or> n = 262160"
  by (auto simp: releaseContentCiphertextIsPadded_def RELEASE_PADDED_SIZES_def BUCKETS_def GCM_TAG_BYTES_def)

lemma header_content_ok:
  "\<not> header_content_problem v \<longleftrightarrow>
     (\<exists>s. v = JString s \<and> (base64_of 1040 s \<or> base64_of 16400 s \<or> base64_of 262160 s))"
proof (cases v)
  case (JString s)
  have "\<not> header_content_problem (JString s) \<longleftrightarrow>
      length s \<le> MAX_CIPHERTEXT_BASE64 \<and>
      (\<exists>c. decodeCanonicalBase64 (JString s) None = Some c \<and> releaseContentCiphertextIsPadded (length c))"
    by (auto simp: header_content_problem_def split: option.splits)
  also have "\<dots> \<longleftrightarrow> (\<exists>c. s = toBase64 c \<and> releaseContentCiphertextIsPadded (length c))"
  proof -
    have "length (toBase64 c) \<le> MAX_CIPHERTEXT_BASE64 \<and> c \<noteq> []" if "releaseContentCiphertextIsPadded (length c)" for c
      using that by (auto simp: padded_sizes length_toBase64 base64Length_def MAX_CIPHERTEXT_BASE64_def
          MAX_CIPHERTEXT_BYTES_def RELEASE_PADDED_SIZES_def BUCKETS_def GCM_TAG_BYTES_def)
    then show ?thesis by (auto simp: decodeCanonicalBase64_iff)
  qed
  finally show ?thesis by (auto simp: JString base64_of_def padded_sizes)
qed (simp_all add: header_content_problem_def)

text \<open>An object with the fields of a header, in any order.\<close>

definition carries_fields :: "js_value \<Rightarrow> string list \<Rightarrow> (string \<times> js_value) list \<Rightarrow> bool" where
  "carries_fields v names kvs' \<longleftrightarrow> (\<exists>kvs. v = JObject kvs \<and> hasExactly kvs names \<and>
     list_all (\<lambda>f. js_field kvs f = js_field kvs' f) names)"

lemma parseReleaseHeader_iff:
  "parseReleaseHeader v = Inr h \<longleftrightarrow> carries_fields v HEADER_FIELDS (header_fields h) \<and> header_wf h"
proof (cases v)
  case (JObject kvs)
  define rid oid ofp nonce ct com where "rid = js_field kvs ''releaseId''" and "oid = js_field kvs ''ownerAccountId''"
    and "ofp = js_field kvs ''ownerFingerprint''" and "nonce = js_field kvs ''contentNonce''"
    and "ct = js_field kvs ''contentCiphertext''" and "com = js_field kvs ''keyCommitment''"
  note f = rid_def oid_def ofp_def nonce_def ct_def com_def
  have r: "(case rid of JString s \<Rightarrow> RELEASE_ID_PATTERN s | _ \<Rightarrow> False) \<longleftrightarrow> (\<exists>s. rid = JString s \<and> RELEASE_ID_PATTERN s)"
    by (cases rid) simp_all
  have n: "decodeCanonicalBase64 nonce (Some RELEASE_NONCE_BYTES) \<noteq> None \<longleftrightarrow> (\<exists>s. nonce = JString s \<and> base64_of 12 s)"
    unfolding RELEASE_NONCE_BYTES_def by (rule canonical_base64_of) simp
  have k: "decodeCanonicalBase64 com (Some RELEASE_KEY_COMMITMENT_BYTES) \<noteq> None \<longleftrightarrow> (\<exists>s. com = JString s \<and> base64_of 32 s)"
    unfolding RELEASE_KEY_COMMITMENT_BYTES_def by (rule canonical_base64_of) simp
  have "parseReleaseHeader v = Inr h \<longleftrightarrow>
      hasExactly kvs HEADER_FIELDS \<and> js_field kvs ''v'' = JNumber (Fin (of_int RELEASE_ENVELOPE_VERSION)) \<and>
      (\<exists>s. rid = JString s \<and> RELEASE_ID_PATTERN s) \<and> isAccountId oid \<and> isFingerprint ofp \<and>
      decodeCanonicalBase64 nonce (Some RELEASE_NONCE_BYTES) \<noteq> None \<and> \<not> header_content_problem ct \<and>
      decodeCanonicalBase64 com (Some RELEASE_KEY_COMMITMENT_BYTES) \<noteq> None \<and>
      h = \<lparr>rh_releaseId = as_string rid, rh_ownerAccountId = as_string oid, rh_ownerFingerprint = as_string ofp,
           rh_contentNonce = as_string nonce, rh_contentCiphertext = as_string ct, rh_keyCommitment = as_string com\<rparr>"
    unfolding parseReleaseHeader_def JObject r [symmetric] by (simp add: f eq_commute [of h])
  also have "\<dots> \<longleftrightarrow> carries_fields v HEADER_FIELDS (header_fields h) \<and> header_wf h"
    unfolding n k isAccountId_iff isFingerprint_iff header_content_ok header_wf_def carries_fields_def JObject
    by (cases h) (auto simp: HEADER_FIELDS_def header_fields_def js_field_def f [unfolded js_field_def])
  finally show ?thesis .
qed (simp_all add: parseReleaseHeader_def carries_fields_def)

definition copy_fields :: "ReleaseCopy \<Rightarrow> (string \<times> js_value) list" where
  "copy_fields c =
     [(''recipientAccountId'', JString (rc_recipientAccountId c)),
      (''recipientFingerprint'', JString (rc_recipientFingerprint c)),
      (''sealedKey'', JString (rc_sealedKey c)), (''signature'', JString (rc_signature c))]"

lemma parseReleaseCopy_iff:
  "parseReleaseCopy v = Inr c \<longleftrightarrow> carries_fields v COPY_FIELDS (copy_fields c) \<and> copy_wf c"
proof (cases v)
  case (JObject kvs)
  define rid rfp key sig where "rid = js_field kvs ''recipientAccountId''" and "rfp = js_field kvs ''recipientFingerprint''"
    and "key = js_field kvs ''sealedKey''" and "sig = js_field kvs ''signature''"
  note f = rid_def rfp_def key_def sig_def
  have k: "(case decodeCanonicalBase64 key (Some RELEASE_SEALED_KEY_BYTES) of None \<Rightarrow> True
        | Some sealedKey \<Rightarrow> \<not> x25519KeyIsCanonical (take X25519_PUBLIC_KEY_BYTES sealedKey)) \<longleftrightarrow>
      \<not> (\<exists>sealed. key = JString (toBase64 sealed) \<and> length sealed = 1180 \<and> x25519KeyIsCanonical (take 32 sealed))"
    unfolding sealed_length X25519_PUBLIC_KEY_BYTES_def by (rule canonical_refused) simp
  have g: "(case decodeCanonicalBase64 sig (Some ED25519_SIGNATURE_BYTES) of None \<Rightarrow> True
        | Some signature \<Rightarrow> \<not> ed25519SignatureIsAcceptable signature) \<longleftrightarrow>
      \<not> (\<exists>signature. sig = JString (toBase64 signature) \<and> ed25519SignatureIsAcceptable signature)"
    unfolding ED25519_SIGNATURE_BYTES_def using canonical_refused [where n = 64 and v = sig and P = ed25519SignatureIsAcceptable]
    by (metis key_form_lengths(4) zero_less_numeral)
  have "parseReleaseCopy v = Inr c \<longleftrightarrow>
      hasExactly kvs COPY_FIELDS \<and> isAccountId rid \<and> isFingerprint rfp \<and>
      (\<exists>sealed. key = JString (toBase64 sealed) \<and> length sealed = 1180 \<and> x25519KeyIsCanonical (take 32 sealed)) \<and>
      (\<exists>signature. sig = JString (toBase64 signature) \<and> ed25519SignatureIsAcceptable signature) \<and>
      c = \<lparr>rc_recipientAccountId = as_string rid, rc_recipientFingerprint = as_string rfp,
           rc_sealedKey = as_string key, rc_signature = as_string sig\<rparr>"
    unfolding parseReleaseCopy_def JObject js_value.case f [symmetric] k g not_not by auto
  also have "\<dots> \<longleftrightarrow> carries_fields v COPY_FIELDS (copy_fields c) \<and> copy_wf c"
    unfolding isAccountId_iff isFingerprint_iff copy_wf_def carries_fields_def JObject
    by (cases c) (auto simp: COPY_FIELDS_def copy_fields_def js_field_def f [unfolded js_field_def])
  finally show ?thesis .
qed (simp_all add: parseReleaseCopy_def carries_fields_def)

lemma carries_copy_unique: "carries_fields (copy_object c) COPY_FIELDS (copy_fields d) \<longleftrightarrow> c = d"
  by (cases c; cases d)
    (auto simp: carries_fields_def copy_object_def copy_fields_def hasExactly_def COPY_FIELDS_def js_field_def)

lemma carries_header_unique: "carries_fields (header_object h) HEADER_FIELDS (header_fields g) \<longleftrightarrow> h = g"
  by (cases h; cases g)
    (auto simp: carries_fields_def header_object_def header_fields_def hasExactly_def HEADER_FIELDS_def js_field_def)

lemma parse_own_header [simp]: "header_wf h \<Longrightarrow> parseReleaseHeader (header_object h) = Inr h"
  by (simp add: parseReleaseHeader_iff carries_header_unique)

lemma parse_own_copy [simp]: "copy_wf c \<Longrightarrow> parseReleaseCopy (copy_object c) = Inr c"
  by (simp add: parseReleaseCopy_iff carries_copy_unique)

section \<open>Envelopes\<close>

definition owner_copies :: "ReleaseHeader \<Rightarrow> ReleaseCopy list \<Rightarrow> nat" where
  "owner_copies h cs = length (filter (\<lambda>c. rc_recipientAccountId c = rh_ownerAccountId h) cs)"

lemma parse_copies_iff:
  "parse_copies h seen n entries = Inr (cs, m) \<longleftrightarrow>
     list_all2 (\<lambda>v c. parseReleaseCopy v = Inr c) entries cs \<and>
     distinct (map rc_recipientAccountId cs) \<and> set (map rc_recipientAccountId cs) \<inter> set seen = {} \<and>
     list_all (\<lambda>c. rc_recipientAccountId c = rh_ownerAccountId h \<longrightarrow> rc_recipientFingerprint c = rh_ownerFingerprint h) cs \<and>
     m = n + owner_copies h cs"
proof (induction entries arbitrary: seen n cs m)
  case Nil
  then show ?case by (auto simp: owner_copies_def)
next
  case (Cons entry entries)
  show ?case
  proof (cases "parseReleaseCopy entry")
    case (Inl p)
    then show ?thesis by (cases cs) auto
  next
    case (Inr c)
    have "parse_copies h seen n (entry # entries) = Inr (cs, m) \<longleftrightarrow>
        rc_recipientAccountId c \<notin> set seen \<and>
        (rc_recipientAccountId c = rh_ownerAccountId h \<longrightarrow> rc_recipientFingerprint c = rh_ownerFingerprint h) \<and>
        (\<exists>cs'. cs = c # cs' \<and> parse_copies h (rc_recipientAccountId c # seen)
            (if rc_recipientAccountId c = rh_ownerAccountId h then n + 1 else n) entries = Inr (cs', m))"
      using Inr by auto
    then show ?thesis unfolding Cons.IH using Inr by (cases cs) (auto simp: owner_copies_def)
  qed
qed

lemma owner_copies_one:
  assumes "distinct (map rc_recipientAccountId cs)"
  shows "owner_copies h cs = 1 \<longleftrightarrow> (\<exists>c \<in> set cs. rc_recipientAccountId c = rh_ownerAccountId h)"
  using assms
proof (induction cs)
  case (Cons c cs)
  have "owner_copies h cs = 0" if "rc_recipientAccountId c = rh_ownerAccountId h"
    using Cons.prems that by (force simp: owner_copies_def filter_empty_conv)
  with Cons show ?case by (auto simp: owner_copies_def)
qed (simp add: owner_copies_def)

lemma header_input:
  "parseReleaseHeader (JObject (map (\<lambda>f. (f, js_field kvs f)) HEADER_FIELDS)) = Inr h \<longleftrightarrow>
     list_all (\<lambda>f. js_field kvs f = js_field (header_fields h) f) HEADER_FIELDS \<and> header_wf h"
  unfolding parseReleaseHeader_iff carries_fields_def
  by (simp add: hasExactly_def HEADER_FIELDS_def js_field_def)

lemma parseReleaseEnvelope_wf: "parseReleaseEnvelope v = Inr e \<Longrightarrow> envelope_wf e"
proof (cases v)
  case (JObject kvs)
  assume p: "parseReleaseEnvelope v = Inr e"
  then obtain h where h: "parseReleaseHeader (JObject (map (\<lambda>f. (f, js_field kvs f)) HEADER_FIELDS)) = Inr h"
    by (auto simp: parseReleaseEnvelope_def JObject split: if_splits)
  with p obtain vs where vs: "js_field kvs ''copies'' = JArray vs"
    by (cases "js_field kvs ''copies''") (auto simp: parseReleaseEnvelope_def JObject split: if_splits)
  with p h obtain cs where cs: "parse_copies h [] 0 vs = Inr (cs, 1)" "2 \<le> length vs" "length vs \<le> 65"
      "e = \<lparr>re_header = h, re_copies = cs\<rparr>"
    by (auto simp: parseReleaseEnvelope_def JObject RELEASE_MAX_COPIES_def RELEASE_MAX_RECIPIENTS_def split: if_splits)
  have hw: "header_wf h" using h unfolding header_input by simp
  note c = cs(1) [unfolded parse_copies_iff]
  have l: "length cs = length vs" using c list_all2_lengthD by metis
  have "list_all copy_wf cs"
    using c by (auto simp: list_all2_conv_all_nth list_all_length parseReleaseCopy_iff)
  moreover have "\<exists>c \<in> set cs. rc_recipientAccountId c = rh_ownerAccountId h"
    using c owner_copies_one [of cs h] by auto
  ultimately show ?thesis using c cs(2,3) l hw by (simp add: envelope_wf_def cs(4))
qed (simp_all add: parseReleaseEnvelope_def)

lemma parse_own_envelope: "envelope_wf e \<Longrightarrow> parseReleaseEnvelope (envelope_object e) = Inr e"
proof -
  assume w: "envelope_wf e"
  define kvs where "kvs = header_fields (re_header e) @ [(''copies'', JArray (map copy_object (re_copies e)))]"
  have x: "hasExactly kvs ENVELOPE_FIELDS"
    by (simp add: kvs_def hasExactly_def header_fields_def ENVELOPE_FIELDS_def HEADER_FIELDS_def)
  have h: "parseReleaseHeader (JObject (map (\<lambda>f. (f, js_field kvs f)) HEADER_FIELDS)) = Inr (re_header e)"
    using w unfolding header_input by (simp add: envelope_wf_def kvs_def HEADER_FIELDS_def header_fields_def js_field_def)
  have c: "js_field kvs ''copies'' = JArray (map copy_object (re_copies e))"
    by (simp add: kvs_def header_fields_def js_field_def)
  have "parse_copies (re_header e) [] 0 (map copy_object (re_copies e)) = Inr (re_copies e, 1)"
    unfolding parse_copies_iff using w owner_copies_one [of "re_copies e" "re_header e"]
    by (auto simp: envelope_wf_def list_all2_conv_all_nth list_all_length)
  then show ?thesis
    using w x h c unfolding parseReleaseEnvelope_def envelope_object_def kvs_def [symmetric]
    by (simp add: envelope_wf_def RELEASE_MAX_COPIES_def RELEASE_MAX_RECIPIENTS_def)
qed

section \<open>The byte strings determine their fields\<close>

lemma release_id_ascii:
  assumes "RELEASE_ID_PATTERN s"
  shows "ascii s" "length s = 36"
proof -
  show l: "length s = 36" using assms by (simp add: RELEASE_ID_PATTERN_def)
  have "(of_char (s ! i) :: nat) < 128" if "i < 36" for i
  proof -
    have h: "is_hex c \<Longrightarrow> (of_char c :: nat) < 128" for c by (auto simp: is_hex_def is_digit_def)
    from that have "i \<in> set [0..<36]" by simp
    with assms have "if i \<in> {8, 13, 18, 23} then s ! i = CHR ''-'' else if i = 14 then s ! i = CHR ''4''
        else if i = 19 then s ! i \<in> set ''89ab'' else is_hex (s ! i)"
      unfolding RELEASE_ID_PATTERN_def list_all_iff by blast
    then show ?thesis using h by (auto split: if_splits)
  qed
  with l show "ascii s" by (simp add: ascii_def list_all_length)
qed

lemma asciiField_Inr:
  "asciiField v pattern = Inr b \<longleftrightarrow> pattern v \<and> lengthPrefixed (utf8Encode (units v)) = Inr b"
  by (simp add: asciiField_def)

lemma asciiField_inject:
  assumes "asciiField v p = Inr a" "asciiField w p = Inr b" "a @ x = b @ y" "\<And>s. p s \<Longrightarrow> ascii s"
  shows "v = w" "x = y"
proof -
  from assms have "lengthPrefixed (utf8Encode (units v)) = Inr a" "lengthPrefixed (utf8Encode (units w)) = Inr b"
    and vw: "ascii v" "ascii w" by (auto simp: asciiField_Inr)
  note l = lengthPrefixed_inject [OF this(1,2) assms(3)]
  show "x = y" by (rule l(2))
  show "v = w" using l(1) utf8Encode_ascii_inject [OF vw] by simp
qed

lemma fingerprintField_Inr: "fingerprintField v = Inr b \<longleftrightarrow> v = toHex b \<and> length b = 32"
proof -
  have "fingerprintField v = Inr b \<longleftrightarrow> fromHex (JString v) RELEASE_FINGERPRINT_BYTES = Some b"
    by (auto simp: fingerprintField_def split: option.splits)
  then show ?thesis by (simp add: fromHex_iff RELEASE_FINGERPRINT_BYTES_def)
qed

lemma contextBytes_Inr:
  "contextBytes c = Inr b \<longleftrightarrow>
     (\<exists>r ow fo re fr. asciiField (cx_releaseId c) RELEASE_ID_PATTERN = Inr r \<and>
        asciiField (cx_ownerAccountId c) RELEASE_ACCOUNT_ID_PATTERN = Inr ow \<and>
        cx_ownerFingerprint c = toHex fo \<and> length fo = 32 \<and>
        asciiField (cx_recipientAccountId c) RELEASE_ACCOUNT_ID_PATTERN = Inr re \<and>
        cx_recipientFingerprint c = toHex fr \<and> length fr = 32 \<and> b = r @ ow @ fo @ re @ fr)"
  unfolding contextBytes_def by (simp add: fingerprintField_Inr concatBytes_def) blast

lemma contextBytes_inject:
  assumes "contextBytes c = Inr a" "contextBytes d = Inr b" "a @ x = b @ y"
  shows "c = d" "x = y"
proof -
  obtain r ow fo re fr where c: "asciiField (cx_releaseId c) RELEASE_ID_PATTERN = Inr r"
      "asciiField (cx_ownerAccountId c) RELEASE_ACCOUNT_ID_PATTERN = Inr ow" "cx_ownerFingerprint c = toHex fo"
      "length fo = 32" "asciiField (cx_recipientAccountId c) RELEASE_ACCOUNT_ID_PATTERN = Inr re"
      "cx_recipientFingerprint c = toHex fr" "length fr = 32" "a = r @ ow @ fo @ re @ fr"
    using assms(1) unfolding contextBytes_Inr by blast
  obtain r' ow' fo' re' fr' where d: "asciiField (cx_releaseId d) RELEASE_ID_PATTERN = Inr r'"
      "asciiField (cx_ownerAccountId d) RELEASE_ACCOUNT_ID_PATTERN = Inr ow'" "cx_ownerFingerprint d = toHex fo'"
      "length fo' = 32" "asciiField (cx_recipientAccountId d) RELEASE_ACCOUNT_ID_PATTERN = Inr re'"
      "cx_recipientFingerprint d = toHex fr'" "length fr' = 32" "b = r' @ ow' @ fo' @ re' @ fr'"
    using assms(2) unfolding contextBytes_Inr by blast
  have e: "r @ (ow @ fo @ re @ fr @ x) = r' @ (ow' @ fo' @ re' @ fr' @ y)" using assms(3) c(8) d(8) by simp
  note 1 = asciiField_inject [OF c(1) d(1) e release_id_ascii(1)]
  note 2 = asciiField_inject [OF c(2) d(2) 1(2) account_id_ascii(1)]
  have 3: "fo = fo'" "re @ fr @ x = re' @ fr' @ y" using 2(2) c(4) d(4) by auto
  note 4 = asciiField_inject [OF c(5) d(5) 3(2) account_id_ascii(1)]
  have 5: "fr = fr'" "x = y" using 4(2) c(7) d(7) by auto
  show "x = y" by (rule 5(2))
  show "c = d" using 1(1) 2(1) 3(1) 4(1) 5(1) c(3,6) d(3,6) by (cases c; cases d) simp
qed

lemma release_label_texts:
  "label_text RELEASE_SEAL_LABEL" "label_text RELEASE_SEAL_SIGNATURE_LABEL" "label_text RELEASE_KEY_COMMITMENT_LABEL"
  "label_text RELEASE_CONTENT_LABEL" "label_text RELEASE_KEY_CHECK_LABEL"
  by (simp_all add: label_text_def ascii_def release_labels)

lemma releaseCopySignedBytes_Inr:
  "releaseCopySignedBytes c hash com key = Inr b \<longleftrightarrow>
     length hash = 32 \<and> length com = 32 \<and> length key = 1180 \<and>
     (\<exists>cb. contextBytes c = Inr cb \<and> b = labelBytes RELEASE_SEAL_SIGNATURE_LABEL @ cb @ hash @ com @ key)"
  by (auto simp: releaseCopySignedBytes_def concatBytes_def RELEASE_KEY_COMMITMENT_BYTES_def)

lemma releaseCopySignedBytes_inject:
  assumes "releaseCopySignedBytes c hash com key = Inr b" "releaseCopySignedBytes c' hash' com' key' = Inr b"
  shows "c = c' \<and> hash = hash' \<and> com = com' \<and> key = key'"
proof -
  obtain cb cb' where b: "contextBytes c = Inr cb" "contextBytes c' = Inr cb'"
      "cb @ (hash @ com @ key) = cb' @ (hash' @ com' @ key')"
      "length hash = 32" "length com = 32" "length hash' = 32" "length com' = 32"
    using assms unfolding releaseCopySignedBytes_Inr by auto
  from contextBytes_inject [OF b(1,2,3)] b(4-) show ?thesis by auto
qed

lemma decode_encodeSealedKey: "encodeSealedKey s = Inr b \<longleftrightarrow> decodeSealedKey b = Inr s"
proof
  assume "encodeSealedKey s = Inr b"
  then show "decodeSealedKey b = Inr s"
    by (auto simp: encodeSealedKey_def decodeSealedKey_def release_lengths concatBytes_def split: if_splits)
next
  assume d: "decodeSealedKey b = Inr s"
  then have l: "length b = 1180" by (auto simp: decodeSealedKey_def split: if_splits)
  have "take 32 b @ take 1088 (drop 32 b) @ take 12 (drop 1120 b) @ take 48 (drop 1132 b) = b"
  proof -
    have "take 48 (drop 1132 b) = drop 1132 b" using l by simp
    moreover have "take 12 (drop 1120 b) @ drop 1132 b = drop 1120 b"
      using append_take_drop_id [of 12 "drop 1120 b"] by simp
    moreover have "take 1088 (drop 32 b) @ drop 1120 b = drop 32 b"
      using append_take_drop_id [of 1088 "drop 32 b"] by simp
    ultimately show ?thesis by simp
  qed
  with d l show "encodeSealedKey s = Inr b"
    by (auto simp: encodeSealedKey_def decodeSealedKey_def release_lengths concatBytes_def split: if_splits)
qed

end
