(* ===== verification/Release_Envelope.thy ===== *)
theory Release_Envelope
  imports Release_Format
begin

text \<open>
  Making, verifying, opening and re-sealing releases
  (\<^verbatim>\<open>packages/blackout-protocol/src/release/envelope.ts\<close>, second half). The
  cryptography is the record \<open>Crypto\<close>, with the import of an AES key as part of
  the call that uses it; everything random is an argument. A rejected promise is
  an \<open>Inl\<close> of \<open>fault\<close>; a result of the form
  \<^verbatim>\<open>{ ok: false, problem }\<close> is a value. Clearing buffers is left out.
\<close>

section \<open>Content\<close>

definition encodeReleaseMessage :: "js_text \<Rightarrow> fault + bytes" where
  "encodeReleaseMessage text' =
     (if text' = [] then Inl (Fault_release Err_message)
      else let bs = utf8Encode text'
           in if length bs > RELEASE_MESSAGE_MAX_BYTES then Inl (Fault_release Err_message) else Inr bs)"

definition encryptReleaseContentWith ::
    "Crypto \<Rightarrow> (nat \<Rightarrow> bytes) \<Rightarrow> js_text \<Rightarrow> string \<Rightarrow> string \<Rightarrow> bytes \<Rightarrow> bytes \<Rightarrow> fault + bytes \<times> bytes" where
  "encryptReleaseContentWith cr randomBytes text' releaseId ownerAccountId contentKey nonce =
     (if length contentKey \<noteq> RELEASE_CONTENT_KEY_BYTES \<or> length nonce \<noteq> RELEASE_NONCE_BYTES then Inl Fault_form
      else and_then (encodeReleaseMessage text') (\<lambda>message.
           and_then (thrown Fault_padding (pad randomBytes message Pad_bucket)) (\<lambda>(padded, _).
           and_then (releaseContentAssociatedData releaseId ownerAccountId) (\<lambda>associated.
           and_then (thrown Fault_crypto (cr_aesEncrypt cr contentKey nonce associated padded)) (\<lambda>ciphertext.
             Inr (nonce, ciphertext))))))"

definition decryptReleaseContent :: "Crypto \<Rightarrow> ReleaseHeader \<Rightarrow> bytes \<Rightarrow> fault + js_text" where
  "decryptReleaseContent cr input contentKey =
     (case parseReleaseHeader (header_object input) of
        Inl _ \<Rightarrow> Inl Fault_form
      | Inr header \<Rightarrow>
          (case (decodeCanonicalBase64 (JString (rh_contentNonce header)) (Some RELEASE_NONCE_BYTES),
                 decodeCanonicalBase64 (JString (rh_contentCiphertext header)) None) of
             (Some nonce, Some ciphertext) \<Rightarrow>
               and_then (releaseContentAssociatedData (rh_releaseId header) (rh_ownerAccountId header)) (\<lambda>associated.
               and_then (thrown Fault_crypto (cr_aesDecrypt cr contentKey nonce associated ciphertext)) (\<lambda>padded.
               and_then (thrown Fault_padding (unpad padded)) (\<lambda>bs.
                 if bs = [] \<or> length bs > RELEASE_MESSAGE_MAX_BYTES then Inl Fault_form
                 else case fatalUtf8 bs of None \<Rightarrow> Inl Fault_form | Some text' \<Rightarrow> Inr text')))
           | _ \<Rightarrow> Inl Fault_form))"

section \<open>Sealing one copy\<close>

definition assertMlKem768 :: "Crypto \<Rightarrow> fault + unit" where
  "assertMlKem768 cr =
     (if kp_publicKeyLength (cr_kem cr) \<noteq> MLKEM768_PUBLIC_KEY_BYTES \<or>
         kp_ciphertextLength (cr_kem cr) \<noteq> MLKEM768_CIPHERTEXT_BYTES \<or>
         kp_secretKeyLength (cr_kem cr) \<noteq> MLKEM768_SECRET_KEY_BYTES
      then Inl (Fault_release Err_kem_provider) else Inr ())"

definition headerBytes :: "Crypto \<Rightarrow> ReleaseHeader \<Rightarrow> fault + bytes \<times> bytes" where
  "headerBytes cr header =
     (case (decodeCanonicalBase64 (JString (rh_contentNonce header)) (Some RELEASE_NONCE_BYTES),
            decodeCanonicalBase64 (JString (rh_contentCiphertext header)) None,
            decodeCanonicalBase64 (JString (rh_keyCommitment header)) (Some RELEASE_KEY_COMMITMENT_BYTES)) of
        (Some nonce, Some ciphertext, Some keyCommitment) \<Rightarrow> Inr (releaseContentHash cr nonce ciphertext, keyCommitment)
      | _ \<Rightarrow> Inl Fault_form)"

definition contextFor :: "ReleaseHeader \<Rightarrow> string \<Rightarrow> string \<Rightarrow> ReleaseCopyContext" where
  "contextFor header recipientAccountId recipientFingerprint =
     \<lparr>cx_releaseId = rh_releaseId header, cx_ownerAccountId = rh_ownerAccountId header,
      cx_ownerFingerprint = rh_ownerFingerprint header, cx_recipientAccountId = recipientAccountId,
      cx_recipientFingerprint = recipientFingerprint\<rparr>"

definition verifiedRecipient :: "Crypto \<Rightarrow> seed \<Rightarrow> ReleaseIdentity \<Rightarrow> fault + ReleaseIdentity \<times> string" where
  "verifiedRecipient cr seed identity =
     and_then (verifyReleaseIdentity cr seed (publicReleaseIdentity identity) None) (\<lambda>check.
       case check of
         Identity_refused _ \<Rightarrow> Inl (Fault_release Err_recipient_identity)
       | Identity_ok verified fingerprint \<Rightarrow> Inr (verified, fingerprint))"

definition sealVerified ::
    "Crypto \<Rightarrow> ReleaseHeader \<Rightarrow> bytes \<Rightarrow> CryptoKey \<Rightarrow> ReleaseIdentity \<times> string \<Rightarrow> HybridSealRandomness \<Rightarrow> fault + ReleaseCopy" where
  "sealVerified cr header contentKey ownerSigningKey recipient randomness =
     (if length contentKey \<noteq> RELEASE_CONTENT_KEY_BYTES then Inl Fault_form
      else let context = contextFor header (ri_accountId (fst recipient)) (snd recipient)
           in and_then (importRecipientPublicKey cr (ri_x25519Key (fst recipient))) (\<lambda>recipientKey.
              and_then (releaseSealTranscript context) (\<lambda>transcript.
              and_then (hybridSealWith cr contentKey recipientKey transcript randomness) (\<lambda>sealed.
              and_then (encodeSealedKey sealed) (\<lambda>sealedKey.
              and_then (headerBytes cr header) (\<lambda>(contentHash, keyCommitment).
              and_then (releaseCopySignedBytes context contentHash keyCommitment sealedKey) (\<lambda>message.
              and_then (thrown Fault_crypto (cr_ed25519Sign cr ownerSigningKey message)) (\<lambda>signature.
                Inr \<lparr>rc_recipientAccountId = cx_recipientAccountId context,
                     rc_recipientFingerprint = cx_recipientFingerprint context,
                     rc_sealedKey = toBase64 sealedKey, rc_signature = toBase64 signature\<rparr>))))))))"

definition sealReleaseCopyWith ::
    "Crypto \<Rightarrow> seed \<Rightarrow> ReleaseHeader \<Rightarrow> bytes \<Rightarrow> ReleaseIdentity \<Rightarrow> CryptoKey \<Rightarrow> HybridSealRandomness \<Rightarrow> fault + ReleaseCopy" where
  "sealReleaseCopyWith cr seed header contentKey recipient ownerSigningKey randomness =
     and_then (verifiedRecipient cr seed recipient) (\<lambda>verified.
       sealVerified cr header contentKey ownerSigningKey verified randomness)"

definition sealReleaseCopy ::
    "Crypto \<Rightarrow> seed \<times> SealDraws \<Rightarrow> ReleaseHeader \<Rightarrow> bytes \<Rightarrow> ReleaseIdentity \<Rightarrow> CryptoKey \<Rightarrow> fault + ReleaseCopy" where
  "sealReleaseCopy cr draws header contentKey recipient ownerSigningKey =
     and_then (assertMlKem768 cr) (\<lambda>_.
     and_then (verifiedRecipient cr (fst draws) recipient) (\<lambda>verified.
       case decodeCanonicalBase64 (JString (ri_mlkem768Key (fst verified))) (Some MLKEM768_PUBLIC_KEY_BYTES) of
         None \<Rightarrow> Inl (Fault_release Err_recipient_identity)
       | Some mlkemKey \<Rightarrow>
           and_then (thrown Fault_crypto (cr_x25519Generate cr (sd_ephemeral (snd draws)))) (\<lambda>(privateKey, publicKeyBytes).
           and_then (thrown Fault_crypto (kp_encapsulate (cr_kem cr) mlkemKey (sd_encapsulation (snd draws))))
             (\<lambda>(ciphertext, sharedSecret).
             sealVerified cr header contentKey ownerSigningKey verified
               \<lparr>hr_ephemeralPrivateKey = privateKey, hr_ephemeralPublicKey = publicKeyBytes,
                hr_kemCiphertext = ciphertext, hr_sharedSecret = sharedSecret, hr_nonce = sd_nonce (snd draws)\<rparr>))))"

section \<open>Building an envelope\<close>

record BuildDraws =
  bd_check :: CheckDraws
  bd_releaseId :: bytes
  bd_contentKey :: bytes
  bd_nonce :: bytes
  bd_padding :: "nat \<Rightarrow> bytes"
  bd_copies :: "nat \<Rightarrow> seed \<times> SealDraws"

text \<open>The loop that seals K to the owner and to each recipient, one set of draws for each.\<close>

fun seal_all ::
    "Crypto \<Rightarrow> ReleaseHeader \<Rightarrow> bytes \<Rightarrow> CryptoKey \<Rightarrow> (ReleaseIdentity \<times> seed \<times> SealDraws) list \<Rightarrow> fault + ReleaseCopy list" where
  "seal_all cr header contentKey ownerSigningKey [] = Inr []"
| "seal_all cr header contentKey ownerSigningKey ((recipient, draws) # rest) =
     and_then (sealReleaseCopy cr draws header contentKey recipient ownerSigningKey) (\<lambda>copy.
     and_then (seal_all cr header contentKey ownerSigningKey rest) (\<lambda>copies. Inr (copy # copies)))"

definition owner_key_set_ok :: "ReleaseKeySetProblem option \<Rightarrow> fault + unit" where
  "owner_key_set_ok problem =
     (case problem of
        None \<Rightarrow> Inr ()
      | Some Ks_kem_provider \<Rightarrow> Inl (Fault_release Err_kem_provider)
      | Some _ \<Rightarrow> Inl (Fault_release Err_owner_key_set))"

definition buildReleaseEnvelope ::
    "Crypto \<Rightarrow> BuildDraws \<Rightarrow> ReleaseKeySet \<Rightarrow> ReleaseIdentity list \<Rightarrow> js_text \<Rightarrow> string option \<Rightarrow> fault + ReleaseEnvelope" where
  "buildReleaseEnvelope cr draws ownerKeySet recipients message givenId =
     and_then (assertMlKem768 cr) (\<lambda>_.
     let ownerAccountId = ri_accountId (ks_identity ownerKeySet)
     in and_then (checkReleaseKeySet cr (bd_check draws) ownerKeySet (Some ownerAccountId)) (\<lambda>problem.
        and_then (owner_key_set_ok problem) (\<lambda>_.
        if length recipients < 1 \<or> length recipients > RELEASE_MAX_RECIPIENTS then Inl (Fault_release Err_recipients)
        else let accounts = remdups (map ri_accountId recipients)
             in if length accounts \<noteq> length recipients \<or> ownerAccountId \<in> set accounts
                then Inl (Fault_release Err_recipients)
                else let releaseId = (case givenId of Some rid \<Rightarrow> rid | None \<Rightarrow> newReleaseId (bd_releaseId draws));
                         contentKey = bd_contentKey draws
                     in and_then (encryptReleaseContentWith cr (bd_padding draws) message releaseId ownerAccountId
                                    contentKey (bd_nonce draws)) (\<lambda>(nonce, ciphertext).
                        and_then (releaseKeyCommitment cr contentKey) (\<lambda>commitment.
                        let header = \<lparr>rh_releaseId = releaseId, rh_ownerAccountId = ownerAccountId,
                              rh_ownerFingerprint = ks_fingerprint ownerKeySet, rh_contentNonce = toBase64 nonce,
                              rh_contentCiphertext = toBase64 ciphertext, rh_keyCommitment = toBase64 commitment\<rparr>
                        in and_then (importReleaseSigningKey cr ownerKeySet) (\<lambda>ownerSigningKey.
                           and_then (seal_all cr header contentKey ownerSigningKey
                                       (zip (ks_identity ownerKeySet # recipients)
                                          (map (bd_copies draws) [0..<Suc (length recipients)]))) (\<lambda>copies.
                           case parseReleaseEnvelope (envelope_object \<lparr>re_header = header, re_copies = copies\<rparr>) of
                             Inl _ \<Rightarrow> Inl Fault_form
                           | Inr envelope \<Rightarrow> Inr envelope)))))))"

section \<open>Verifying\<close>

datatype VerifierProblem = Vf_owner_identity | Vf_unsupported

text \<open>The check of one copy that a prepared verifier runs.\<close>

definition verify_copy :: "Crypto \<Rightarrow> ReleaseHeader \<Rightarrow> CryptoKey \<Rightarrow> bytes \<Rightarrow> bytes \<Rightarrow> ReleaseCopy \<Rightarrow> fault + bool" where
  "verify_copy cr header publicKey contentHash keyCommitment input =
     (case parseReleaseCopy (copy_object input) of
        Inl _ \<Rightarrow> Inr False
      | Inr copy \<Rightarrow>
          (case (decodeCanonicalBase64 (JString (rc_sealedKey copy)) (Some RELEASE_SEALED_KEY_BYTES),
                 decodeCanonicalBase64 (JString (rc_signature copy)) (Some ED25519_SIGNATURE_BYTES)) of
             (Some sealedKey, Some signature) \<Rightarrow>
               and_then (releaseCopySignedBytes
                   (contextFor header (rc_recipientAccountId copy) (rc_recipientFingerprint copy))
                   contentHash keyCommitment sealedKey) (\<lambda>message.
                 case cr_ed25519Verify cr publicKey signature message of
                   Inl _ \<Rightarrow> Inr False
                 | Inr valid \<Rightarrow> Inr valid)
           | _ \<Rightarrow> Inr False))"

definition releaseSignatureVerifier ::
    "Crypto \<Rightarrow> seed \<Rightarrow> ReleaseHeader \<Rightarrow> js_value \<Rightarrow> fault + (VerifierProblem + (ReleaseCopy \<Rightarrow> fault + bool))" where
  "releaseSignatureVerifier cr seed header ownerIdentity =
     and_then (verifyReleaseIdentity cr seed ownerIdentity (Some (rh_ownerAccountId header))) (\<lambda>check.
       case check of
         Identity_refused problem \<Rightarrow>
           Inr (Inl (if problem = Id_unsupported then Vf_unsupported else Vf_owner_identity))
       | Identity_ok identity fingerprint \<Rightarrow>
           if fingerprint \<noteq> rh_ownerFingerprint header then Inr (Inl Vf_owner_identity)
           else case decodeCanonicalBase64 (JString (ri_signingKey identity)) (Some 32) of
                  None \<Rightarrow> Inr (Inl Vf_owner_identity)
                | Some signingKey \<Rightarrow>
                    (case cr_ed25519Import cr signingKey of
                       Inl cause \<Rightarrow> Inr (Inl (if cause = Not_supported then Vf_unsupported else Vf_owner_identity))
                     | Inr publicKey \<Rightarrow>
                         and_then (headerBytes cr header) (\<lambda>(contentHash, keyCommitment).
                           Inr (Inr (verify_copy cr header publicKey contentHash keyCommitment)))))"

section \<open>Opening\<close>

text \<open>The tag \<^verbatim>\<open>signature\<close> of a failed verification is the one of a malformed signature.\<close>

datatype ReleaseOpenProblem =
    Op_envelope ReleaseEnvelopeProblem
  | Op_not_for_you
  | Op_no_key
  | Op_owner_identity
  | Op_zero_shared_secret
  | Op_wrap
  | Op_commitment
  | Op_content
  | Op_unsupported
  | Op_kem_provider

fun open_problem :: "VerifierProblem \<Rightarrow> ReleaseOpenProblem" where
  "open_problem Vf_owner_identity = Op_owner_identity"
| "open_problem Vf_unsupported = Op_unsupported"

definition unwrap_problem :: "fault \<Rightarrow> ReleaseOpenProblem" where
  "unwrap_problem cause =
     (if cause = Fault_zero_shared_secret then Op_zero_shared_secret
      else if cause = Fault_crypto Not_supported then Op_unsupported else Op_wrap)"

definition unwrapCopy ::
    "Crypto \<Rightarrow> seed \<Rightarrow> ReleaseHeader \<Rightarrow> ReleaseCopy \<Rightarrow> js_value \<Rightarrow> ReleaseKeySet \<Rightarrow> fault + (ReleaseOpenProblem + bytes)" where
  "unwrapCopy cr seed header copy ownerIdentity keySet =
     and_then (releaseSignatureVerifier cr seed header ownerIdentity) (\<lambda>verifier.
       case verifier of
         Inl problem \<Rightarrow> Inr (Inl (open_problem problem))
       | Inr verify \<Rightarrow>
           and_then (verify copy) (\<lambda>valid.
           if \<not> valid then Inr (Inl (Op_envelope Pr_signature))
           else case (decodeCanonicalBase64 (JString (rc_sealedKey copy)) (Some RELEASE_SEALED_KEY_BYTES),
                      decodeCanonicalBase64 (JString (ks_mlkem768SecretKey keySet)) (Some MLKEM768_SECRET_KEY_BYTES)) of
                  (Some sealedKey, Some secretKey) \<Rightarrow>
                    (case and_then (importReleaseX25519Key cr keySet) (\<lambda>privateKey.
                          and_then (decodeSealedKey sealedKey) (\<lambda>sealed.
                          and_then (releaseSealTranscript (contextFor header (rc_recipientAccountId copy)
                                      (rc_recipientFingerprint copy))) (\<lambda>transcript.
                            hybridOpen cr sealed privateKey secretKey transcript))) of
                       Inl cause \<Rightarrow> Inr (Inl (unwrap_problem cause))
                     | Inr contentKey \<Rightarrow>
                         (case decodeCanonicalBase64 (JString (rh_keyCommitment header)) (Some RELEASE_KEY_COMMITMENT_BYTES) of
                            None \<Rightarrow> Inr (Inl Op_commitment)
                          | Some commitment \<Rightarrow>
                              and_then (releaseKeyCommitment cr contentKey) (\<lambda>computed.
                                if \<not> bytesEqual computed commitment then Inr (Inl Op_commitment)
                                else Inr (Inr contentKey))))
                | _ \<Rightarrow> Inr (Inl Op_wrap)))"

record ReleaseOpened =
  ro_text :: js_text
  ro_releaseId :: string
  ro_ownerAccountId :: string
  ro_ownerFingerprint :: string
  ro_keySetFingerprint :: string

record OpenDraws =
  od_check :: CheckDraws
  od_owner :: seed

definition openReleaseCopy ::
    "Crypto \<Rightarrow> OpenDraws \<Rightarrow> js_value \<Rightarrow> js_value \<Rightarrow> js_value \<Rightarrow> string \<Rightarrow> ReleaseKeySet list \<Rightarrow>
     fault + (ReleaseOpenProblem + ReleaseOpened)" where
  "openReleaseCopy cr draws headerInput copyInput ownerIdentity recipientAccountId keySets =
     (case parseReleaseHeader headerInput of
        Inl problem \<Rightarrow> Inr (Inl (Op_envelope problem))
      | Inr header \<Rightarrow>
          (case parseReleaseCopy copyInput of
             Inl problem \<Rightarrow> Inr (Inl (Op_envelope problem))
           | Inr copy \<Rightarrow>
               if rc_recipientAccountId copy \<noteq> recipientAccountId then Inr (Inl Op_not_for_you)
               else (case find (\<lambda>candidate. ks_fingerprint candidate = rc_recipientFingerprint copy) keySets of
                       None \<Rightarrow> Inr (Inl Op_no_key)
                     | Some keySet \<Rightarrow>
                         if assertMlKem768 cr \<noteq> Inr () then Inr (Inl Op_kem_provider)
                         else and_then (checkReleaseKeySet cr (od_check draws) keySet (Some recipientAccountId)) (\<lambda>problem.
                              if problem = Some Ks_kem_provider then Inr (Inl Op_kem_provider)
                              else if problem \<noteq> None then Inr (Inl Op_no_key)
                              else and_then (unwrapCopy cr (od_owner draws) header copy ownerIdentity keySet) (\<lambda>unwrapped.
                                   case unwrapped of
                                     Inl p \<Rightarrow> Inr (Inl p)
                                   | Inr contentKey \<Rightarrow>
                                       (case decryptReleaseContent cr header contentKey of
                                          Inl _ \<Rightarrow> Inr (Inl Op_content)
                                        | Inr text' \<Rightarrow>
                                            Inr (Inr \<lparr>ro_text = text', ro_releaseId = rh_releaseId header,
                                                      ro_ownerAccountId = rh_ownerAccountId header,
                                                      ro_ownerFingerprint = rh_ownerFingerprint header,
                                                      ro_keySetFingerprint = ks_fingerprint keySet\<rparr>)))))))"

section \<open>Re-sealing\<close>

definition own_copy_fault :: "fault + 'a" where
  "own_copy_fault = Inl (Fault_release Err_own_copy)"

definition resealReleaseCopy ::
    "Crypto \<Rightarrow> OpenDraws \<Rightarrow> seed \<times> SealDraws \<Rightarrow> string \<Rightarrow> js_value \<Rightarrow> js_value \<Rightarrow> ReleaseKeySet \<Rightarrow> ReleaseIdentity \<Rightarrow>
     fault + ReleaseCopy" where
  "resealReleaseCopy cr draws sealDraws releaseId headerInput ownCopyInput owner recipient =
     and_then (assertMlKem768 cr) (\<lambda>_.
     case parseReleaseHeader headerInput of
       Inl _ \<Rightarrow> own_copy_fault
     | Inr header \<Rightarrow>
         if rh_releaseId header \<noteq> releaseId then Inl (Fault_release Err_release_mismatch)
         else (case parseReleaseCopy ownCopyInput of
                 Inl _ \<Rightarrow> own_copy_fault
               | Inr copy \<Rightarrow>
                   if ri_accountId (ks_identity owner) \<noteq> rh_ownerAccountId header \<or>
                      ks_fingerprint owner \<noteq> rh_ownerFingerprint header then Inl (Fault_release Err_owner_key_changed)
                   else if rc_recipientAccountId copy \<noteq> rh_ownerAccountId header \<or>
                           rc_recipientFingerprint copy \<noteq> rh_ownerFingerprint header then own_copy_fault
                   else if ri_accountId recipient = rh_ownerAccountId header then Inl (Fault_release Err_recipients)
                   else and_then (checkReleaseKeySet cr (od_check draws) owner (Some (rh_ownerAccountId header))) (\<lambda>problem.
                        and_then (owner_key_set_ok problem) (\<lambda>_.
                        and_then (unwrapCopy cr (od_owner draws) header copy (publicReleaseIdentity (ks_identity owner)) owner) (\<lambda>unwrapped.
                          case unwrapped of
                            Inl _ \<Rightarrow> own_copy_fault
                          | Inr contentKey \<Rightarrow>
                              (case decryptReleaseContent cr header contentKey of
                                 Inl _ \<Rightarrow> own_copy_fault
                               | Inr _ \<Rightarrow>
                                   and_then (importReleaseSigningKey cr owner) (\<lambda>ownerSigningKey.
                                     sealReleaseCopy cr sealDraws header contentKey recipient ownerSigningKey)))))))"

section \<open>Lemmas: each stage\<close>

lemma toBase64_eq [simp]: "toBase64 x = toBase64 y \<longleftrightarrow> x = y"
  by (auto dest: toBase64_inject)

lemma canonical_own [simp]:
  "length bs = n \<Longrightarrow> 0 < n \<Longrightarrow> decodeCanonicalBase64 (JString (toBase64 bs)) (Some n) = Some bs"
  "bs \<noteq> [] \<Longrightarrow> decodeCanonicalBase64 (JString (toBase64 bs)) None = Some bs"
  by (auto simp: decodeCanonicalBase64_iff)

lemma base64_of_decode:
  assumes "base64_of n s" "0 < n"
  obtains bs where "s = toBase64 bs" "length bs = n" "decodeCanonicalBase64 (JString s) (Some n) = Some bs"
    "decodeCanonicalBase64 (JString s) None = Some bs"
proof -
  from assms(1) obtain bs where "s = toBase64 bs" "length bs = n" by (auto simp: base64_of_def)
  with assms(2) that [of bs] show ?thesis by auto
qed

lemma header_decoded:
  assumes "header_wf h"
  obtains nonce ciphertext commitment where
    "decodeCanonicalBase64 (JString (rh_contentNonce h)) (Some 12) = Some nonce"
    "decodeCanonicalBase64 (JString (rh_contentCiphertext h)) None = Some ciphertext"
    "decodeCanonicalBase64 (JString (rh_keyCommitment h)) (Some 32) = Some commitment"
    "rh_contentNonce h = toBase64 nonce" "rh_contentCiphertext h = toBase64 ciphertext"
    "rh_keyCommitment h = toBase64 commitment" "length nonce = 12" "length commitment = 32"
proof -
  from assms have a: "base64_of 12 (rh_contentNonce h)" "base64_of 32 (rh_keyCommitment h)" by (simp_all add: header_wf_def)
  from assms obtain n where n: "base64_of n (rh_contentCiphertext h)" "0 < n" by (auto simp: header_wf_def)
  obtain x where x: "rh_contentNonce h = toBase64 x" "length x = 12"
      "decodeCanonicalBase64 (JString (rh_contentNonce h)) (Some 12) = Some x"
    by (rule base64_of_decode [OF a(1)]) simp
  obtain y where y: "rh_keyCommitment h = toBase64 y" "length y = 32"
      "decodeCanonicalBase64 (JString (rh_keyCommitment h)) (Some 32) = Some y"
    by (rule base64_of_decode [OF a(2)]) simp
  obtain z where z: "rh_contentCiphertext h = toBase64 z"
      "decodeCanonicalBase64 (JString (rh_contentCiphertext h)) None = Some z"
    by (rule base64_of_decode [OF n(1) n(2)])
  show thesis by (rule that [OF x(3) z(2) y(3) x(1) z(1) y(1) x(2) y(2)])
qed

text \<open>
  The specification of the signature check: the owner's identity is sound and
  has the fingerprint of the header, and its signing key verifies the signature
  of the copy over the bytes that bind release, owner, recipient, content,
  commitment and sealed key.
\<close>

definition copy_authentic :: "Crypto \<Rightarrow> seed \<Rightarrow> ReleaseHeader \<Rightarrow> js_value \<Rightarrow> ReleaseCopy \<Rightarrow> bool" where
  "copy_authentic cr seed h owner c \<longleftrightarrow>
     copy_wf c \<and>
     (\<exists>i k nonce ciphertext commitment sealed signature message.
        carries owner i \<and> ri_accountId i = rh_ownerAccountId h \<and> identity_sound cr seed i k (rh_ownerFingerprint h) \<and>
        rh_contentNonce h = toBase64 nonce \<and> rh_contentCiphertext h = toBase64 ciphertext \<and>
        rh_keyCommitment h = toBase64 commitment \<and> rc_sealedKey c = toBase64 sealed \<and> rc_signature c = toBase64 signature \<and>
        releaseCopySignedBytes (contextFor h (rc_recipientAccountId c) (rc_recipientFingerprint c))
          (releaseContentHash cr nonce ciphertext) commitment sealed = Inr message \<and>
        ed25519_check cr (kb_signingKey k) signature message = Inr True)"

lemma caught_True [simp]: "(case m of Inl _ \<Rightarrow> Inr False | Inr v \<Rightarrow> Inr v) = Inr True \<longleftrightarrow> m = Inr True"
  by (cases m) simp_all

lemma verify_copy_True:
  assumes "copy_wf c" "rc_sealedKey c = toBase64 sealed" "rc_signature c = toBase64 signature"
  shows "verify_copy cr h key hash com c = Inr True \<longleftrightarrow>
     (\<exists>message. releaseCopySignedBytes (contextFor h (rc_recipientAccountId c) (rc_recipientFingerprint c)) hash com sealed
        = Inr message \<and> cr_ed25519Verify cr key signature message = Inr True)"
proof -
  from assms have "length sealed = 1180" "ed25519SignatureIsAcceptable signature"
    by (auto simp: copy_wf_def dest: toBase64_inject)
  then have l: "length sealed = RELEASE_SEALED_KEY_BYTES" "length signature = ED25519_SIGNATURE_BYTES" "0 < ED25519_SIGNATURE_BYTES"
    using key_form_lengths(4) [of signature] by (auto simp: ED25519_SIGNATURE_BYTES_def)
  show ?thesis
    using assms l by (simp add: verify_copy_def)
qed

lemma verify_copy_wf: "verify_copy cr h key hash com c = Inr True \<Longrightarrow> copy_wf c"
  by (cases "parseReleaseCopy (copy_object c)")
    (auto simp: verify_copy_def parseReleaseCopy_iff carries_copy_unique)

lemma verifier_Inr:
  "releaseSignatureVerifier cr seed h owner = Inr (Inr verify) \<longleftrightarrow>
     (\<exists>i k key nonce ciphertext commitment.
        carries owner i \<and> ri_accountId i = rh_ownerAccountId h \<and> identity_sound cr seed i k (rh_ownerFingerprint h) \<and>
        cr_ed25519Import cr (kb_signingKey k) = Inr key \<and>
        rh_contentNonce h = toBase64 nonce \<and> length nonce = 12 \<and>
        rh_contentCiphertext h = toBase64 ciphertext \<and> ciphertext \<noteq> [] \<and>
        rh_keyCommitment h = toBase64 commitment \<and> length commitment = 32 \<and>
        verify = verify_copy cr h key (releaseContentHash cr nonce ciphertext) commitment)"
  (is "?L \<longleftrightarrow> ?R")
proof
  assume L: ?L
  obtain check where check: "verifyReleaseIdentity cr seed owner (Some (rh_ownerAccountId h)) = Inr check"
    using verifyReleaseIdentity_total by blast
  with L obtain i fp where i: "verifyReleaseIdentity cr seed owner (Some (rh_ownerAccountId h)) = Inr (Identity_ok i fp)"
    and fp: "fp = rh_ownerFingerprint h"
    by (cases check) (auto simp: releaseSignatureVerifier_def split: if_splits)
  from i obtain k where k: "carries owner i" "identity_sound cr seed i k fp" "ri_accountId i = rh_ownerAccountId h"
    unfolding verifyReleaseIdentity_iff by auto
  then have key: "ri_signingKey i = toBase64 (kb_signingKey k)" "length (kb_signingKey k) = 32"
    using key_form_lengths(1) by (auto simp: identity_sound_def key_bytes_of_def)
  then have "decodeCanonicalBase64 (JString (ri_signingKey i)) (Some 32) = Some (kb_signingKey k)" by auto
  with L i fp obtain pk where pk: "cr_ed25519Import cr (kb_signingKey k) = Inr pk"
      "and_then (headerBytes cr h) (\<lambda>(hash, com). Inr (Inr (verify_copy cr h pk hash com))) = Inr (Inr verify)"
    by (cases "cr_ed25519Import cr (kb_signingKey k)") (simp_all add: releaseSignatureVerifier_def)
  from pk(2) obtain hash com where hc: "headerBytes cr h = Inr (hash, com)" "verify = verify_copy cr h pk hash com" by auto
  from hc(1) obtain nonce ciphertext where "decodeCanonicalBase64 (JString (rh_contentNonce h)) (Some 12) = Some nonce"
      "decodeCanonicalBase64 (JString (rh_contentCiphertext h)) None = Some ciphertext"
      "decodeCanonicalBase64 (JString (rh_keyCommitment h)) (Some 32) = Some com" "hash = releaseContentHash cr nonce ciphertext"
    by (auto simp: headerBytes_def release_lengths split: option.splits)
  then show ?R using k fp pk(1) hc(2) unfolding decodeCanonicalBase64_iff by auto
next
  assume ?R
  then obtain i k key nonce ciphertext commitment where r: "carries owner i" "ri_accountId i = rh_ownerAccountId h"
      "identity_sound cr seed i k (rh_ownerFingerprint h)" "cr_ed25519Import cr (kb_signingKey k) = Inr key"
      "rh_contentNonce h = toBase64 nonce" "length nonce = 12" "rh_contentCiphertext h = toBase64 ciphertext" "ciphertext \<noteq> []"
      "rh_keyCommitment h = toBase64 commitment" "length commitment = 32"
      "verify = verify_copy cr h key (releaseContentHash cr nonce ciphertext) commitment" by blast
  have v: "verifyReleaseIdentity cr seed owner (Some (rh_ownerAccountId h)) = Inr (Identity_ok i (rh_ownerFingerprint h))"
    unfolding verifyReleaseIdentity_iff using r by auto
  have "ri_signingKey i = toBase64 (kb_signingKey k)" "length (kb_signingKey k) = 32"
    using r(3) key_form_lengths(1) by (auto simp: identity_sound_def key_bytes_of_def)
  then have "decodeCanonicalBase64 (JString (ri_signingKey i)) (Some 32) = Some (kb_signingKey k)" by auto
  moreover have "headerBytes cr h = Inr (releaseContentHash cr nonce ciphertext, commitment)"
    using r by (auto simp: headerBytes_def release_lengths)
  ultimately show ?L using v r(4,11) by (simp add: releaseSignatureVerifier_def)
qed

lemma copy_authentic_iff:
  assumes "header_wf h"
  shows "copy_authentic cr seed h owner c \<longleftrightarrow>
     (\<exists>verify. releaseSignatureVerifier cr seed h owner = Inr (Inr verify) \<and> verify c = Inr True)"
proof
  assume "copy_authentic cr seed h owner c"
  then obtain i k nonce ciphertext commitment sealed signature message where
      w: "copy_wf c" and a: "carries owner i" "ri_accountId i = rh_ownerAccountId h"
      "identity_sound cr seed i k (rh_ownerFingerprint h)" "rh_contentNonce h = toBase64 nonce"
      "rh_contentCiphertext h = toBase64 ciphertext" "rh_keyCommitment h = toBase64 commitment"
    and s: "rc_sealedKey c = toBase64 sealed" "rc_signature c = toBase64 signature"
      "releaseCopySignedBytes (contextFor h (rc_recipientAccountId c) (rc_recipientFingerprint c))
          (releaseContentHash cr nonce ciphertext) commitment sealed = Inr message"
      "ed25519_check cr (kb_signingKey k) signature message = Inr True"
    unfolding copy_authentic_def by blast
  obtain n c' m where "decodeCanonicalBase64 (JString (rh_contentCiphertext h)) None = Some c'"
      "rh_contentNonce h = toBase64 n" "length n = 12" "rh_keyCommitment h = toBase64 m" "length m = 32"
    by (rule header_decoded [OF assms])
  with a have l: "length nonce = 12" "ciphertext \<noteq> []" "length commitment = 32"
    by (auto simp: decodeCanonicalBase64_iff)
  from s(4) obtain key where key: "cr_ed25519Import cr (kb_signingKey k) = Inr key"
      "cr_ed25519Verify cr key signature message = Inr True" by (auto simp: ed25519_check_def)
  have "releaseSignatureVerifier cr seed h owner =
      Inr (Inr (verify_copy cr h key (releaseContentHash cr nonce ciphertext) commitment))"
    unfolding verifier_Inr using a l key(1) by blast
  moreover have "verify_copy cr h key (releaseContentHash cr nonce ciphertext) commitment c = Inr True"
    unfolding verify_copy_True [OF w s(1,2)] using s(3) key(2) by blast
  ultimately show "\<exists>verify. releaseSignatureVerifier cr seed h owner = Inr (Inr verify) \<and> verify c = Inr True" by blast
next
  assume "\<exists>verify. releaseSignatureVerifier cr seed h owner = Inr (Inr verify) \<and> verify c = Inr True"
  then obtain i k key nonce ciphertext commitment where a: "carries owner i" "ri_accountId i = rh_ownerAccountId h"
      "identity_sound cr seed i k (rh_ownerFingerprint h)" "cr_ed25519Import cr (kb_signingKey k) = Inr key"
      "rh_contentNonce h = toBase64 nonce" "rh_contentCiphertext h = toBase64 ciphertext"
      "rh_keyCommitment h = toBase64 commitment"
      "verify_copy cr h key (releaseContentHash cr nonce ciphertext) commitment c = Inr True"
    unfolding verifier_Inr by auto
  note w = verify_copy_wf [OF a(8)]
  then obtain sealed signature where s: "rc_sealedKey c = toBase64 sealed" "rc_signature c = toBase64 signature"
    by (auto simp: copy_wf_def)
  from a(8) obtain message where "releaseCopySignedBytes (contextFor h (rc_recipientAccountId c) (rc_recipientFingerprint c))
          (releaseContentHash cr nonce ciphertext) commitment sealed = Inr message"
      "cr_ed25519Verify cr key signature message = Inr True"
    unfolding verify_copy_True [OF w s] by blast
  then show "copy_authentic cr seed h owner c"
    unfolding copy_authentic_def using w a s by (auto simp: ed25519_check_def)
qed

text \<open>
  The specification of unwrapping: the sealed key opens under the private keys
  of the key set, with the transcript of this release and recipient, to a key
  whose commitment is the one in the header.
\<close>

definition wrap_opens :: "Crypto \<Rightarrow> ReleaseHeader \<Rightarrow> ReleaseCopy \<Rightarrow> ReleaseKeySet \<Rightarrow> fault + bytes" where
  "wrap_opens cr h c keySet =
     (case (decodeCanonicalBase64 (JString (rc_sealedKey c)) (Some RELEASE_SEALED_KEY_BYTES),
            decodeCanonicalBase64 (JString (ks_mlkem768SecretKey keySet)) (Some MLKEM768_SECRET_KEY_BYTES)) of
        (Some sealedKey, Some secretKey) \<Rightarrow>
          and_then (importReleaseX25519Key cr keySet) (\<lambda>privateKey.
          and_then (decodeSealedKey sealedKey) (\<lambda>sealed.
          and_then (releaseSealTranscript (contextFor h (rc_recipientAccountId c) (rc_recipientFingerprint c))) (\<lambda>transcript.
            hybridOpen cr sealed privateKey secretKey transcript)))
      | _ \<Rightarrow> Inl Fault_form)"

definition content_key :: "Crypto \<Rightarrow> ReleaseHeader \<Rightarrow> ReleaseCopy \<Rightarrow> ReleaseKeySet \<Rightarrow> bytes \<Rightarrow> bool" where
  "content_key cr h c keySet key \<longleftrightarrow>
     wrap_opens cr h c keySet = Inr key \<and>
     (\<exists>commitment. rh_keyCommitment h = toBase64 commitment \<and> releaseKeyCommitment cr key = Inr commitment)"

lemma unwrapCopy_stages:
  assumes "releaseSignatureVerifier cr seed h owner = Inr (Inr verify)" "verify c = Inr True"
  shows "unwrapCopy cr seed h c owner keySet =
     (case (decodeCanonicalBase64 (JString (rc_sealedKey c)) (Some RELEASE_SEALED_KEY_BYTES),
            decodeCanonicalBase64 (JString (ks_mlkem768SecretKey keySet)) (Some MLKEM768_SECRET_KEY_BYTES)) of
        (Some _, Some _) \<Rightarrow>
          (case wrap_opens cr h c keySet of
             Inl cause \<Rightarrow> Inr (Inl (unwrap_problem cause))
           | Inr contentKey \<Rightarrow>
               (case decodeCanonicalBase64 (JString (rh_keyCommitment h)) (Some RELEASE_KEY_COMMITMENT_BYTES) of
                  None \<Rightarrow> Inr (Inl Op_commitment)
                | Some commitment \<Rightarrow>
                    and_then (releaseKeyCommitment cr contentKey) (\<lambda>computed.
                      if \<not> bytesEqual computed commitment then Inr (Inl Op_commitment) else Inr (Inr contentKey))))
      | _ \<Rightarrow> Inr (Inl Op_wrap))"
  using assms unfolding unwrapCopy_def wrap_opens_def by (simp split: option.splits)

lemma unwrapCopy_Inr:
  assumes "header_wf h"
  shows "unwrapCopy cr seed h c owner keySet = Inr (Inr key) \<longleftrightarrow>
     copy_authentic cr seed h owner c \<and> content_key cr h c keySet key"
proof (cases "copy_authentic cr seed h owner c")
  case False
  have "unwrapCopy cr seed h c owner keySet \<noteq> Inr (Inr key)"
  proof
    assume u: "unwrapCopy cr seed h c owner keySet = Inr (Inr key)"
    then obtain verifier where v: "releaseSignatureVerifier cr seed h owner = Inr verifier" by (auto simp: unwrapCopy_def)
    with u obtain verify where "verifier = Inr verify" by (cases verifier) (auto simp: unwrapCopy_def)
    with u v have "verify c = Inr True" by (auto simp: unwrapCopy_def split: if_splits)
    with v \<open>verifier = Inr verify\<close> False show False unfolding copy_authentic_iff [OF assms] by blast
  qed
  with False show ?thesis by simp
next
  case True
  then obtain verify where v: "releaseSignatureVerifier cr seed h owner = Inr (Inr verify)" "verify c = Inr True"
    unfolding copy_authentic_iff [OF assms] by blast
  obtain com where com: "decodeCanonicalBase64 (JString (rh_keyCommitment h)) (Some 32) = Some com"
      "rh_keyCommitment h = toBase64 com"
    by (rule header_decoded [OF assms])
  show ?thesis
  proof (cases "wrap_opens cr h c keySet")
    case (Inl cause)
    then show ?thesis
      unfolding unwrapCopy_stages [OF v] content_key_def by (auto split: option.splits)
  next
    case (Inr key')
    then obtain a b where "decodeCanonicalBase64 (JString (rc_sealedKey c)) (Some RELEASE_SEALED_KEY_BYTES) = Some a"
        "decodeCanonicalBase64 (JString (ks_mlkem768SecretKey keySet)) (Some MLKEM768_SECRET_KEY_BYTES) = Some b"
      by (auto simp: wrap_opens_def split: option.splits)
    then show ?thesis
      using True com unfolding unwrapCopy_stages [OF v] content_key_def Inr
      by (auto simp: RELEASE_KEY_COMMITMENT_BYTES_def bytesEqual_iff split: if_splits)
  qed
qed

text \<open>
  Opening succeeds exactly when every check holds: this is the specification of
  \<open>openReleaseCopy\<close> on its successful branch.
\<close>

lemma openReleaseCopy_iff:
  "openReleaseCopy cr draws hv cv owner account keySets = Inr (Inr r) \<longleftrightarrow>
     (\<exists>h c keySet key.
        parseReleaseHeader hv = Inr h \<and> parseReleaseCopy cv = Inr c \<and> rc_recipientAccountId c = account \<and>
        find (\<lambda>k. ks_fingerprint k = rc_recipientFingerprint c) keySets = Some keySet \<and>
        assertMlKem768 cr = Inr () \<and> checkReleaseKeySet cr (od_check draws) keySet (Some account) = Inr None \<and>
        copy_authentic cr (od_owner draws) h owner c \<and> content_key cr h c keySet key \<and>
        decryptReleaseContent cr h key = Inr (ro_text r) \<and>
        ro_releaseId r = rh_releaseId h \<and> ro_ownerAccountId r = rh_ownerAccountId h \<and>
        ro_ownerFingerprint r = rh_ownerFingerprint h \<and> ro_keySetFingerprint r = ks_fingerprint keySet)"
  (is "?L \<longleftrightarrow> ?R")
proof
  assume L: ?L
  then obtain h where h: "parseReleaseHeader hv = Inr h" by (cases "parseReleaseHeader hv") (auto simp: openReleaseCopy_def)
  with L obtain c where c: "parseReleaseCopy cv = Inr c" by (cases "parseReleaseCopy cv") (auto simp: openReleaseCopy_def)
  from L h c have acc: "rc_recipientAccountId c = account" by (auto simp: openReleaseCopy_def split: if_splits)
  with L h c obtain keySet where k: "find (\<lambda>k. ks_fingerprint k = rc_recipientFingerprint c) keySets = Some keySet"
    by (cases "find (\<lambda>k. ks_fingerprint k = rc_recipientFingerprint c) keySets") (auto simp: openReleaseCopy_def)
  from L h c acc k have m: "assertMlKem768 cr = Inr ()" by (auto simp: openReleaseCopy_def split: if_splits)
  with L h c acc k obtain problem where p: "checkReleaseKeySet cr (od_check draws) keySet (Some account) = Inr problem"
    by (auto simp: openReleaseCopy_def)
  with L h c acc k m have "problem = None" by (auto simp: openReleaseCopy_def split: if_splits)
  with L h c acc k m p obtain unwrapped where u: "unwrapCopy cr (od_owner draws) h c owner keySet = Inr unwrapped"
    by (auto simp: openReleaseCopy_def)
  with L h c acc k m p \<open>problem = None\<close> obtain key where key: "unwrapped = Inr key"
    by (cases unwrapped) (auto simp: openReleaseCopy_def)
  with L h c acc k m p \<open>problem = None\<close> u obtain t where t: "decryptReleaseContent cr h key = Inr t"
      "r = \<lparr>ro_text = t, ro_releaseId = rh_releaseId h, ro_ownerAccountId = rh_ownerAccountId h,
           ro_ownerFingerprint = rh_ownerFingerprint h, ro_keySetFingerprint = ks_fingerprint keySet\<rparr>"
    by (cases "decryptReleaseContent cr h key") (auto simp: openReleaseCopy_def)
  have "header_wf h" using h by (simp add: parseReleaseHeader_iff)
  with u key have "copy_authentic cr (od_owner draws) h owner c" "content_key cr h c keySet key"
    using unwrapCopy_Inr by auto
  with h c acc k m p \<open>problem = None\<close> t show ?R by auto
next
  assume ?R
  then obtain h c keySet key where r: "parseReleaseHeader hv = Inr h" "parseReleaseCopy cv = Inr c"
      "rc_recipientAccountId c = account" "find (\<lambda>k. ks_fingerprint k = rc_recipientFingerprint c) keySets = Some keySet"
      "assertMlKem768 cr = Inr ()" "checkReleaseKeySet cr (od_check draws) keySet (Some account) = Inr None"
      "copy_authentic cr (od_owner draws) h owner c" "content_key cr h c keySet key"
      "decryptReleaseContent cr h key = Inr (ro_text r)" "ro_releaseId r = rh_releaseId h"
      "ro_ownerAccountId r = rh_ownerAccountId h" "ro_ownerFingerprint r = rh_ownerFingerprint h"
      "ro_keySetFingerprint r = ks_fingerprint keySet" by blast
  have "unwrapCopy cr (od_owner draws) h c owner keySet = Inr (Inr key)"
    using r(1,7,8) unwrapCopy_Inr by (auto simp: parseReleaseHeader_iff)
  with r show ?L by (simp add: openReleaseCopy_def)
qed

end
