(* ===== verification/Release_Protocol.thy ===== *)
theory Release_Protocol
  imports Release_Envelope
begin

text \<open>
  The guarantees of releases as a whole: what the owner's device builds opens on
  the device of every recipient, to the text that was written; what opens was
  signed by the owner's key for this recipient; re-sealing passes on the key of
  the named release only.
\<close>

section \<open>Keys that belong together\<close>

definition keys_belong :: "Crypto \<Rightarrow> ReleaseKeySet \<Rightarrow> bool" where
  "keys_belong cr keySet \<longleftrightarrow>
     (\<exists>k privateKey secretKey. key_bytes_of (ks_identity keySet) k \<and>
        importReleaseX25519Key cr keySet = Inr privateKey \<and> x25519_pair cr privateKey (kb_x25519Key k) \<and>
        ks_mlkem768SecretKey keySet = toBase64 secretKey \<and> length secretKey = 2400 \<and>
        kem_pair cr secretKey (kb_mlkem768Key k))"

definition signs_for :: "Crypto \<Rightarrow> ReleaseKeySet \<Rightarrow> bool" where
  "signs_for cr keySet \<longleftrightarrow>
     (\<exists>k signingKey. key_bytes_of (ks_identity keySet) k \<and>
        importReleaseSigningKey cr keySet = Inr signingKey \<and> ed25519_pair cr signingKey (kb_signingKey k))"

definition crypto_lawful :: "Crypto \<Rightarrow> bool" where
  "crypto_lawful cr \<longleftrightarrow> aes_lawful cr \<and> sha_lawful cr \<and> x25519_lawful cr"

lemma key_bytes_unique: "key_bytes_of i k \<Longrightarrow> key_bytes_of i k' \<Longrightarrow> k = k'"
  by (cases k; cases k') (auto simp: key_bytes_of_def)

lemma fingerprint_unique:
  "identity_sound cr seed i k fp \<Longrightarrow> identity_sound cr seed' i k' fp' \<Longrightarrow> k = k' \<and> fp = fp'"
  using key_bytes_unique [of i k k'] by (auto simp: identity_sound_def)

lemma fingerprint_form: "sha_lawful cr \<Longrightarrow> identity_sound cr seed i k fp \<Longrightarrow> fingerprint_text fp"
  by (auto simp: identity_sound_def releaseIdentityFingerprint_def fingerprint_text_def sha_lawful_def)

section \<open>Sealed copies\<close>

lemma verifiedRecipient_Inr:
  "verifiedRecipient cr seed i = Inr (j, fp) \<longleftrightarrow> j = i \<and> (\<exists>k. identity_sound cr seed i k fp)"
proof -
  obtain check where c: "verifyReleaseIdentity cr seed (publicReleaseIdentity i) None = Inr check"
    using verifyReleaseIdentity_total by blast
  show ?thesis
  proof (cases check)
    case (Identity_ok j' fp')
    from c have "j' = i \<and> (\<exists>k. identity_sound cr seed j' k fp')"
      unfolding Identity_ok verifyReleaseIdentity_iff carries_public by auto
    then obtain k where k: "j' = i" "identity_sound cr seed i k fp'" by blast
    have "verifiedRecipient cr seed i = Inr (i, fp')" using c Identity_ok k(1) by (simp add: verifiedRecipient_def)
    moreover have "fp' = fp" if "identity_sound cr seed i k' fp" for k'
      using fingerprint_unique [OF k(2) that] by simp
    ultimately show ?thesis using k(2) by (metis Inr_inject Pair_inject)
  next
    case (Identity_refused p)
    have "\<not> identity_sound cr seed i k fp" for k
      using c Identity_refused verifyReleaseIdentity_iff [of cr seed "publicReleaseIdentity i" None i fp]
      by (auto simp: carries_public)
    with c Identity_refused show ?thesis by (simp add: verifiedRecipient_def)
  qed
qed

text \<open>Everything known of a copy that was sealed.\<close>

lemma sealReleaseCopy_Inr:
  assumes "sealReleaseCopy cr draws h K i signingKey = Inr c"
  obtains k fp priv pub ct ss rk tr s sealed hash com message signature where
    "identity_sound cr (fst draws) i k fp" "length K = 32"
    "cr_x25519Generate cr (sd_ephemeral (snd draws)) = Inr (priv, pub)"
    "kp_encapsulate (cr_kem cr) (kb_mlkem768Key k) (sd_encapsulation (snd draws)) = Inr (ct, ss)"
    "cr_x25519Import cr (kb_x25519Key k) = Inr rk"
    "releaseSealTranscript (contextFor h (ri_accountId i) fp) = Inr tr"
    "hybridSealWith cr K rk tr \<lparr>hr_ephemeralPrivateKey = priv, hr_ephemeralPublicKey = pub, hr_kemCiphertext = ct,
        hr_sharedSecret = ss, hr_nonce = sd_nonce (snd draws)\<rparr> = Inr s"
    "encodeSealedKey s = Inr sealed" "headerBytes cr h = Inr (hash, com)"
    "releaseCopySignedBytes (contextFor h (ri_accountId i) fp) hash com sealed = Inr message"
    "cr_ed25519Sign cr signingKey message = Inr signature"
    "c = \<lparr>rc_recipientAccountId = ri_accountId i, rc_recipientFingerprint = fp,
         rc_sealedKey = toBase64 sealed, rc_signature = toBase64 signature\<rparr>"
proof -
  from assms obtain j fp where v: "verifiedRecipient cr (fst draws) i = Inr (j, fp)" by (auto simp: sealReleaseCopy_def)
  then obtain k where k: "j = i" "identity_sound cr (fst draws) i k fp" unfolding verifiedRecipient_Inr by blast
  then have keys: "ri_mlkem768Key i = toBase64 (kb_mlkem768Key k)" "length (kb_mlkem768Key k) = 1184"
      "ri_x25519Key i = toBase64 (kb_x25519Key k)" "length (kb_x25519Key k) = 32"
    using key_form_lengths(2,3) by (auto simp: identity_sound_def key_bytes_of_def)
  have "decodeCanonicalBase64 (JString (ri_mlkem768Key i)) (Some MLKEM768_PUBLIC_KEY_BYTES) = Some (kb_mlkem768Key k)"
    using keys by (simp add: MLKEM768_PUBLIC_KEY_BYTES_def)
  with assms v k(1) obtain priv pub ct ss where g: "cr_x25519Generate cr (sd_ephemeral (snd draws)) = Inr (priv, pub)"
      "kp_encapsulate (cr_kem cr) (kb_mlkem768Key k) (sd_encapsulation (snd draws)) = Inr (ct, ss)"
      "sealVerified cr h K signingKey (i, fp) \<lparr>hr_ephemeralPrivateKey = priv, hr_ephemeralPublicKey = pub,
        hr_kemCiphertext = ct, hr_sharedSecret = ss, hr_nonce = sd_nonce (snd draws)\<rparr> = Inr c"
    by (auto simp: sealReleaseCopy_def)
  from g(3) keys(4) show thesis
    by (auto simp: sealVerified_def keys(3) importRecipientPublicKey_toBase64 RELEASE_CONTENT_KEY_BYTES_def
        Let_def contextFor_def split: if_splits intro!: that [OF k(2) _ g(1,2)])
qed

lemma sealed_parts:
  assumes "encodeSealedKey s = Inr sealed"
  shows "length sealed = 1180" "take 32 sealed = hs_ephemeralPublicKey s" "decodeSealedKey sealed = Inr s"
  using assms decode_encodeSealedKey [of s sealed]
  by (auto simp: encodeSealedKey_def release_lengths concatBytes_def split: if_splits)

lemma sealed_copy_wf:
  assumes "sealReleaseCopy cr draws h K i signingKey = Inr c" "crypto_lawful cr" "ed25519_pair cr signingKey publicKey"
  shows "copy_wf c"
  using assms(1)
proof (rule sealReleaseCopy_Inr)
  fix k fp priv pub ct ss rk tr s sealed hash com message signature
  assume i: "identity_sound cr (fst draws) i k fp" and g: "cr_x25519Generate cr (sd_ephemeral (snd draws)) = Inr (priv, pub)"
    and s: "hybridSealWith cr K rk tr \<lparr>hr_ephemeralPrivateKey = priv, hr_ephemeralPublicKey = pub, hr_kemCiphertext = ct,
        hr_sharedSecret = ss, hr_nonce = sd_nonce (snd draws)\<rparr> = Inr s" and e: "encodeSealedKey s = Inr sealed"
    and sg: "cr_ed25519Sign cr signingKey message = Inr signature"
    and c: "c = \<lparr>rc_recipientAccountId = ri_accountId i, rc_recipientFingerprint = fp,
         rc_sealedKey = toBase64 sealed, rc_signature = toBase64 signature\<rparr>"
  have "x25519KeyIsCanonical (take 32 sealed)"
    using assms(2) g s sealed_parts(2) [OF e] by (auto simp: crypto_lawful_def x25519_lawful_def hybridSealWith_Inr)
  moreover have "ed25519SignatureIsAcceptable signature" using assms(3) sg by (auto simp: ed25519_pair_def)
  moreover have "fingerprint_text fp" using assms(2) i fingerprint_form by (auto simp: crypto_lawful_def)
  moreover have "RELEASE_ACCOUNT_ID_PATTERN (ri_accountId i)" using i by (simp add: identity_sound_def key_bytes_of_def)
  ultimately show ?thesis using sealed_parts(1) [OF e] by (auto simp: copy_wf_def c)
qed

lemma headerBytes_Inr:
  "headerBytes cr h = Inr (hash, com) \<longleftrightarrow>
     (\<exists>nonce ciphertext. rh_contentNonce h = toBase64 nonce \<and> length nonce = 12 \<and>
        rh_contentCiphertext h = toBase64 ciphertext \<and> ciphertext \<noteq> [] \<and> rh_keyCommitment h = toBase64 com \<and>
        length com = 32 \<and> hash = releaseContentHash cr nonce ciphertext)"
  (is "?L \<longleftrightarrow> ?R")
proof
  assume ?L
  then obtain nonce ciphertext where "decodeCanonicalBase64 (JString (rh_contentNonce h)) (Some 12) = Some nonce"
      "decodeCanonicalBase64 (JString (rh_contentCiphertext h)) None = Some ciphertext"
      "decodeCanonicalBase64 (JString (rh_keyCommitment h)) (Some 32) = Some com" "hash = releaseContentHash cr nonce ciphertext"
    by (auto simp: headerBytes_def release_lengths split: option.splits)
  then show ?R unfolding decodeCanonicalBase64_iff by auto
next
  assume ?R
  then show ?L by (auto simp: headerBytes_def release_lengths)
qed

lemma sealed_copy_authentic:
  assumes "sealReleaseCopy cr draws h K i signingKey = Inr c" "crypto_lawful cr"
    and owner: "identity_sound cr seed io ko (rh_ownerFingerprint h)" "ri_accountId io = rh_ownerAccountId h"
    and sign: "ed25519_pair cr signingKey (kb_signingKey ko)"
  shows "copy_authentic cr seed h (publicReleaseIdentity io) c"
proof -
  have w: "copy_wf c" by (rule sealed_copy_wf [OF assms(1,2) sign])
  from assms(1) show ?thesis
  proof (rule sealReleaseCopy_Inr)
    fix k fp priv pub ct ss rk tr s sealed hash com message signature
    assume hb: "headerBytes cr h = Inr (hash, com)"
      and m: "releaseCopySignedBytes (contextFor h (ri_accountId i) fp) hash com sealed = Inr message"
      and sg: "cr_ed25519Sign cr signingKey message = Inr signature"
      and c: "c = \<lparr>rc_recipientAccountId = ri_accountId i, rc_recipientFingerprint = fp,
         rc_sealedKey = toBase64 sealed, rc_signature = toBase64 signature\<rparr>"
    from hb obtain nonce ciphertext where n: "rh_contentNonce h = toBase64 nonce" "rh_contentCiphertext h = toBase64 ciphertext"
        "rh_keyCommitment h = toBase64 com" "hash = releaseContentHash cr nonce ciphertext"
      unfolding headerBytes_Inr by blast
    have "ed25519_check cr (kb_signingKey ko) signature message = Inr True"
      using sign sg unfolding ed25519_pair_def by blast
    then show ?thesis
      using w owner n m unfolding copy_authentic_def by (auto simp: carries_public c)
  qed
qed

lemma sealed_copy_opens:
  assumes "sealReleaseCopy cr draws h K (ks_identity keySet) signingKey = Inr c" "crypto_lawful cr" "keys_belong cr keySet"
  shows "wrap_opens cr h c keySet = Inr K"
  using assms(1)
proof (rule sealReleaseCopy_Inr)
  fix k fp priv pub ct ss rk tr s sealed hash com message signature
  let ?i = "ks_identity keySet"
  assume i: "identity_sound cr (fst draws) ?i k fp" and g: "cr_x25519Generate cr (sd_ephemeral (snd draws)) = Inr (priv, pub)"
    and enc: "kp_encapsulate (cr_kem cr) (kb_mlkem768Key k) (sd_encapsulation (snd draws)) = Inr (ct, ss)"
    and rk: "cr_x25519Import cr (kb_x25519Key k) = Inr rk" and tr: "releaseSealTranscript (contextFor h (ri_accountId ?i) fp) = Inr tr"
    and s: "hybridSealWith cr K rk tr \<lparr>hr_ephemeralPrivateKey = priv, hr_ephemeralPublicKey = pub, hr_kemCiphertext = ct,
        hr_sharedSecret = ss, hr_nonce = sd_nonce (snd draws)\<rparr> = Inr s" and e: "encodeSealedKey s = Inr sealed"
    and c: "c = \<lparr>rc_recipientAccountId = ri_accountId ?i, rc_recipientFingerprint = fp,
         rc_sealedKey = toBase64 sealed, rc_signature = toBase64 signature\<rparr>"
  obtain k' privateKey secretKey where b: "key_bytes_of ?i k'" "importReleaseX25519Key cr keySet = Inr privateKey"
      "x25519_pair cr privateKey (kb_x25519Key k')" "ks_mlkem768SecretKey keySet = toBase64 secretKey" "length secretKey = 2400"
      "kem_pair cr secretKey (kb_mlkem768Key k')"
    using assms(3) unfolding keys_belong_def by blast
  have "k' = k" using b(1) i key_bytes_unique by (auto simp: identity_sound_def)
  with b have "hybridOpen cr s privateKey secretKey tr = Inr K"
    using assms(2) hybridOpen_sealed [OF _ _ g rk _ enc _ s] by (auto simp: crypto_lawful_def)
  then show ?thesis
    using b(2,4,5) sealed_parts [OF e] tr by (simp add: wrap_opens_def c MLKEM768_SECRET_KEY_BYTES_def)
qed

section \<open>Content\<close>

lemma encode_nonempty: "text' \<noteq> [] \<Longrightarrow> utf8Encode text' \<noteq> []"
proof -
  have "code_points us \<noteq> []" if "us \<noteq> []" for us
    using that by (cases us rule: code_points.cases) simp_all
  moreover have "encode_point n \<noteq> []" for n by (simp add: encode_point_def)
  ultimately show "text' \<noteq> [] \<Longrightarrow> utf8Encode text' \<noteq> []"
    by (cases "code_points (map unat text')") (auto simp: utf8Encode_def)
qed

lemma encryptReleaseContentWith_Inr:
  assumes "encryptReleaseContentWith cr rb text' rid owner key nonce = Inr (nonce', ciphertext)" "\<And>n. length (rb n) = n"
  obtains padded associated where "nonce' = nonce" "length key = 32" "length nonce = 12"
    "unpad padded = Inr (utf8Encode text')" "utf8Encode text' \<noteq> []" "length (utf8Encode text') \<le> 65536"
    "length padded = 1024 \<or> length padded = 16384 \<or> length padded = 262144"
    "releaseContentAssociatedData rid owner = Inr associated"
    "cr_aesEncrypt cr key nonce associated padded = Inr ciphertext"
proof -
  from assms(1) have e: "encodeReleaseMessage text' = Inr (utf8Encode text')" "utf8Encode text' \<noteq> []"
      "length (utf8Encode text') \<le> 65536"
    using encode_nonempty [of text'] by (auto simp: encryptReleaseContentWith_def encodeReleaseMessage_def
        RELEASE_MESSAGE_MAX_BYTES_def Let_def split: if_splits)
  with assms(1) obtain padded target associated where p: "pad rb (utf8Encode text') Pad_bucket = Inr (padded, target)"
      "nonce' = nonce" "length key = 32" "length nonce = 12" "releaseContentAssociatedData rid owner = Inr associated"
      "cr_aesEncrypt cr key nonce associated padded = Inr ciphertext"
    by (auto simp: encryptReleaseContentWith_def release_lengths split: if_splits)
  have "target = 1024 \<or> target = 16384 \<or> target = 262144"
    using pad_Inr(3) [OF p(1) assms(2)] e(3) by (auto simp: selectBucket_def BUCKETS_def split: if_splits)
  then show thesis
    using that [OF p(2-4) unpad_pad [OF p(1) assms(2)] e(2,3) _ p(5,6)] pad_length [OF p(1) assms(2)] by simp
qed

lemma decrypt_encrypted:
  assumes "encryptReleaseContentWith cr rb text' (rh_releaseId h) (rh_ownerAccountId h) key nonce = Inr (nonce', ciphertext)"
    and "\<And>n. length (rb n) = n" "aes_lawful cr" "header_wf h"
    and h: "rh_contentNonce h = toBase64 nonce'" "rh_contentCiphertext h = toBase64 ciphertext"
  shows "decryptReleaseContent cr h key = Inr (drop_bom (repaired text'))"
  using assms(1,2)
proof (rule encryptReleaseContentWith_Inr)
  fix padded associated
  assume e: "nonce' = nonce" "length nonce = 12" "unpad padded = Inr (utf8Encode text')" "utf8Encode text' \<noteq> []"
    "length (utf8Encode text') \<le> 65536" "releaseContentAssociatedData (rh_releaseId h) (rh_ownerAccountId h) = Inr associated"
    and enc: "cr_aesEncrypt cr key nonce associated padded = Inr ciphertext"
  from enc have d: "cr_aesDecrypt cr key nonce associated ciphertext = Inr padded" "ciphertext \<noteq> []"
    using assms(3) unfolding aes_lawful_def by (blast, fastforce)
  then show ?thesis
    using e assms(4) by (simp add: decryptReleaseContent_def h release_lengths RELEASE_MESSAGE_MAX_BYTES_def fatalUtf8_utf8Encode)
qed

section \<open>Building\<close>

lemma seal_all_nth:
  assumes "seal_all cr h K sk xs = Inr cs"
  shows "length cs = length xs"
    "n < length xs \<Longrightarrow> sealReleaseCopy cr (snd (xs ! n)) h K (fst (xs ! n)) sk = Inr (cs ! n)"
  using assms
proof (induction xs arbitrary: cs n)
  case (Cons x xs)
  {
    case 1
    with Cons.IH(1) show ?case by (cases x) auto
  next
    case 2
    then obtain c cs' where "cs = c # cs'" "sealReleaseCopy cr (snd x) h K (fst x) sk = Inr c" "seal_all cr h K sk xs = Inr cs'"
      by (cases x) auto
    with Cons.IH(2) [of "n - 1" cs'] 2 show ?case by (cases n) auto
  }
qed simp_all

lemma parse_own_envelope_unique: "parseReleaseEnvelope (envelope_object E) = Inr e \<Longrightarrow> e = E"
proof -
  define kvs where "kvs = header_fields (re_header E) @ [(''copies'', JArray (map copy_object (re_copies E)))]"
  assume p: "parseReleaseEnvelope (envelope_object E) = Inr e"
  have c: "js_field kvs ''copies'' = JArray (map copy_object (re_copies E))"
    by (simp add: kvs_def header_fields_def js_field_def)
  from p obtain h cs n where h: "parseReleaseHeader (JObject (map (\<lambda>f. (f, js_field kvs f)) HEADER_FIELDS)) = Inr h"
      and cs: "parse_copies h [] 0 (map copy_object (re_copies E)) = Inr (cs, n)" and e: "e = \<lparr>re_header = h, re_copies = cs\<rparr>"
    unfolding parseReleaseEnvelope_def envelope_object_def kvs_def [symmetric] by (auto simp: c split: if_splits)
  have "h = re_header E"
    using h unfolding header_input
    by (cases h) (auto simp: kvs_def HEADER_FIELDS_def header_fields_def js_field_def)
  moreover have "list_all2 (\<lambda>v c. parseReleaseCopy (copy_object v) = Inr c) (re_copies E) cs"
    using cs unfolding parse_copies_iff by (simp add: list_all2_map1)
  then have "list_all2 (=) (re_copies E) cs"
    by (rule list_all2_mono) (simp add: parseReleaseCopy_iff carries_copy_unique)
  ultimately show ?thesis using e by (simp add: list.rel_eq)
qed

lemma passed_on: "(case m of Inl _ \<Rightarrow> Inl f | Inr v \<Rightarrow> Inr v) = Inr e \<longleftrightarrow> m = Inr e"
  by (cases m) simp_all

text \<open>What is known of a built envelope.\<close>

lemma buildReleaseEnvelope_Inr:
  assumes "buildReleaseEnvelope cr draws owner recipients message givenId = Inr e"
  obtains nonce ciphertext commitment signingKey where
    "assertMlKem768 cr = Inr ()" "envelope_wf e" "length (re_copies e) = Suc (length recipients)"
    "checkReleaseKeySet cr (bd_check draws) owner (Some (ri_accountId (ks_identity owner))) = Inr None"
    "encryptReleaseContentWith cr (bd_padding draws) message (rh_releaseId (re_header e)) (rh_ownerAccountId (re_header e))
       (bd_contentKey draws) (bd_nonce draws) = Inr (nonce, ciphertext)"
    "releaseKeyCommitment cr (bd_contentKey draws) = Inr commitment"
    "importReleaseSigningKey cr owner = Inr signingKey"
    "rh_ownerAccountId (re_header e) = ri_accountId (ks_identity owner)"
    "rh_ownerFingerprint (re_header e) = ks_fingerprint owner"
    "rh_contentNonce (re_header e) = toBase64 nonce" "rh_contentCiphertext (re_header e) = toBase64 ciphertext"
    "rh_keyCommitment (re_header e) = toBase64 commitment"
    "\<And>n. n < Suc (length recipients) \<Longrightarrow>
       sealReleaseCopy cr (bd_copies draws n) (re_header e) (bd_contentKey draws)
         ((ks_identity owner # recipients) ! n) signingKey = Inr (re_copies e ! n)"
proof -
  define rid where "rid = (case givenId of Some r \<Rightarrow> r | None \<Rightarrow> newReleaseId (bd_releaseId draws))"
  let ?acc = "ri_accountId (ks_identity owner)" and ?K = "bd_contentKey draws"
  from assms have kem: "assertMlKem768 cr = Inr ()" by (auto simp: buildReleaseEnvelope_def)
  with assms obtain problem where p: "checkReleaseKeySet cr (bd_check draws) owner (Some ?acc) = Inr problem"
    by (auto simp: buildReleaseEnvelope_def Let_def)
  with assms kem have "problem = None"
    by (cases problem rule: option.exhaust)
      (auto simp: buildReleaseEnvelope_def owner_key_set_ok_def Let_def split: ReleaseKeySetProblem.splits)
  with assms kem p obtain nonce ciphertext commitment signingKey where
    enc: "encryptReleaseContentWith cr (bd_padding draws) message rid ?acc ?K (bd_nonce draws) = Inr (nonce, ciphertext)"
    and com: "releaseKeyCommitment cr ?K = Inr commitment" and sk: "importReleaseSigningKey cr owner = Inr signingKey"
    by (auto simp: buildReleaseEnvelope_def owner_key_set_ok_def Let_def rid_def split: if_splits)
  define header where "header = \<lparr>rh_releaseId = rid, rh_ownerAccountId = ?acc,
      rh_ownerFingerprint = ks_fingerprint owner, rh_contentNonce = toBase64 nonce,
      rh_contentCiphertext = toBase64 ciphertext, rh_keyCommitment = toBase64 commitment\<rparr>"
  let ?xs = "zip (ks_identity owner # recipients) (map (bd_copies draws) [0..<Suc (length recipients)])"
  have "\<exists>copies. seal_all cr header ?K signingKey ?xs = Inr copies \<and>
      parseReleaseEnvelope (envelope_object \<lparr>re_header = header, re_copies = copies\<rparr>) = Inr e"
    using assms kem p \<open>problem = None\<close> enc com sk
    unfolding buildReleaseEnvelope_def owner_key_set_ok_def Let_def rid_def [symmetric]
    by (auto simp: header_def [symmetric] passed_on split: if_splits)
  then obtain copies where cs: "seal_all cr header ?K signingKey ?xs = Inr copies"
      and pe: "parseReleaseEnvelope (envelope_object \<lparr>re_header = header, re_copies = copies\<rparr>) = Inr e" by blast
  have e: "e = \<lparr>re_header = header, re_copies = copies\<rparr>" by (rule parse_own_envelope_unique [OF pe])
  have l: "length ?xs = Suc (length recipients)" by simp
  have n: "sealReleaseCopy cr (bd_copies draws n) header ?K ((ks_identity owner # recipients) ! n) signingKey = Inr (copies ! n)"
    if "n < Suc (length recipients)" for n
    using seal_all_nth(2) [OF cs, of n] that unfolding l by (simp del: upt_Suc)
  show thesis
    by (rule that [OF kem parseReleaseEnvelope_wf [OF pe] _ _ _ com sk])
      (use p \<open>problem = None\<close> enc n seal_all_nth(1) [OF cs] l in \<open>simp_all add: e header_def del: upt_Suc\<close>)
qed

section \<open>Opening what was sealed\<close>

text \<open>
  A copy that the owner sealed opens, with the key set it was sealed to, to the
  text under the content key. The copies of a new envelope and re-sealed copies
  are both instances.
\<close>

lemma opens_sealed:
  assumes laws: "crypto_lawful cr" "keys_belong cr keySet" and h: "parseReleaseHeader hv = Inr h"
    and sealed: "sealReleaseCopy cr sd h K (ks_identity keySet) signingKey = Inr c"
    and commitment: "releaseKeyCommitment cr K = Inr commitment" "rh_keyCommitment h = toBase64 commitment"
    and sign: "importReleaseSigningKey cr owner = Inr signingKey" "signs_for cr owner"
    and names: "ri_accountId (ks_identity owner) = rh_ownerAccountId h"
    and owner: "verifyReleaseIdentity cr (od_owner od) (publicReleaseIdentity (ks_identity owner)) None
      = Inr (Identity_ok (ks_identity owner) (rh_ownerFingerprint h))"
    and dec: "decryptReleaseContent cr h K = Inr t"
    and device: "assertMlKem768 cr = Inr ()"
      "checkReleaseKeySet cr (od_check od) keySet (Some (ri_accountId (ks_identity keySet))) = Inr None"
      "find (\<lambda>k. ks_fingerprint k = ks_fingerprint keySet) keySets = Some keySet"
  shows "openReleaseCopy cr od hv (copy_object c) (publicReleaseIdentity (ks_identity owner))
      (ri_accountId (ks_identity keySet)) keySets =
    Inr (Inr \<lparr>ro_text = t, ro_releaseId = rh_releaseId h, ro_ownerAccountId = rh_ownerAccountId h,
              ro_ownerFingerprint = rh_ownerFingerprint h, ro_keySetFingerprint = ks_fingerprint keySet\<rparr>)"
proof -
  from sign obtain ko where ko: "key_bytes_of (ks_identity owner) ko" "ed25519_pair cr signingKey (kb_signingKey ko)"
    unfolding signs_for_def by auto
  from owner obtain k where "identity_sound cr (od_owner od) (ks_identity owner) k (rh_ownerFingerprint h)"
    unfolding verifyReleaseIdentity_iff by blast
  then have o: "identity_sound cr (od_owner od) (ks_identity owner) ko (rh_ownerFingerprint h)"
    using key_bytes_unique [OF ko(1)] by (auto simp: identity_sound_def)
  have auth: "copy_authentic cr (od_owner od) h (publicReleaseIdentity (ks_identity owner)) c"
    by (rule sealed_copy_authentic [OF sealed laws(1) o names ko(2)])
  then have w: "copy_wf c" by (simp add: copy_authentic_def)
  have key: "content_key cr h c keySet K"
    using sealed_copy_opens [OF sealed laws] commitment by (simp add: content_key_def)
  obtain k' fp where c: "identity_sound cr (fst sd) (ks_identity keySet) k' fp" "rc_recipientFingerprint c = fp"
      "rc_recipientAccountId c = ri_accountId (ks_identity keySet)"
    using sealed by (rule sealReleaseCopy_Inr) simp
  obtain k'' where "identity_sound cr (cd_identity (od_check od)) (ks_identity keySet) k'' (ks_fingerprint keySet)"
    using device(2) unfolding checkReleaseKeySet_None by blast
  then have fp: "rc_recipientFingerprint c = ks_fingerprint keySet"
    using fingerprint_unique c by metis
  show ?thesis
    unfolding openReleaseCopy_iff
    by (intro exI [of _ h] exI [of _ c] exI [of _ keySet] exI [of _ K])
      (use h w c(3) device auth key dec in \<open>simp add: fp\<close>)
qed

section \<open>What an opened release says\<close>

text \<open>The stages of a decryption that succeeds.\<close>

lemma decryptReleaseContent_Inr:
  assumes "decryptReleaseContent cr h key = Inr t" "rh_contentNonce h = toBase64 nonce" "rh_contentCiphertext h = toBase64 ciphertext"
  shows "\<exists>associated padded bs. releaseContentAssociatedData (rh_releaseId h) (rh_ownerAccountId h) = Inr associated \<and>
     cr_aesDecrypt cr key nonce associated ciphertext = Inr padded \<and> unpad padded = Inr bs \<and> fatalUtf8 bs = Some t"
proof -
  obtain g where g: "parseReleaseHeader (header_object h) = Inr g"
    using assms(1) by (cases "parseReleaseHeader (header_object h)") (auto simp: decryptReleaseContent_def)
  then have gh: "g = h" "header_wf h" unfolding parseReleaseHeader_iff carries_header_unique by auto
  obtain n c where "decodeCanonicalBase64 (JString (rh_contentNonce h)) (Some 12) = Some n"
      "decodeCanonicalBase64 (JString (rh_contentCiphertext h)) None = Some c"
      "rh_contentNonce h = toBase64 n" "rh_contentCiphertext h = toBase64 c"
    by (rule header_decoded [OF gh(2)])
  then show ?thesis
    using assms g gh(1) by (auto simp: decryptReleaseContent_def release_lengths split: if_splits option.splits)
qed

section \<open>Opening never rejects\<close>

lemma asciiField_release_id: "RELEASE_ID_PATTERN s \<Longrightarrow> \<exists>b. asciiField s RELEASE_ID_PATTERN = Inr b"
  using lengthPrefixed_total [of "utf8Encode (units s)"] release_id_ascii [of s] length_utf8_ascii [of s]
  by (simp add: asciiField_Inr)

lemma asciiField_account: "RELEASE_ACCOUNT_ID_PATTERN s \<Longrightarrow> \<exists>b. asciiField s RELEASE_ACCOUNT_ID_PATTERN = Inr b"
  using lengthPrefixed_account [of s] by (simp add: asciiField_Inr)

lemma contextBytes_total:
  assumes "header_wf h" "RELEASE_ACCOUNT_ID_PATTERN a" "fingerprint_text fp"
  shows "\<exists>b. contextBytes (contextFor h a fp) = Inr b"
proof -
  obtain r ow re where r: "asciiField (rh_releaseId h) RELEASE_ID_PATTERN = Inr r"
      "asciiField (rh_ownerAccountId h) RELEASE_ACCOUNT_ID_PATTERN = Inr ow" "asciiField a RELEASE_ACCOUNT_ID_PATTERN = Inr re"
    using assms(1,2) asciiField_release_id asciiField_account unfolding header_wf_def by blast
  obtain fo fr where "rh_ownerFingerprint h = toHex fo" "length fo = 32" "fp = toHex fr" "length fr = 32"
    using assms(1,3) unfolding header_wf_def fingerprint_text_def by blast
  then have "contextBytes (contextFor h a fp) = Inr (r @ ow @ fo @ re @ fr)"
    unfolding contextBytes_Inr using r by (simp add: contextFor_def) blast
  then show ?thesis ..
qed

lemma verify_copy_total:
  assumes "header_wf h" "length hash = 32" "length com = 32"
  shows "\<exists>b. verify_copy cr h key hash com c = Inr b"
proof (cases "parseReleaseCopy (copy_object c)")
  case (Inr d)
  then have d: "d = c" "copy_wf c" unfolding parseReleaseCopy_iff carries_copy_unique by auto
  then obtain sealed signature where s: "rc_sealedKey c = toBase64 sealed" "length sealed = 1180"
      "rc_signature c = toBase64 signature" "length signature = 64"
    using key_form_lengths(4) by (auto simp: copy_wf_def)
  have "\<exists>b. contextBytes (contextFor h (rc_recipientAccountId c) (rc_recipientFingerprint c)) = Inr b"
    using contextBytes_total [OF assms(1)] d(2) by (simp add: copy_wf_def)
  then obtain m where "releaseCopySignedBytes (contextFor h (rc_recipientAccountId c) (rc_recipientFingerprint c)) hash com sealed = Inr m"
    using assms(2,3) s(2) unfolding releaseCopySignedBytes_Inr by blast
  then show ?thesis
    using Inr d s by (cases "cr_ed25519Verify cr key signature m")
      (auto simp: verify_copy_def ED25519_SIGNATURE_BYTES_def)
qed (auto simp: verify_copy_def)

lemma releaseSignatureVerifier_total:
  assumes "header_wf h"
  shows "\<exists>v. releaseSignatureVerifier cr seed h owner = Inr v"
proof -
  obtain check where c: "verifyReleaseIdentity cr seed owner (Some (rh_ownerAccountId h)) = Inr check"
    using verifyReleaseIdentity_total by blast
  obtain nonce ciphertext com where n: "decodeCanonicalBase64 (JString (rh_contentNonce h)) (Some 12) = Some nonce"
      "decodeCanonicalBase64 (JString (rh_contentCiphertext h)) None = Some ciphertext"
      "decodeCanonicalBase64 (JString (rh_keyCommitment h)) (Some 32) = Some com"
    by (rule header_decoded [OF assms])
  then have "headerBytes cr h = Inr (releaseContentHash cr nonce ciphertext, com)"
    by (simp add: headerBytes_def release_lengths)
  with c show ?thesis
    by (cases check) (auto simp: releaseSignatureVerifier_def split: option.splits sum.splits)
qed

text \<open>AES-GCM strips the 16 bytes of its tag.\<close>

definition aes_lengths :: "Crypto \<Rightarrow> bool" where
  "aes_lengths cr \<longleftrightarrow> (\<forall>key iv ad ciphertext plain.
     cr_aesDecrypt cr key iv ad ciphertext = Inr plain \<longrightarrow> length ciphertext = length plain + 16)"

lemma wrap_opens_length:
  assumes "wrap_opens cr h c keySet = Inr key" "aes_lengths cr"
  shows "length key = 32"
proof -
  from assms(1) obtain sealedKey sealed privateKey secretKey transcript where
      s: "decodeSealedKey sealedKey = Inr sealed" "hybridOpen cr sealed privateKey secretKey transcript = Inr key"
    by (auto simp: wrap_opens_def split: option.splits)
  have "encodeSealedKey sealed = Inr sealedKey" using s(1) unfolding decode_encodeSealedKey .
  then have "length (hs_ciphertext sealed) = 48" by (auto simp: encodeSealedKey_def release_lengths split: if_splits)
  moreover from s(2) obtain k where "cr_aesDecrypt cr k (hs_nonce sealed) [] (hs_ciphertext sealed) = Inr key"
    by (auto simp: hybridOpen_def)
  ultimately show ?thesis using assms(2) by (fastforce simp: aes_lengths_def)
qed

lemma unwrapCopy_total:
  assumes "header_wf h" "sha_lawful cr" "aes_lengths cr"
  shows "\<exists>r. unwrapCopy cr seed h c owner keySet = Inr r"
proof -
  obtain v where v: "releaseSignatureVerifier cr seed h owner = Inr v"
    using releaseSignatureVerifier_total [OF assms(1)] by blast
  show ?thesis
  proof (cases v)
    case (Inr verify)
    with v obtain key nonce ciphertext com where n: "length com = 32"
        "verify = verify_copy cr h key (releaseContentHash cr nonce ciphertext) com"
      unfolding Inr verifier_Inr by blast
    moreover have "length (releaseContentHash cr nonce ciphertext) = 32"
      using assms(2) by (simp add: releaseContentHash_def sha_lawful_def)
    ultimately obtain valid where b: "verify c = Inr valid"
      using verify_copy_total [OF assms(1)] by metis
    show ?thesis
    proof (cases valid)
      case True
      note stages = unwrapCopy_stages [OF v [unfolded Inr] b [unfolded eqTrueI [OF True]]]
      show ?thesis
      proof (cases "wrap_opens cr h c keySet")
        case (Inl cause)
        then show ?thesis unfolding stages by (auto split: option.splits)
      next
        case (Inr key')
        then obtain com' where "releaseKeyCommitment cr key' = Inr com'"
          using wrap_opens_length [OF Inr assms(3)] by (simp add: releaseKeyCommitment_def RELEASE_CONTENT_KEY_BYTES_def)
        then show ?thesis unfolding stages by (auto simp: Inr split: option.splits)
      qed
    next
      case False
      then show ?thesis using v b Inr by (simp add: unwrapCopy_def)
    qed
  qed (use v in \<open>simp add: unwrapCopy_def\<close>)
qed

end
