(* ===== verification/Release_Delivery.thy ===== *)
theory Release_Delivery
  imports Release_Protocol
begin

text \<open>
  That the operations of \<^verbatim>\<open>release/envelope.ts\<close> succeed: new release ids have
  the accepted form, a working provider can seal, build and re-seal, and the parse
  at the end of a build never refuses what was built.
\<close>

unbundle bit_operations_syntax

section \<open>Release ids\<close>

lemma unat_high: "unat (b :: byte) div 16 = unat (drop_bit 4 b)"
  by (simp add: drop_bit_eq_div unat_div_distrib)

lemma version_nibble: "unat ((b AND 0x0f) OR 0x40 :: byte) div 16 = 4"
proof -
  have "drop_bit 4 ((b AND 0x0f) OR 0x40) = (drop_bit 4 b AND drop_bit 4 0x0f) OR drop_bit 4 (0x40 :: byte)"
    by (simp only: drop_bit_or drop_bit_and)
  also have "\<dots> = 4" by (simp add: drop_bit_eq_div)
  finally show ?thesis unfolding unat_high by simp
qed

lemma variant_nibble: "unat ((b AND 0x3f) OR 0x80 :: byte) div 16 \<in> {8, 9, 10, 11}"
proof -
  have "drop_bit 4 ((b AND 0x3f) OR 0x80) = (drop_bit 4 b AND drop_bit 4 0x3f) OR drop_bit 4 (0x80 :: byte)"
    by (simp only: drop_bit_or drop_bit_and)
  also have "\<dots> = (drop_bit 4 b AND 3) OR 8" by simp
  also have "(drop_bit 4 b AND 3) = of_nat (unat (drop_bit 4 b AND 3))" by simp
  also have "unat (drop_bit 4 b AND 3) = unat (drop_bit 4 b) mod 4"
    using take_bit_eq_mask [of 2 "unat (drop_bit 4 b)"] by (simp add: unsigned_and_eq take_bit_eq_mod mask_eq_exp_minus_1)
  finally have d: "drop_bit 4 ((b AND 0x3f) OR 0x80) = of_nat (unat (drop_bit 4 b) mod 4) OR 8" .
  have "unat (drop_bit 4 b) mod 4 \<in> {0, 1, 2, 3}" by (simp add: mod_less_divisor) presburger
  then show ?thesis unfolding unat_high d by auto
qed

lemma nth_toHex: "n < length bs \<Longrightarrow> toHex bs ! (2 * n) = hex_digit (unat (bs ! n) div 16)"
proof (induction bs arbitrary: n)
  case (Cons b bs)
  then show ?case by (cases n) (auto simp: toHex_def)
qed simp

lemma id_digits:
  "hex_digit 4 = CHR ''4''" "hex_digit 8 = CHR ''8''" "hex_digit 9 = CHR ''9''" "hex_digit 10 = CHR ''a''" "hex_digit 11 = CHR ''b''"
  by code_simp+

lemma newReleaseId_pattern:
  assumes "length random = 16"
  shows "RELEASE_ID_PATTERN (newReleaseId random)"
proof -
  define bs where "bs = random[6 := ((random ! 6) AND 0x0f) OR 0x40]"
  define cs where "cs = bs[8 := ((bs ! 8) AND 0x3f) OR 0x80]"
  define hex where "hex = toHex cs"
  have l: "length cs = 16" by (simp add: cs_def bs_def assms)
  have lh: "length hex = 32" by (simp add: hex_def length_toHex l)
  have h: "is_hex (hex ! i)" if "i < 32" for i
    using is_hex_toHex [of cs] that lh by (simp add: hex_def list_all_length)
  have "hex ! 12 = hex_digit 4"
    using nth_toHex [of 6 cs] l version_nibble by (simp add: hex_def cs_def bs_def assms)
  then have v: "hex ! 12 = CHR ''4''" by (simp add: id_digits)
  have "hex ! 16 = hex_digit (unat (((bs ! 8) AND 0x3f) OR 0x80) div 16)"
    using nth_toHex [of 8 cs] l by (simp add: hex_def cs_def bs_def assms)
  then have w: "hex ! 16 \<in> set ''89ab''"
    using variant_nibble [of "bs ! 8"] by (auto simp: id_digits)
  have r: "newReleaseId random = take 8 hex @ ''-'' @ take 4 (drop 8 hex) @ ''-'' @ take 4 (drop 12 hex) @ ''-'' @
         take 4 (drop 16 hex) @ ''-'' @ drop 20 hex"
    by (simp add: newReleaseId_def Let_def hex_def cs_def bs_def)
  have u: "[0..<36] = [0,1,2,3,4,5,6,7,8,9,10,11,12,13,14,15,16,17,18,19,20,21,22,23,24,25,26,27,28,29,30,31,32,33,34,35]"
    by (simp add: upt_rec)
  show ?thesis
    unfolding RELEASE_ID_PATTERN_def u r using v w lh by (simp add: nth_append h)
qed

section \<open>Sealing and building succeed\<close>

text \<open>
  A provider that does what WebCrypto and FIPS 203 document: HKDF-SHA-256 derives up to
  255 blocks of 32 bytes, AES-GCM encrypts with a 32-byte key and a 12-byte nonce up to
  its limit of \<open>2^36 - 32\<close> bytes, X25519 pairs are generated, an imported Ed25519 private key
  signs, and encapsulation to a well-formed key gives a ciphertext of ML-KEM-768's length
  and a secret. Nothing is assumed of calls outside these ranges.
\<close>

definition provider_works :: "Crypto \<Rightarrow> bool" where
  "provider_works cr \<longleftrightarrow>
     (\<forall>ikm salt info n. n \<le> 255 * 32 \<longrightarrow> (\<exists>key. cr_hkdf cr ikm salt info n = Inr key \<and> length key = n)) \<and>
     (\<forall>key iv ad plain. length key = 32 \<longrightarrow> length iv = 12 \<longrightarrow> length plain \<le> 2 ^ 36 - 32 \<longrightarrow>
        (\<exists>c. cr_aesEncrypt cr key iv ad plain = Inr c)) \<and>
     (\<forall>seed. \<exists>priv pub. cr_x25519Generate cr seed = Inr (priv, pub)) \<and>
     (\<forall>pub seed. mlKem768EncapsulationKeyIsWellFormed pub \<longrightarrow>
        (\<exists>ct ss. kp_encapsulate (cr_kem cr) pub seed = Inr (ct, ss) \<and> length ct = 1088 \<and> ss \<noteq> [])) \<and>
     (\<forall>jwk key message. cr_ed25519ImportJwk cr jwk = Inr key \<longrightarrow>
        (\<exists>signature. cr_ed25519Sign cr key message = Inr signature))"

lemma provider_hkdf:
  assumes "provider_works cr"
  obtains key where "cr_hkdf cr ikm salt info 32 = Inr key" "length key = 32"
proof -
  have "(32 :: nat) \<le> 255 * 32" by simp
  with assms that show thesis unfolding provider_works_def by meson
qed

lemma provider_aes:
  assumes "provider_works cr" "length key = 32" "length iv = 12" "length plain \<le> 2 ^ 36 - 32"
  obtains c where "cr_aesEncrypt cr key iv ad plain = Inr c"
  using assms unfolding provider_works_def by meson

text \<open>An identity that verifies whichever ephemeral pair the check draws.\<close>

definition always_sound :: "Crypto \<Rightarrow> ReleaseIdentity \<Rightarrow> bool" where
  "always_sound cr i \<longleftrightarrow> (\<forall>seed. \<exists>k fp. identity_sound cr seed i k fp)"

lemma header_bytes_total: "header_wf h \<Longrightarrow> \<exists>hash com. headerBytes cr h = Inr (hash, com)"
proof -
  assume "header_wf h"
  then obtain nonce ciphertext com where "decodeCanonicalBase64 (JString (rh_contentNonce h)) (Some 12) = Some nonce"
      "decodeCanonicalBase64 (JString (rh_contentCiphertext h)) None = Some ciphertext"
      "decodeCanonicalBase64 (JString (rh_keyCommitment h)) (Some 32) = Some com"
    by (rule header_decoded)
  then show ?thesis by (simp add: headerBytes_def release_lengths)
qed

lemma contribution_derives:
  assumes "x25519KeyContributes cr seed key = Contributes" "cr_x25519Generate cr seed = Inr (priv, pub)" "length key = 32"
  obtains peer shared where "cr_x25519Import cr key = Inr peer" "cr_x25519Derive cr priv peer = Inr shared" "\<not> isAllZero shared"
proof -
  from assms obtain shared where s: "and_then (importRecipientPublicKey cr (toBase64 key)) (\<lambda>peer.
        thrown Fault_crypto (cr_x25519Derive cr priv peer)) = Inr shared" "list_ex (\<lambda>b. b \<noteq> 0) shared"
    by (auto simp: x25519KeyContributes_def split: if_splits sum.splits)
  then show thesis
    using that assms(3) by (auto simp: importRecipientPublicKey_toBase64 isAllZero_iff list_ex_iff)
qed

text \<open>Wrapping K with an ephemeral pair and an encapsulation, for any transcript.\<close>

lemma wrap_total:
  assumes laws: "crypto_lawful cr" "provider_works cr" and K: "length K = 32" and n: "length nonce = 12"
    and con: "x25519KeyContributes cr seed xKey = Contributes" "length xKey = 32" "mlKem768EncapsulationKeyIsWellFormed pqKey"
  obtains priv pub ct ss peer s sealed where "cr_x25519Generate cr seed = Inr (priv, pub)"
    "kp_encapsulate (cr_kem cr) pqKey seed' = Inr (ct, ss)" "cr_x25519Import cr xKey = Inr peer"
    "hybridSealWith cr K peer tr \<lparr>hr_ephemeralPrivateKey = priv, hr_ephemeralPublicKey = pub, hr_kemCiphertext = ct,
        hr_sharedSecret = ss, hr_nonce = nonce\<rparr> = Inr s"
    "encodeSealedKey s = Inr sealed"
proof -
  obtain priv pub where g: "cr_x25519Generate cr seed = Inr (priv, pub)"
    using laws(2) unfolding provider_works_def by meson
  obtain ct ss where e: "kp_encapsulate (cr_kem cr) pqKey seed' = Inr (ct, ss)" "length ct = 1088" "ss \<noteq> []"
    using laws(2) con(3) unfolding provider_works_def by meson
  obtain peer shared where p: "cr_x25519Import cr xKey = Inr peer" "cr_x25519Derive cr priv peer = Inr shared" "\<not> isAllZero shared"
    by (rule contribution_derives [OF con(1) g con(2)])
  obtain key where k: "cr_hkdf cr (shared @ ss) (pub @ ct) (if tr \<noteq> [] then PQ_HYBRID_INFO @ tr else PQ_HYBRID_INFO) 32 = Inr key"
      "length key = 32"
    by (rule provider_hkdf [OF laws(2)])
  have "shared \<noteq> []" using p(3) by (auto simp: isAllZero_iff)
  with k(1) have key: "deriveHybridAeadKey cr shared ss pub ct tr = Inr key"
    using e(3) by (simp add: deriveHybridAeadKey_def Let_def)
  obtain c where c: "cr_aesEncrypt cr key nonce [] K = Inr c"
    by (rule provider_aes [OF laws(2) k(2) n, of K]) (use K in simp_all)
  have l: "length c = 48" "length pub = 32"
    using laws(1) c K g key_form_lengths(2) by (auto simp: crypto_lawful_def aes_lawful_def x25519_lawful_def)
  let ?s = "\<lparr>hs_ephemeralPublicKey = pub, hs_kemCiphertext = ct, hs_nonce = nonce, hs_ciphertext = c\<rparr>"
  obtain sealed where "encodeSealedKey ?s = Inr sealed"
    using e(2) n l by (simp add: encodeSealedKey_def release_lengths)
  moreover have "hybridSealWith cr K peer tr \<lparr>hr_ephemeralPrivateKey = priv, hr_ephemeralPublicKey = pub, hr_kemCiphertext = ct,
        hr_sharedSecret = ss, hr_nonce = nonce\<rparr> = Inr ?s"
    unfolding hybridSealWith_Inr using n p key c by simp
  ultimately show thesis using that g e(1) p(1) by blast
qed

lemma sealReleaseCopy_total:
  assumes laws: "crypto_lawful cr" "provider_works cr" "assertMlKem768 cr = Inr ()"
    and h: "header_wf h" and K: "length K = 32" and n: "length (sd_nonce (snd draws)) = 12" and i: "always_sound cr i"
    and sk: "cr_ed25519ImportJwk cr jwk = Inr signingKey"
  shows "\<exists>c. sealReleaseCopy cr draws h K i signingKey = Inr c"
proof -
  from i obtain k fp where k: "identity_sound cr (fst draws) i k fp" unfolding always_sound_def by blast
  from i obtain k' fp' where k': "identity_sound cr (sd_ephemeral (snd draws)) i k' fp'" unfolding always_sound_def by blast
  have "k = k'" using fingerprint_unique [OF k k'] by simp
  with k' have con: "x25519KeyContributes cr (sd_ephemeral (snd draws)) (kb_x25519Key k) = Contributes"
    by (simp add: identity_sound_def)
  have f: "ri_mlkem768Key i = toBase64 (kb_mlkem768Key k)" "length (kb_mlkem768Key k) = 1184"
      "mlKem768EncapsulationKeyIsWellFormed (kb_mlkem768Key k)" "ri_x25519Key i = toBase64 (kb_x25519Key k)"
      "length (kb_x25519Key k) = 32" "RELEASE_ACCOUNT_ID_PATTERN (ri_accountId i)"
    using k key_form_lengths(2,3) by (auto simp: identity_sound_def key_bytes_of_def)
  have d: "decodeCanonicalBase64 (JString (ri_mlkem768Key i)) (Some MLKEM768_PUBLIC_KEY_BYTES) = Some (kb_mlkem768Key k)"
    using f by (simp add: MLKEM768_PUBLIC_KEY_BYTES_def)
  obtain b where b: "contextBytes (contextFor h (ri_accountId i) fp) = Inr b"
    using contextBytes_total [OF h f(6) fingerprint_form [OF _ k]] laws(1) by (auto simp: crypto_lawful_def)
  let ?tr = "concatBytes [labelBytes RELEASE_SEAL_LABEL, b]"
  obtain priv pub ct ss peer s sealed where w: "cr_x25519Generate cr (sd_ephemeral (snd draws)) = Inr (priv, pub)"
    "kp_encapsulate (cr_kem cr) (kb_mlkem768Key k) (sd_encapsulation (snd draws)) = Inr (ct, ss)"
    "cr_x25519Import cr (kb_x25519Key k) = Inr peer"
    "hybridSealWith cr K peer ?tr \<lparr>hr_ephemeralPrivateKey = priv, hr_ephemeralPublicKey = pub, hr_kemCiphertext = ct,
        hr_sharedSecret = ss, hr_nonce = sd_nonce (snd draws)\<rparr> = Inr s"
    "encodeSealedKey s = Inr sealed"
    by (rule wrap_total [OF laws(1,2) K n con f(5,3)])
  obtain hash com where hb: "headerBytes cr h = Inr (hash, com)" using header_bytes_total [OF h] by blast
  moreover obtain m where "releaseCopySignedBytes (contextFor h (ri_accountId i) fp) hash com sealed = Inr m"
    using b hb laws(1) sealed_parts(1) [OF w(5)] unfolding releaseCopySignedBytes_Inr headerBytes_Inr
    by (auto simp: crypto_lawful_def sha_lawful_def releaseContentHash_def)
  moreover obtain signature where "cr_ed25519Sign cr signingKey m = Inr signature"
    using laws(2) sk unfolding provider_works_def by meson
  moreover have "verifiedRecipient cr (fst draws) i = Inr (i, fp)" unfolding verifiedRecipient_Inr using k by blast
  moreover have "releaseSealTranscript (contextFor h (ri_accountId i) fp) = Inr ?tr"
    using b by (simp add: releaseSealTranscript_def)
  ultimately show ?thesis
    using laws(3) d w f(4,5) K
    by (simp add: sealReleaseCopy_def sealVerified_def Let_def importRecipientPublicKey_toBase64 RELEASE_CONTENT_KEY_BYTES_def)
qed

lemma encryptReleaseContentWith_total:
  assumes "provider_works cr" "aes_lawful cr" "text' \<noteq> []" "length (utf8Encode text') \<le> 65536" "\<And>n. length (rb n) = n"
    and "RELEASE_ID_PATTERN rid" "RELEASE_ACCOUNT_ID_PATTERN owner" "length key = 32" "length nonce = 12"
  shows "\<exists>ciphertext. encryptReleaseContentWith cr rb text' rid owner key nonce = Inr (nonce, ciphertext) \<and>
    length ciphertext \<in> {1040, 16400, 262160}"
proof -
  obtain target where t: "selectBucket (length (utf8Encode text')) = Inr target"
    using assms(4) selectBucket_total [of "length (utf8Encode text')"] by (auto simp: ABSOLUTE_MAX_def BUCKETS_def)
  then have "\<not> target < length (utf8Encode text') + 1" using selectBucket_Inr [OF t] by simp
  with t obtain padded where p: "pad rb (utf8Encode text') Pad_bucket = Inr (padded, target)" by (simp add: pad_def Let_def)
  obtain associated where a: "releaseContentAssociatedData rid owner = Inr associated"
    using asciiField_release_id [OF assms(6)] asciiField_account [OF assms(7)] by (auto simp: releaseContentAssociatedData_def)
  have "length padded \<le> 128 * 1024 * 1024"
    using pad_length [OF p assms(5)] selectBucket_Inr [OF t] by (auto simp: BUCKETS_def)
  then have "length padded \<le> 2 ^ 36 - 32" by simp
  then obtain ciphertext where c: "cr_aesEncrypt cr key nonce associated padded = Inr ciphertext"
    by (rule provider_aes [OF assms(1,8,9), of padded associated])
  have e: "encryptReleaseContentWith cr rb text' rid owner key nonce = Inr (nonce, ciphertext)"
    using assms(3,4,8,9) p a c
    by (simp add: encryptReleaseContentWith_def encodeReleaseMessage_def release_lengths RELEASE_MESSAGE_MAX_BYTES_def Let_def)
  obtain padded' associated' where "length padded' = 1024 \<or> length padded' = 16384 \<or> length padded' = 262144"
      "cr_aesEncrypt cr key nonce associated' padded' = Inr ciphertext"
    using e assms(5) by (rule encryptReleaseContentWith_Inr)
  then have "length ciphertext \<in> {1040, 16400, 262160}" using assms(2) unfolding aes_lawful_def by fastforce
  with e show ?thesis by blast
qed

lemma seal_all_total:
  "(\<And>x. x \<in> set xs \<Longrightarrow> \<exists>c. sealReleaseCopy cr (snd x) h K (fst x) sk = Inr c) \<Longrightarrow> \<exists>cs. seal_all cr h K sk xs = Inr cs"
proof (induction xs)
  case (Cons x xs)
  then obtain c cs where "sealReleaseCopy cr (snd x) h K (fst x) sk = Inr c" "seal_all cr h K sk xs = Inr cs" by fastforce
  then show ?case by (cases x) simp
qed simp

text \<open>The copies of a build make a well-formed envelope, so the parse at its end succeeds.\<close>

lemma sealed_envelope_wf:
  assumes "crypto_lawful cr" "ed25519_pair cr sk publicKey" "header_wf h"
    and "seal_all cr h K sk (zip (i # rs) draws) = Inr cs" "length draws = Suc (length rs)"
    and "rs \<noteq> []" "length rs \<le> 64" "distinct (map ri_accountId (i # rs))"
    and "rh_ownerAccountId h = ri_accountId i" "identity_sound cr seed i k (rh_ownerFingerprint h)"
  shows "envelope_wf \<lparr>re_header = h, re_copies = cs\<rparr>" "map rc_recipientAccountId cs = map ri_accountId (i # rs)"
proof -
  have l: "length cs = Suc (length rs)" using seal_all_nth(1) [OF assms(4)] assms(5) by simp
  have n: "sealReleaseCopy cr (draws ! n) h K ((i # rs) ! n) sk = Inr (cs ! n)" if "n < Suc (length rs)" for n
    using seal_all_nth(2) [OF assms(4), of n] that assms(5) by simp
  have names: "rc_recipientAccountId (cs ! n) = ri_accountId ((i # rs) ! n) \<and>
      (\<exists>k. identity_sound cr (fst (draws ! n)) ((i # rs) ! n) k (rc_recipientFingerprint (cs ! n)))" if "n < Suc (length rs)" for n
    using n [OF that] by (rule sealReleaseCopy_Inr) auto
  show m: "map rc_recipientAccountId cs = map ri_accountId (i # rs)"
    by (rule nth_equalityI) (use l names in \<open>auto simp: nth_Cons split: nat.splits\<close>)
  have "list_all copy_wf cs"
    unfolding list_all_length using n l sealed_copy_wf [OF _ assms(1,2)] by metis
  moreover have f: "rc_recipientFingerprint (cs ! 0) = rh_ownerFingerprint h"
    using names [of 0] fingerprint_unique [OF assms(10)] by fastforce
  moreover have "rc_recipientFingerprint c = rh_ownerFingerprint h"
    if "c \<in> set cs" "rc_recipientAccountId c = rh_ownerAccountId h" for c
  proof -
    from that(1) l obtain n where c: "n < Suc (length rs)" "c = cs ! n" by (metis in_set_conv_nth)
    have "map ri_accountId (i # rs) ! n = map ri_accountId (i # rs) ! 0"
      using names [OF c(1)] that(2) c assms(9) by (simp add: nth_Cons split: nat.splits)
    then have "n = 0" using nth_eq_iff_index_eq [OF assms(8), of n 0] c(1) by simp
    with f c show ?thesis by simp
  qed
  moreover have "\<exists>c \<in> set cs. rc_recipientAccountId c = rh_ownerAccountId h"
    using names [of 0] l assms(9) by (intro bexI [of _ "cs ! 0"]) auto
  moreover have "2 \<le> length cs" using l assms(6) by (cases rs) auto
  ultimately show "envelope_wf \<lparr>re_header = h, re_copies = cs\<rparr>"
    using assms(3,7,8) l m unfolding envelope_wf_def by (simp add: list_all_iff)
qed

text \<open>Draws of the lengths the code asks for, and a release id of the right form where one is given.\<close>

definition draws_ok :: "BuildDraws \<Rightarrow> string option \<Rightarrow> bool" where
  "draws_ok draws givenId \<longleftrightarrow>
     (case givenId of Some rid \<Rightarrow> RELEASE_ID_PATTERN rid | None \<Rightarrow> length (bd_releaseId draws) = 16) \<and>
     length (bd_contentKey draws) = 32 \<and> length (bd_nonce draws) = 12 \<and> (\<forall>n. length (bd_padding draws n) = n) \<and>
     (\<forall>n. length (sd_nonce (snd (bd_copies draws n))) = 12)"

lemma buildReleaseEnvelope_total:
  assumes laws: "crypto_lawful cr" "provider_works cr" "assertMlKem768 cr = Inr ()" "signs_for cr owner" "draws_ok draws givenId"
    and check: "checkReleaseKeySet cr (bd_check draws) owner (Some (ri_accountId (ks_identity owner))) = Inr None"
    and rs: "recipients \<noteq> []" "length recipients \<le> 64" "distinct (map ri_accountId (ks_identity owner # recipients))"
    and sound: "list_all (always_sound cr) (ks_identity owner # recipients)"
    and message: "message \<noteq> []" "length (utf8Encode message) \<le> 65536"
  shows "\<exists>e. buildReleaseEnvelope cr draws owner recipients message givenId = Inr e \<and>
    map rc_recipientAccountId (re_copies e) = map ri_accountId (ks_identity owner # recipients)"
proof -
  let ?acc = "ri_accountId (ks_identity owner)" and ?K = "bd_contentKey draws"
  define rid where "rid = (case givenId of Some r \<Rightarrow> r | None \<Rightarrow> newReleaseId (bd_releaseId draws))"
  have rid: "RELEASE_ID_PATTERN rid"
    using laws(5) newReleaseId_pattern by (auto simp: rid_def draws_ok_def split: option.splits)
  obtain k where k: "identity_sound cr (cd_identity (bd_check draws)) (ks_identity owner) k (ks_fingerprint owner)"
    using check unfolding checkReleaseKeySet_None by blast
  then have acc: "RELEASE_ACCOUNT_ID_PATTERN ?acc" by (simp add: identity_sound_def key_bytes_of_def)
  have l: "length ?K = 32" "length (bd_nonce draws) = 12" "length (bd_padding draws n) = n"
      "length (sd_nonce (snd (bd_copies draws n))) = 12" for n
    using laws(5) by (simp_all add: draws_ok_def)
  obtain ciphertext where c: "encryptReleaseContentWith cr (bd_padding draws) message rid ?acc ?K (bd_nonce draws)
        = Inr (bd_nonce draws, ciphertext)" "length ciphertext \<in> {1040, 16400, 262160}"
    using encryptReleaseContentWith_total [OF laws(2) _ message l(3) rid acc l(1,2)] laws(1) by (auto simp: crypto_lawful_def)
  obtain com where com: "releaseKeyCommitment cr ?K = Inr com" "length com = 32"
    using l(1) laws(1) by (simp add: releaseKeyCommitment_def RELEASE_CONTENT_KEY_BYTES_def crypto_lawful_def sha_lawful_def)
  obtain sk and ko :: ReleaseIdentityKeyBytes where sk: "importReleaseSigningKey cr owner = Inr sk" "ed25519_pair cr sk (kb_signingKey ko)"
    using laws(4) unfolding signs_for_def by blast
  define h where "h = \<lparr>rh_releaseId = rid, rh_ownerAccountId = ?acc,
      rh_ownerFingerprint = ks_fingerprint owner, rh_contentNonce = toBase64 (bd_nonce draws),
      rh_contentCiphertext = toBase64 ciphertext, rh_keyCommitment = toBase64 com\<rparr>"
  have "fingerprint_text (ks_fingerprint owner)" using fingerprint_form [OF _ k] laws(1) by (simp add: crypto_lawful_def)
  then have hw: "header_wf h"
    using rid acc l(2) c(2) com(2) by (auto simp: header_wf_def h_def base64_of_def)
  let ?ds = "map (bd_copies draws) [0..<Suc (length recipients)]"
  have "\<exists>c. sealReleaseCopy cr (snd x) h ?K (fst x) sk = Inr c" if "x \<in> set (zip (ks_identity owner # recipients) ?ds)" for x
  proof (rule sealReleaseCopy_total [OF laws(1-3) hw l(1)])
    show "length (sd_nonce (snd (snd x))) = 12" using that set_zip_rightD [of "fst x" "snd x" "ks_identity owner # recipients" ?ds] l(4)
      by (auto simp del: upt_Suc)
    show "cr_ed25519ImportJwk cr (jwkMembers (ks_signingPrivateJwk owner)) = Inr sk"
      using sk(1) by (simp add: importReleaseSigningKey_def)
    show "always_sound cr (fst x)"
      using that sound set_zip_leftD [of "fst x" "snd x" "ks_identity owner # recipients" ?ds] unfolding list_all_iff by auto
  qed
  then obtain cs where cs: "seal_all cr h ?K sk (zip (ks_identity owner # recipients) ?ds) = Inr cs"
    using seal_all_total by blast
  have "envelope_wf \<lparr>re_header = h, re_copies = cs\<rparr>" "map rc_recipientAccountId cs = map ri_accountId (ks_identity owner # recipients)"
    using sealed_envelope_wf [OF laws(1) sk(2) hw cs _ rs] k by (simp_all add: h_def)
  moreover from this(1) have "parseReleaseEnvelope (envelope_object \<lparr>re_header = h, re_copies = cs\<rparr>)
      = Inr \<lparr>re_header = h, re_copies = cs\<rparr>" by (rule parse_own_envelope)
  moreover have "length (remdups (map ri_accountId recipients)) = length recipients" "?acc \<notin> set (map ri_accountId recipients)"
    using rs(3) by (simp_all add: distinct_remdups_id)
  ultimately show ?thesis
    using laws(3) check rs(1,2) c(1) com(1) sk(1) cs
    unfolding buildReleaseEnvelope_def Let_def rid_def [symmetric]
    by (simp add: owner_key_set_ok_def RELEASE_MAX_RECIPIENTS_def h_def [symmetric] Suc_le_eq del: upt_Suc)
qed

section \<open>Re-sealing\<close>

lemma resealReleaseCopy_Inr:
  assumes "resealReleaseCopy cr draws sd rid hv ov owner recipient = Inr c"
  obtains h own K t signingKey where
    "assertMlKem768 cr = Inr ()" "parseReleaseHeader hv = Inr h" "parseReleaseCopy ov = Inr own" "rh_releaseId h = rid"
    "ri_accountId (ks_identity owner) = rh_ownerAccountId h" "ks_fingerprint owner = rh_ownerFingerprint h"
    "rc_recipientAccountId own = rh_ownerAccountId h" "rc_recipientFingerprint own = rh_ownerFingerprint h"
    "ri_accountId recipient \<noteq> rh_ownerAccountId h"
    "checkReleaseKeySet cr (od_check draws) owner (Some (rh_ownerAccountId h)) = Inr None"
    "copy_authentic cr (od_owner draws) h (publicReleaseIdentity (ks_identity owner)) own" "content_key cr h own owner K"
    "decryptReleaseContent cr h K = Inr t" "importReleaseSigningKey cr owner = Inr signingKey"
    "sealReleaseCopy cr sd h K recipient signingKey = Inr c"
proof -
  note d = assms [unfolded resealReleaseCopy_def]
  from d obtain h where m: "assertMlKem768 cr = Inr ()" and h: "parseReleaseHeader hv = Inr h"
    by (cases "parseReleaseHeader hv") (auto simp: own_copy_fault_def)
  with d have rid: "rh_releaseId h = rid" by (auto split: if_splits)
  with d h obtain own where own: "parseReleaseCopy ov = Inr own"
    by (cases "parseReleaseCopy ov") (auto simp: own_copy_fault_def)
  from d h rid own have names: "ri_accountId (ks_identity owner) = rh_ownerAccountId h" "ks_fingerprint owner = rh_ownerFingerprint h"
      "rc_recipientAccountId own = rh_ownerAccountId h" "rc_recipientFingerprint own = rh_ownerFingerprint h"
      "ri_accountId recipient \<noteq> rh_ownerAccountId h"
    by (auto simp: own_copy_fault_def split: if_splits)
  with d h rid own obtain problem unwrapped where p: "checkReleaseKeySet cr (od_check draws) owner (Some (rh_ownerAccountId h)) = Inr problem"
      "owner_key_set_ok problem = Inr ()"
      and u: "unwrapCopy cr (od_owner draws) h own (publicReleaseIdentity (ks_identity owner)) owner = Inr unwrapped"
    by auto
  have none: "problem = None"
    using p(2) by (cases problem) (auto simp: owner_key_set_ok_def split: ReleaseKeySetProblem.splits)
  from d h rid own names p u obtain K where K: "unwrapped = Inr K" by (cases unwrapped) (auto simp: own_copy_fault_def)
  with d h rid own names p u obtain t where t: "decryptReleaseContent cr h K = Inr t"
    by (cases "decryptReleaseContent cr h K") (auto simp: own_copy_fault_def)
  with d h rid own names p u K obtain sk where sk: "importReleaseSigningKey cr owner = Inr sk"
      "sealReleaseCopy cr sd h K recipient sk = Inr c" by auto
  have hw: "header_wf h" using h unfolding parseReleaseHeader_iff by simp
  from u K have "copy_authentic cr (od_owner draws) h (publicReleaseIdentity (ks_identity owner)) own" "content_key cr h own owner K"
    using unwrapCopy_Inr [OF hw] by simp_all
  with that m h own rid names p(1) none t sk show thesis by blast
qed

end
