(* ===== verification/Release_Guarantees.thy ===== *)
theory Release_Guarantees
  imports Release_Delivery
begin

text \<open>
  What releases guarantee as a whole
  (\<^verbatim>\<open>packages/blackout-protocol/src/release\<close> and the codecs it uses): a build succeeds
  and reaches every recipient, what is shown is authentic, opening never throws,
  re-sealing passes on the named release only, and the encodings have one form per
  value. A provider that satisfies the laws shows that the assumptions can hold.
\<close>

section \<open>A provider for examples\<close>

text \<open>
  A provider that satisfies the laws: the tag of its cipher is sixteen zero
  bytes, its agreement and its encapsulation always give the same secret, its
  signatures always verify. It keeps no secret; it shows that the assumptions
  of the theorems can hold together.
\<close>

definition sample_public :: bytes where "sample_public = 9 # replicate 31 0"
definition sample_signing :: bytes where "sample_signing = 2 # replicate 31 0"
definition sample_signature :: bytes where "sample_signature = sample_signing @ replicate 32 0"

definition sample_kem :: KemProvider where
  "sample_kem = \<lparr>kp_publicKeyLength = 1184, kp_secretKeyLength = 2400, kp_ciphertextLength = 1088, kp_sharedSecretLength = 32,
     kp_generateKeyPair = (\<lambda>_. Inr (replicate 1184 0, replicate 2400 0)),
     kp_encapsulate = (\<lambda>_ _. Inr (replicate 1088 0, replicate 32 1)),
     kp_decapsulate = (\<lambda>_ _. Inr (replicate 32 1))\<rparr>"

definition sample_crypto :: Crypto where
  "sample_crypto = \<lparr>cr_sha256 = (\<lambda>_. replicate 32 0), cr_sha512 = (\<lambda>_. replicate 64 0),
     cr_hkdf = (\<lambda>_ _ _ n. if n \<le> 255 * 32 then Inr (replicate n 0) else Inl Operation_failed),
     cr_aesEncrypt = (\<lambda>key _ _ plain. if length key = 32 then Inr (plain @ replicate 16 0) else Inl Operation_failed),
     cr_aesDecrypt = (\<lambda>key _ _ c. if length key = 32 \<and> 16 \<le> length c then Inr (take (length c - 16) c) else Inl Operation_failed),
     cr_x25519Generate = (\<lambda>_. Inr ([], sample_public)), cr_x25519Import = Inr, cr_x25519ImportJwk = (\<lambda>_. Inr []),
     cr_x25519Derive = (\<lambda>_ _. Inr (replicate 32 1)),
     cr_ed25519Import = Inr, cr_ed25519ImportJwk = (\<lambda>_. Inr []),
     cr_ed25519Sign = (\<lambda>_ _. Inr sample_signature), cr_ed25519Verify = (\<lambda>_ _ _. Inr True),
     cr_kem = sample_kem\<rparr>"

definition sample_identity :: "string \<Rightarrow> ReleaseIdentity" where
  "sample_identity account = \<lparr>ri_v = 1, ri_accountId = account, ri_signingKey = toBase64 sample_signing,
     ri_x25519Key = toBase64 sample_public, ri_mlkem768Key = toBase64 (replicate 1184 0),
     ri_signature = toBase64 sample_signature\<rparr>"

definition sample_jwk :: "string \<Rightarrow> bytes \<Rightarrow> JsonWebKey" where
  "sample_jwk crv public = \<lparr>jk_kty = ''OKP'', jk_crv = crv, jk_d = toBase64Url (replicate 32 0), jk_x = toBase64Url public\<rparr>"

definition sample_fingerprint :: string where "sample_fingerprint = toHex (replicate 32 0)"

definition sample_key_set :: "string \<Rightarrow> ReleaseKeySet" where
  "sample_key_set account = \<lparr>ks_identity = sample_identity account, ks_fingerprint = sample_fingerprint,
     ks_signingPrivateJwk = sample_jwk ''Ed25519'' sample_signing, ks_x25519PrivateJwk = sample_jwk ''X25519'' sample_public,
     ks_mlkem768SecretKey = toBase64 (replicate 2400 0), ks_createdAt = ''2026-01-01T00:00:00.000Z''\<rparr>"

lemma le_value_zeros [simp]: "le_value (replicate n 0) = 0"
  by (induction n) simp_all

lemma sample_forms:
  "x25519KeyIsCanonical sample_public" "ed25519PublicKeyIsAcceptable sample_signing"
  "ed25519SignatureIsAcceptable sample_signature" "mlKem768EncapsulationKeyIsWellFormed (replicate 1184 0)"
  subgoal by code_simp
  subgoal by code_simp
  subgoal by code_simp
  subgoal unfolding mlKem768_wellFormed_iff by (simp add: coefficient_def)
  done

lemma sample_lengths:
  "length sample_public = 32" "length sample_signing = 32" "length sample_signature = 64"
  by (simp_all add: sample_public_def sample_signing_def sample_signature_def)

lemmas sample_simps = sample_crypto_def sample_kem_def sample_lengths

lemma sample_laws: "crypto_lawful sample_crypto" "provider_works sample_crypto" "aes_lengths sample_crypto"
    "assertMlKem768 sample_crypto = Inr ()" "verify_answers sample_crypto"
  subgoal using sample_forms(1)
    by (auto simp: crypto_lawful_def aes_lawful_def sha_lawful_def x25519_lawful_def sample_simps split: if_splits)
  subgoal by (auto simp: provider_works_def sample_simps)
  subgoal by (auto simp: aes_lengths_def sample_simps split: if_splits)
  subgoal by (simp add: assertMlKem768_def sample_simps release_lengths MLKEM768_PUBLIC_KEY_BYTES_def MLKEM768_SECRET_KEY_BYTES_def MLKEM768_CIPHERTEXT_BYTES_def)
  subgoal by (auto simp: verify_answers_def sample_simps)
  done

definition sample_key_bytes :: "string \<Rightarrow> ReleaseIdentityKeyBytes" where
  "sample_key_bytes account = \<lparr>kb_accountId = account, kb_signingKey = sample_signing, kb_x25519Key = sample_public,
     kb_mlkem768Key = replicate 1184 0\<rparr>"

lemma sample_key_bytes_of:
  "RELEASE_ACCOUNT_ID_PATTERN account \<Longrightarrow> key_bytes_of (sample_identity account) (sample_key_bytes account)"
  using sample_forms by (simp add: key_bytes_of_def sample_identity_def sample_key_bytes_def)

lemma sample_contributes: "x25519KeyContributes sample_crypto seed sample_public = Contributes"
  using sample_forms(1) by (simp add: x25519KeyContributes_def importRecipientPublicKey_toBase64 sample_simps list_ex_iff)

lemma sample_sound:
  assumes "RELEASE_ACCOUNT_ID_PATTERN account"
  shows "identity_sound sample_crypto seed (sample_identity account) (sample_key_bytes account) sample_fingerprint"
proof -
  obtain b where "releaseIdentitySignedBytes (sample_key_bytes account) = Inr b"
    using releaseIdentitySignedBytes_total [of "sample_key_bytes account"] assms by (auto simp: sample_key_bytes_def sample_lengths)
  then show ?thesis
    unfolding identity_sound_def using sample_key_bytes_of [OF assms] sample_forms(3) sample_contributes
    by (auto simp: sample_identity_def sample_key_bytes_def RELEASE_IDENTITY_VERSION_def ed25519_check_def
        releaseIdentityFingerprint_def sample_fingerprint_def sample_simps)
qed

lemma sample_keys_belong: "RELEASE_ACCOUNT_ID_PATTERN account \<Longrightarrow> keys_belong sample_crypto (sample_key_set account)"
  unfolding keys_belong_def
  by (intro exI [of _ "sample_key_bytes account"] exI [of _ "[]"] exI [of _ "replicate 2400 0"])
    (use sample_key_bytes_of [of account] in \<open>simp add: sample_key_set_def importReleaseX25519Key_def x25519_pair_def kem_pair_def sample_simps\<close>)

lemma sample_signs_for: "RELEASE_ACCOUNT_ID_PATTERN account \<Longrightarrow> signs_for sample_crypto (sample_key_set account)"
  unfolding signs_for_def
  by (intro exI [of _ "sample_key_bytes account"] exI [of _ "[]"])
    (use sample_key_bytes_of [of account] sample_forms(3) in
      \<open>simp add: sample_key_set_def importReleaseSigningKey_def ed25519_pair_def ed25519_check_def sample_simps\<close>)

lemma sample_jwk_ok:
  assumes "length public = 32"
  shows "okpJwk (sample_jwk crv public) crv \<noteq> None"
proof -
  have "decodeBase64Url (JString (toBase64Url bs)) 32 = Some bs" if "length bs = 32" for bs
    unfolding decodeBase64Url_iff using that by auto
  with assms show ?thesis by (simp add: okpJwk_def sample_jwk_def)
qed

lemma sample_private_keys:
  "check_private_keys sample_crypto draws (sample_key_set account) = Inr None"
proof -
  have "take 1184 (drop 1152 (replicate 2400 0)) = (replicate 1184 0 :: bytes)" by simp
  then have "mlKemKeyMatches sample_kem (cd_encapsulation draws) (replicate 2400 0) (replicate 1184 0) = Kem_yes"
    by (simp add: mlKemKeyMatches_def bytesEqual_iff sample_kem_def MLKEM768_PUBLIC_KEY_BYTES_def MLKEM768_SECRET_KEY_EK_OFFSET_def)
  moreover have "signingKeyMatches sample_crypto (cd_message draws) (sample_key_set account) sample_signing = Inr True"
    by (simp add: signingKeyMatches_def sample_key_set_def sample_jwk_def importReleaseSigningKey_def Let_def sample_simps)
  moreover have "x25519KeyMatches sample_crypto (cd_fresh draws) (sample_key_set account) sample_public"
    by (simp add: x25519KeyMatches_def sample_key_set_def sample_jwk_def importReleaseX25519Key_def caught_def
        importRecipientPublicKey_toBase64 bytesEqual_iff sample_simps list_ex_iff)
  moreover have "kem_is_mlkem768 (cr_kem sample_crypto)" "cr_kem sample_crypto = sample_kem"
    by (simp_all add: kem_is_mlkem768_def sample_simps MLKEM768_PUBLIC_KEY_BYTES_def MLKEM768_SECRET_KEY_BYTES_def
        MLKEM768_CIPHERTEXT_BYTES_def MLKEM768_SHARED_SECRET_BYTES_def)
  ultimately show ?thesis
    by (simp add: check_private_keys_def sample_key_set_def sample_identity_def sample_lengths ED25519_PUBLIC_KEY_BYTES_def
        X25519_PUBLIC_KEY_BYTES_def MLKEM768_PUBLIC_KEY_BYTES_def MLKEM768_SECRET_KEY_BYTES_def)
qed

lemma sample_check:
  assumes "RELEASE_ACCOUNT_ID_PATTERN account"
  shows "checkReleaseKeySet sample_crypto draws (sample_key_set account) (Some account) = Inr None"
proof -
  have "Date_parse ''2026-01-01T00:00:00.000Z'' \<noteq> None" by code_simp
  moreover have "\<exists>k. identity_sound sample_crypto (cd_identity draws) (sample_identity account) k sample_fingerprint"
    using sample_sound [OF assms] by blast
  ultimately show ?thesis
    unfolding checkReleaseKeySet_None using sample_private_keys [of draws account] sample_jwk_ok sample_lengths
    by (simp add: sample_key_set_def) (simp add: sample_identity_def)
qed

lemma sample_verifies:
  "RELEASE_ACCOUNT_ID_PATTERN account \<Longrightarrow>
     verifyReleaseIdentity sample_crypto seed (publicReleaseIdentity (sample_identity account)) None =
       Inr (Identity_ok (sample_identity account) sample_fingerprint)"
  unfolding verifyReleaseIdentity_iff carries_public using sample_sound by blast

definition sample_draws :: BuildDraws where
  "sample_draws = \<lparr>bd_check = \<lparr>cd_identity = 0, cd_message = [], cd_fresh = 0, cd_encapsulation = 0\<rparr>,
     bd_releaseId = replicate 16 0, bd_contentKey = replicate 32 0, bd_nonce = replicate 12 0,
     bd_padding = (\<lambda>n. replicate n 0), bd_copies = (\<lambda>_. (0, \<lparr>sd_ephemeral = 0, sd_encapsulation = 0, sd_nonce = replicate 12 0\<rparr>))\<rparr>"

definition sample_open :: OpenDraws where
  "sample_open = \<lparr>od_check = bd_check sample_draws, od_owner = 0\<rparr>"

lemma sample_draws_ok: "draws_ok sample_draws None"
  by (simp add: draws_ok_def sample_draws_def)

lemma sample_accounts: "RELEASE_ACCOUNT_ID_PATTERN ''alice''" "RELEASE_ACCOUNT_ID_PATTERN ''bob''"
  by code_simp+

lemma sample_always_sound: "RELEASE_ACCOUNT_ID_PATTERN account \<Longrightarrow> always_sound sample_crypto (sample_identity account)"
  unfolding always_sound_def using sample_sound by blast

lemma build_opens:
  assumes "crypto_lawful cr" "\<forall>n. length (bd_padding draws n) = n"
    and build: "buildReleaseEnvelope cr draws owner recipients message givenId = Inr e"
    and "n < Suc (length recipients)" "ks_identity keySet = (ks_identity owner # recipients) ! n"
    and "keys_belong cr keySet" "signs_for cr owner"
    and "verifyReleaseIdentity cr (od_owner od) (publicReleaseIdentity (ks_identity owner)) None
      = Inr (Identity_ok (ks_identity owner) (ks_fingerprint owner))"
    and "checkReleaseKeySet cr (od_check od) keySet (Some (ri_accountId (ks_identity keySet))) = Inr None"
    and "find (\<lambda>k. ks_fingerprint k = ks_fingerprint keySet) keySets = Some keySet"
  shows "openReleaseCopy cr od (header_object (releaseHeaderOf e)) (copy_object (re_copies e ! n))
      (publicReleaseIdentity (ks_identity owner)) (ri_accountId (ks_identity keySet)) keySets =
    Inr (Inr \<lparr>ro_text = drop_bom (repaired message), ro_releaseId = rh_releaseId (re_header e),
              ro_ownerAccountId = ri_accountId (ks_identity owner), ro_ownerFingerprint = ks_fingerprint owner,
              ro_keySetFingerprint = ks_fingerprint keySet\<rparr>)"
  using build
proof (rule buildReleaseEnvelope_Inr)
  let ?h = "re_header e"
  fix nonce ciphertext commitment signingKey
  assume b: "assertMlKem768 cr = Inr ()" "envelope_wf e"
    and enc: "encryptReleaseContentWith cr (bd_padding draws) message (rh_releaseId ?h) (rh_ownerAccountId ?h)
       (bd_contentKey draws) (bd_nonce draws) = Inr (nonce, ciphertext)"
    and com: "releaseKeyCommitment cr (bd_contentKey draws) = Inr commitment" "rh_keyCommitment ?h = toBase64 commitment"
    and sk: "importReleaseSigningKey cr owner = Inr signingKey"
    and names: "rh_ownerAccountId ?h = ri_accountId (ks_identity owner)" "rh_ownerFingerprint ?h = ks_fingerprint owner"
    and content: "rh_contentNonce ?h = toBase64 nonce" "rh_contentCiphertext ?h = toBase64 ciphertext"
    and sealed: "\<And>n. n < Suc (length recipients) \<Longrightarrow>
       sealReleaseCopy cr (bd_copies draws n) ?h (bd_contentKey draws) ((ks_identity owner # recipients) ! n) signingKey
         = Inr (re_copies e ! n)"
  have hw: "header_wf ?h" using b(2) by (simp add: envelope_wf_def)
  have dec: "decryptReleaseContent cr ?h (bd_contentKey draws) = Inr (drop_bom (repaired message))"
    by (rule decrypt_encrypted [OF enc _ _ hw content]) (use assms(1,2) in \<open>simp_all add: crypto_lawful_def\<close>)
  have c: "sealReleaseCopy cr (bd_copies draws n) ?h (bd_contentKey draws) (ks_identity keySet) signingKey = Inr (re_copies e ! n)"
    using sealed [OF assms(4)] assms(5) by simp
  show ?thesis
    using opens_sealed [OF assms(1,6) parse_own_header [OF hw] c com sk assms(7) _ _ dec b(1) assms(9,10)] assms(8) names
    by (simp add: releaseHeaderOf_def)
qed

section \<open>Guarantees\<close>

text \<open>
  C9: A build succeeds. With a provider that keeps its documented ranges, an owner's key set that passes
  its check, 1 to 64 recipients with distinct accounts and sound identities, and
  a message of 1 to 65536 bytes, \<open>buildReleaseEnvelope\<close> returns an envelope with
  one copy for the owner and for each recipient, in order.
\<close>

theorem build_succeeds:
  assumes "crypto_lawful cr" "provider_works cr" "assertMlKem768 cr = Inr ()" "signs_for cr owner" "draws_ok draws givenId"
    and "checkReleaseKeySet cr (bd_check draws) owner (Some (ri_accountId (ks_identity owner))) = Inr None"
    and "recipients \<noteq> []" "length recipients \<le> 64" "distinct (map ri_accountId (ks_identity owner # recipients))"
    and "list_all (always_sound cr) (ks_identity owner # recipients)"
    and "message \<noteq> []" "length (utf8Encode message) \<le> 65536"
  shows "\<exists>e. buildReleaseEnvelope cr draws owner recipients message givenId = Inr e \<and>
    map rc_recipientAccountId (re_copies e) = map ri_accountId (ks_identity owner # recipients)"
  by (rule buildReleaseEnvelope_total) (fact assms)+

lemma sample_set_fields [simp]:
  "ks_identity (sample_key_set a) = sample_identity a" "ks_fingerprint (sample_key_set a) = sample_fingerprint"
  "ri_accountId (sample_identity a) = a"
  by (simp_all add: sample_key_set_def sample_identity_def)

lemma sample_message: "units ''hi'' \<noteq> []" "length (utf8Encode (units ''hi'')) \<le> 65536"
  by (simp add: units_def) (simp add: length_utf8_ascii ascii_def)

lemmas sample_facts = sample_laws sample_signs_for [OF sample_accounts(1)] sample_draws_ok sample_check [OF sample_accounts(1)]
  sample_check [OF sample_accounts(2)] sample_always_sound [OF sample_accounts(1)] sample_always_sound [OF sample_accounts(2)]
  sample_keys_belong [OF sample_accounts(2)] sample_verifies [OF sample_accounts(1)] sample_message

theorem build_succeeds_witness:
  "\<exists>e. buildReleaseEnvelope sample_crypto sample_draws (sample_key_set ''alice'') [sample_identity ''bob''] (units ''hi'') None = Inr e \<and>
    map rc_recipientAccountId (re_copies e) = [''alice'', ''bob'']"
  using build_succeeds [of sample_crypto "sample_key_set ''alice''" sample_draws None "[sample_identity ''bob'']" "units ''hi''"]
  by (simp add: sample_facts)

text \<open>
  C6: Round trip. Whatever a build returns opens: the copy at a recipient's place
  (place 0 is the owner's), given to \<open>openReleaseCopy\<close> with the header and the key
  set of that recipient, shows the message the owner wrote, decoded as
  \<^verbatim>\<open>TextDecoder\<close> decodes what \<^verbatim>\<open>TextEncoder\<close> wrote (unpaired surrogates replaced,
  a leading byte order mark dropped), under the owner's account and fingerprint.
\<close>

theorem release_roundtrip:
  assumes "crypto_lawful cr" "\<forall>n. length (bd_padding draws n) = n"
    and "buildReleaseEnvelope cr draws owner recipients message givenId = Inr e"
    and "n < Suc (length recipients)" "ks_identity keySet = (ks_identity owner # recipients) ! n"
    and "keys_belong cr keySet" "signs_for cr owner"
    and "verifyReleaseIdentity cr (od_owner od) (publicReleaseIdentity (ks_identity owner)) None
      = Inr (Identity_ok (ks_identity owner) (ks_fingerprint owner))"
    and "checkReleaseKeySet cr (od_check od) keySet (Some (ri_accountId (ks_identity keySet))) = Inr None"
    and "find (\<lambda>k. ks_fingerprint k = ks_fingerprint keySet) keySets = Some keySet"
  shows "openReleaseCopy cr od (header_object (releaseHeaderOf e)) (copy_object (re_copies e ! n))
      (publicReleaseIdentity (ks_identity owner)) (ri_accountId (ks_identity keySet)) keySets =
    Inr (Inr \<lparr>ro_text = drop_bom (repaired message), ro_releaseId = rh_releaseId (re_header e),
              ro_ownerAccountId = ri_accountId (ks_identity owner), ro_ownerFingerprint = ks_fingerprint owner,
              ro_keySetFingerprint = ks_fingerprint keySet\<rparr>)"
  by (rule build_opens) (use assms in simp_all)

theorem release_roundtrip_witness:
  "\<exists>e. openReleaseCopy sample_crypto sample_open (header_object (releaseHeaderOf e)) (copy_object (re_copies e ! 1))
      (publicReleaseIdentity (sample_identity ''alice'')) ''bob'' [sample_key_set ''bob''] =
    Inr (Inr \<lparr>ro_text = drop_bom (repaired (units ''hi'')), ro_releaseId = rh_releaseId (re_header e), ro_ownerAccountId = ''alice'',
              ro_ownerFingerprint = sample_fingerprint, ro_keySetFingerprint = sample_fingerprint\<rparr>)"
proof -
  obtain e where e: "buildReleaseEnvelope sample_crypto sample_draws (sample_key_set ''alice'') [sample_identity ''bob''] (units ''hi'') None = Inr e"
    using buildReleaseEnvelope_total [of sample_crypto "sample_key_set ''alice''" sample_draws None "[sample_identity ''bob'']" "units ''hi''"]
    by (auto simp: sample_facts)
  show ?thesis
    using release_roundtrip [OF _ _ e, of 1 "sample_key_set ''bob''" sample_open "[sample_key_set ''bob'']"]
    by (auto simp: sample_facts sample_draws_def)
qed

lemma sample_build:
  obtains e where "buildReleaseEnvelope sample_crypto sample_draws (sample_key_set ''alice'') [sample_identity ''bob''] (units ''hi'') None = Inr e"
  using buildReleaseEnvelope_total [of sample_crypto "sample_key_set ''alice''" sample_draws None "[sample_identity ''bob'']" "units ''hi''"]
  by (auto simp: sample_facts)

lemma sample_opens:
  assumes "buildReleaseEnvelope sample_crypto sample_draws (sample_key_set ''alice'') [sample_identity ''bob''] (units ''hi'') None = Inr e"
    and "n < 2" "account = [''alice'', ''bob''] ! n"
  obtains t where "openReleaseCopy sample_crypto sample_open (header_object (re_header e)) (copy_object (re_copies e ! n))
      (publicReleaseIdentity (sample_identity ''alice'')) account [sample_key_set account] = Inr (Inr \<lparr>ro_text = t,
      ro_releaseId = rh_releaseId (re_header e), ro_ownerAccountId = ''alice'', ro_ownerFingerprint = sample_fingerprint,
      ro_keySetFingerprint = sample_fingerprint\<rparr>)"
proof -
  have "n = 0 \<or> n = 1" using assms(2) by auto
  then have "account = ''alice'' \<and> n = 0 \<or> account = ''bob'' \<and> n = 1" using assms(3) by auto
  then show thesis
    using build_opens [OF _ _ assms(1), of n "sample_key_set account" sample_open "[sample_key_set account]"] that
    by (auto simp: sample_facts sample_keys_belong [OF sample_accounts(1)] sample_draws_def releaseHeaderOf_def)
qed

text \<open>
  C7: What is shown is authentic. When \<open>openReleaseCopy\<close> shows a text, the owner
  identity it was given is sound, has the account and fingerprint that are shown,
  and its key signed the bytes that bind the shown release id and owner, this
  account and key set, the hash of the content and the commitment; the shown text
  is the decryption of that content under a key with that commitment.
\<close>

theorem opened_release_is_authentic:
  assumes "openReleaseCopy cr draws hv cv owner account keySets = Inr (Inr r)"
  shows "\<exists>i k nonce ciphertext commitment sealed signature message key associated padded bs.
     carries owner i \<and> ri_accountId i = ro_ownerAccountId r \<and> identity_sound cr (od_owner draws) i k (ro_ownerFingerprint r) \<and>
     releaseCopySignedBytes
       \<lparr>cx_releaseId = ro_releaseId r, cx_ownerAccountId = ro_ownerAccountId r, cx_ownerFingerprint = ro_ownerFingerprint r,
        cx_recipientAccountId = account, cx_recipientFingerprint = ro_keySetFingerprint r\<rparr>
       (releaseContentHash cr nonce ciphertext) commitment sealed = Inr message \<and>
     ed25519_check cr (kb_signingKey k) signature message = Inr True \<and>
     releaseKeyCommitment cr key = Inr commitment \<and>
     releaseContentAssociatedData (ro_releaseId r) (ro_ownerAccountId r) = Inr associated \<and>
     cr_aesDecrypt cr key nonce associated ciphertext = Inr padded \<and> unpad padded = Inr bs \<and> fatalUtf8 bs = Some (ro_text r)"
proof -
  obtain h c keySet key where c: "rc_recipientAccountId c = account"
      "find (\<lambda>k. ks_fingerprint k = rc_recipientFingerprint c) keySets = Some keySet"
    and a: "copy_authentic cr (od_owner draws) h owner c" and key: "content_key cr h c keySet key"
    and d: "decryptReleaseContent cr h key = Inr (ro_text r)"
    and r: "ro_releaseId r = rh_releaseId h" "ro_ownerAccountId r = rh_ownerAccountId h"
      "ro_ownerFingerprint r = rh_ownerFingerprint h" "ro_keySetFingerprint r = ks_fingerprint keySet"
    using assms unfolding openReleaseCopy_iff by blast
  obtain i k nonce ciphertext commitment sealed signature message where
      i: "carries owner i" "ri_accountId i = rh_ownerAccountId h" "identity_sound cr (od_owner draws) i k (rh_ownerFingerprint h)"
    and h: "rh_contentNonce h = toBase64 nonce" "rh_contentCiphertext h = toBase64 ciphertext" "rh_keyCommitment h = toBase64 commitment"
    and m: "releaseCopySignedBytes (contextFor h (rc_recipientAccountId c) (rc_recipientFingerprint c))
          (releaseContentHash cr nonce ciphertext) commitment sealed = Inr message"
      "ed25519_check cr (kb_signingKey k) signature message = Inr True"
    using a unfolding copy_authentic_def by blast
  have "rc_recipientFingerprint c = ro_keySetFingerprint r" using find_SomeD [OF c(2)] r(4) by simp
  then have m': "releaseCopySignedBytes
       \<lparr>cx_releaseId = ro_releaseId r, cx_ownerAccountId = ro_ownerAccountId r, cx_ownerFingerprint = ro_ownerFingerprint r,
        cx_recipientAccountId = account, cx_recipientFingerprint = ro_keySetFingerprint r\<rparr>
       (releaseContentHash cr nonce ciphertext) commitment sealed = Inr message"
    using m(1) c(1) r by (simp add: contextFor_def)
  have com: "releaseKeyCommitment cr key = Inr commitment" using key h(3) by (auto simp: content_key_def)
  show ?thesis
    using i m' m(2) com decryptReleaseContent_Inr [OF d h(1,2)] unfolding r by blast
qed

theorem opened_release_is_authentic_witness:
  "\<exists>i. carries (publicReleaseIdentity (sample_identity ''alice'')) i \<and> ri_accountId i = ''alice'' \<and>
     (\<exists>k. identity_sound sample_crypto (od_owner sample_open) i k sample_fingerprint)"
proof -
  obtain e where e: "buildReleaseEnvelope sample_crypto sample_draws (sample_key_set ''alice'') [sample_identity ''bob''] (units ''hi'') None = Inr e"
    by (rule sample_build)
  obtain t where "openReleaseCopy sample_crypto sample_open (header_object (re_header e)) (copy_object (re_copies e ! 1))
      (publicReleaseIdentity (sample_identity ''alice'')) ''bob'' [sample_key_set ''bob''] = Inr (Inr \<lparr>ro_text = t,
      ro_releaseId = rh_releaseId (re_header e), ro_ownerAccountId = ''alice'', ro_ownerFingerprint = sample_fingerprint,
      ro_keySetFingerprint = sample_fingerprint\<rparr>)"
    by (rule sample_opens [OF e, of 1 "''bob''"]) simp_all
  from opened_release_is_authentic [OF this] show ?thesis by auto
qed

text \<open>
  C10: Opening never throws with a provider whose \<^verbatim>\<open>verify\<close> answers. For every header,
  copy, identity and list of key sets, well formed or not, \<open>openReleaseCopy\<close> returns a
  result, a text or one of the problems it names, when SHA-256 gives 32 bytes, AES-GCM
  strips a tag of 16, and verification with an imported key answers true or false, as
  WebCrypto documents. Every other failure of the provider is caught and named. A
  \<^verbatim>\<open>verify\<close> that rejects is not: the key-set check lets it through
  (\<open>verify_rejection_escapes\<close>).
\<close>

theorem openReleaseCopy_never_rejects:
  assumes "sha_lawful cr" "aes_lengths cr" "verify_answers cr"
  shows "\<exists>result. openReleaseCopy cr draws hv cv owner account keySets = Inr result"
proof (cases "parseReleaseHeader hv")
  case (Inr h)
  then have hw: "header_wf h" unfolding parseReleaseHeader_iff by simp
  show ?thesis
  proof (cases "parseReleaseCopy cv")
    case c: (Inr c)
    show ?thesis
    proof (cases "find (\<lambda>k. ks_fingerprint k = rc_recipientFingerprint c) keySets")
      case (Some keySet)
      obtain p u where "checkReleaseKeySet cr (od_check draws) keySet (Some account) = Inr p"
          "unwrapCopy cr (od_owner draws) h c owner keySet = Inr u"
        using checkReleaseKeySet_total [OF assms(3)] unwrapCopy_total [OF hw assms(1,2)] by metis
      then show ?thesis
        using Inr c Some by (cases u) (auto simp: openReleaseCopy_def split: sum.splits)
    qed (use Inr c in \<open>auto simp: openReleaseCopy_def\<close>)
  qed (use Inr in \<open>simp add: openReleaseCopy_def\<close>)
qed (simp add: openReleaseCopy_def)

theorem openReleaseCopy_never_rejects_witness:
  "\<exists>e result. buildReleaseEnvelope sample_crypto sample_draws (sample_key_set ''alice'') [sample_identity ''bob''] (units ''hi'') None = Inr e \<and>
     find (\<lambda>k. ks_fingerprint k = rc_recipientFingerprint (re_copies e ! 1)) [sample_key_set ''bob''] = Some (sample_key_set ''bob'') \<and>
     openReleaseCopy sample_crypto sample_open (header_object (re_header e)) (copy_object (re_copies e ! 1))
       (publicReleaseIdentity (sample_identity ''alice'')) ''bob'' [sample_key_set ''bob''] = Inr result"
proof -
  obtain e where e: "buildReleaseEnvelope sample_crypto sample_draws (sample_key_set ''alice'') [sample_identity ''bob''] (units ''hi'') None = Inr e"
    by (rule sample_build)
  obtain t where "openReleaseCopy sample_crypto sample_open (header_object (re_header e)) (copy_object (re_copies e ! 1))
      (publicReleaseIdentity (sample_identity ''alice'')) ''bob'' [sample_key_set ''bob''] = Inr (Inr \<lparr>ro_text = t,
      ro_releaseId = rh_releaseId (re_header e), ro_ownerAccountId = ''alice'', ro_ownerFingerprint = sample_fingerprint,
      ro_keySetFingerprint = sample_fingerprint\<rparr>)"
    by (rule sample_opens [OF e, of 1 "''bob''"]) simp_all
  then obtain c keySet where c: "parseReleaseCopy (copy_object (re_copies e ! 1)) = Inr c"
      "find (\<lambda>k. ks_fingerprint k = rc_recipientFingerprint c) [sample_key_set ''bob''] = Some keySet"
    unfolding openReleaseCopy_iff by blast
  have "c = re_copies e ! 1" using c(1) unfolding parseReleaseCopy_iff carries_copy_unique by auto
  then have "find (\<lambda>k. ks_fingerprint k = rc_recipientFingerprint (re_copies e ! 1)) [sample_key_set ''bob''] = Some (sample_key_set ''bob'')"
    using c(2) by (auto split: if_splits)
  moreover have "sha_lawful sample_crypto" using sample_laws(1) by (simp add: crypto_lawful_def)
  ultimately show ?thesis
    using e openReleaseCopy_never_rejects [OF _ sample_laws(3,5), of sample_open "header_object (re_header e)"
      "copy_object (re_copies e ! 1)" "publicReleaseIdentity (sample_identity ''alice'')" "''bob''" "[sample_key_set ''bob'']"]
    by blast
qed

text \<open>
  C8: Re-sealing. A copy that \<open>resealReleaseCopy\<close> returns is for the release that
  was asked for, and opens with the recipient's new key set to the text that the
  owner's own copy opens to; the owner's device checked that own copy in full.
\<close>

theorem reseal_passes_on_the_named_release:
  assumes "crypto_lawful cr" "resealReleaseCopy cr draws sd rid hv ov owner (ks_identity keySet) = Inr c"
    and "keys_belong cr keySet" "signs_for cr owner"
    and "verifyReleaseIdentity cr (od_owner od) (publicReleaseIdentity (ks_identity owner)) None
      = Inr (Identity_ok (ks_identity owner) (ks_fingerprint owner))"
    and "checkReleaseKeySet cr (od_check od) keySet (Some (ri_accountId (ks_identity keySet))) = Inr None"
    and "find (\<lambda>k. ks_fingerprint k = ks_fingerprint keySet) keySets = Some keySet"
  shows "\<exists>t. openReleaseCopy cr draws hv ov (publicReleaseIdentity (ks_identity owner)) (ri_accountId (ks_identity owner)) [owner] =
      Inr (Inr \<lparr>ro_text = t, ro_releaseId = rid, ro_ownerAccountId = ri_accountId (ks_identity owner),
                ro_ownerFingerprint = ks_fingerprint owner, ro_keySetFingerprint = ks_fingerprint owner\<rparr>) \<and>
    openReleaseCopy cr od hv (copy_object c) (publicReleaseIdentity (ks_identity owner)) (ri_accountId (ks_identity keySet)) keySets =
      Inr (Inr \<lparr>ro_text = t, ro_releaseId = rid, ro_ownerAccountId = ri_accountId (ks_identity owner),
                ro_ownerFingerprint = ks_fingerprint owner, ro_keySetFingerprint = ks_fingerprint keySet\<rparr>)"
  using assms(2)
proof (rule resealReleaseCopy_Inr)
  fix h own K t signingKey
  assume r: "assertMlKem768 cr = Inr ()" "parseReleaseHeader hv = Inr h" "parseReleaseCopy ov = Inr own" "rh_releaseId h = rid"
    "ri_accountId (ks_identity owner) = rh_ownerAccountId h" "ks_fingerprint owner = rh_ownerFingerprint h"
    "rc_recipientAccountId own = rh_ownerAccountId h" "rc_recipientFingerprint own = rh_ownerFingerprint h"
    "checkReleaseKeySet cr (od_check draws) owner (Some (rh_ownerAccountId h)) = Inr None"
    "copy_authentic cr (od_owner draws) h (publicReleaseIdentity (ks_identity owner)) own" "content_key cr h own owner K"
    "decryptReleaseContent cr h K = Inr t" "importReleaseSigningKey cr owner = Inr signingKey"
    "sealReleaseCopy cr sd h K (ks_identity keySet) signingKey = Inr c"
  obtain com where com: "releaseKeyCommitment cr K = Inr com" "rh_keyCommitment h = toBase64 com"
    using r(11) unfolding content_key_def by blast
  have "openReleaseCopy cr draws hv ov (publicReleaseIdentity (ks_identity owner)) (ri_accountId (ks_identity owner)) [owner] =
      Inr (Inr \<lparr>ro_text = t, ro_releaseId = rid, ro_ownerAccountId = ri_accountId (ks_identity owner),
                ro_ownerFingerprint = ks_fingerprint owner, ro_keySetFingerprint = ks_fingerprint owner\<rparr>)"
    unfolding openReleaseCopy_iff
    by (intro exI [of _ h] exI [of _ own] exI [of _ owner] exI [of _ K]) (use r in simp)
  moreover have "openReleaseCopy cr od hv (copy_object c) (publicReleaseIdentity (ks_identity owner)) (ri_accountId (ks_identity keySet)) keySets =
      Inr (Inr \<lparr>ro_text = t, ro_releaseId = rid, ro_ownerAccountId = ri_accountId (ks_identity owner),
                ro_ownerFingerprint = ks_fingerprint owner, ro_keySetFingerprint = ks_fingerprint keySet\<rparr>)"
    using opens_sealed [OF assms(1,3) r(2,14) com r(13) assms(4) r(5) _ r(12,1) assms(6,7)] assms(5) r(4,5,6) by simp
  ultimately show ?thesis by blast
qed

text \<open>An own copy that opens can be re-sealed to any sound identity of another account.\<close>

lemma resealReleaseCopy_total:
  assumes "crypto_lawful cr" "provider_works cr" "importReleaseSigningKey cr owner = Inr sk"
    and "openReleaseCopy cr draws hv ov (publicReleaseIdentity (ks_identity owner)) (ri_accountId (ks_identity owner)) [owner] = Inr (Inr r)"
    and "ro_releaseId r = rid" "ro_ownerAccountId r = ri_accountId (ks_identity owner)" "ro_ownerFingerprint r = ks_fingerprint owner"
    and "always_sound cr i" "ri_accountId i \<noteq> ri_accountId (ks_identity owner)" "length (sd_nonce (snd sd)) = 12"
  shows "\<exists>c. resealReleaseCopy cr draws sd rid hv ov owner i = Inr c"
proof -
  obtain h c keySet K where o: "parseReleaseHeader hv = Inr h" "parseReleaseCopy ov = Inr c"
      "rc_recipientAccountId c = ri_accountId (ks_identity owner)"
      "find (\<lambda>k. ks_fingerprint k = rc_recipientFingerprint c) [owner] = Some keySet" "assertMlKem768 cr = Inr ()"
      "checkReleaseKeySet cr (od_check draws) keySet (Some (ri_accountId (ks_identity owner))) = Inr None"
      "copy_authentic cr (od_owner draws) h (publicReleaseIdentity (ks_identity owner)) c" "content_key cr h c keySet K"
      "decryptReleaseContent cr h K = Inr (ro_text r)" "ro_releaseId r = rh_releaseId h" "ro_ownerAccountId r = rh_ownerAccountId h"
      "ro_ownerFingerprint r = rh_ownerFingerprint h"
    using assms(4) unfolding openReleaseCopy_iff by blast
  have k: "keySet = owner" "rc_recipientFingerprint c = ks_fingerprint owner" using o(4) by (auto split: if_splits)
  have hw: "header_wf h" using o(1) unfolding parseReleaseHeader_iff by simp
  have u: "unwrapCopy cr (od_owner draws) h c (publicReleaseIdentity (ks_identity owner)) owner = Inr (Inr K)"
    unfolding unwrapCopy_Inr [OF hw] using o(7,8) k(1) by simp
  have "length K = 32"
    using o(8) by (auto simp: content_key_def releaseKeyCommitment_def RELEASE_CONTENT_KEY_BYTES_def split: if_splits)
  then obtain c' where "sealReleaseCopy cr sd h K i sk = Inr c'"
    using sealReleaseCopy_total [OF assms(1,2) o(5) hw _ assms(10,8), of K "jwkMembers (ks_signingPrivateJwk owner)" sk] assms(3)
    by (auto simp: importReleaseSigningKey_def)
  then show ?thesis
    using o k u assms(3,5-7,9) by (simp add: resealReleaseCopy_def owner_key_set_ok_def)
qed

theorem reseal_passes_on_the_named_release_witness:
  "\<exists>hv c t. openReleaseCopy sample_crypto sample_open hv (copy_object c) (publicReleaseIdentity (sample_identity ''alice'')) ''bob''
       [sample_key_set ''bob''] =
     Inr (Inr \<lparr>ro_text = t, ro_releaseId = newReleaseId (replicate 16 0), ro_ownerAccountId = ''alice'',
               ro_ownerFingerprint = sample_fingerprint, ro_keySetFingerprint = sample_fingerprint\<rparr>)"
proof -
  let ?owner = "sample_key_set ''alice''" and ?rid = "newReleaseId (replicate 16 0)"
  obtain e where e: "buildReleaseEnvelope sample_crypto sample_draws ?owner [sample_identity ''bob''] (units ''hi'') None = Inr e"
    by (rule sample_build)
  obtain t where t: "openReleaseCopy sample_crypto sample_open (header_object (re_header e)) (copy_object (re_copies e ! 0))
      (publicReleaseIdentity (sample_identity ''alice'')) ''alice'' [?owner] = Inr (Inr \<lparr>ro_text = t,
      ro_releaseId = rh_releaseId (re_header e), ro_ownerAccountId = ''alice'', ro_ownerFingerprint = sample_fingerprint,
      ro_keySetFingerprint = sample_fingerprint\<rparr>)"
    by (rule sample_opens [OF e, of 0 "''alice''"]) simp_all
  have rid: "rh_releaseId (re_header e) = ?rid"
    using e by (auto simp: buildReleaseEnvelope_def sample_draws_def Let_def passed_on split: if_splits dest!: parse_own_envelope_unique)
  obtain sk where sk: "importReleaseSigningKey sample_crypto ?owner = Inr sk" by (simp add: importReleaseSigningKey_def sample_crypto_def)
  obtain c where "resealReleaseCopy sample_crypto sample_open (bd_copies sample_draws 0) ?rid (header_object (re_header e))
      (copy_object (re_copies e ! 0)) ?owner (ks_identity (sample_key_set ''bob'')) = Inr c"
    using resealReleaseCopy_total [OF sample_laws(1,2) sk, where r = "\<lparr>ro_text = t, ro_releaseId = rh_releaseId (re_header e),
        ro_ownerAccountId = ''alice'', ro_ownerFingerprint = sample_fingerprint, ro_keySetFingerprint = sample_fingerprint\<rparr>"
        and hv = "header_object (re_header e)" and ov = "copy_object (re_copies e ! 0)" and draws = sample_open
        and i = "sample_identity ''bob''" and sd = "bd_copies sample_draws 0" and rid = ?rid] t rid
    by (auto simp: sample_facts sample_draws_def)
  from reseal_passes_on_the_named_release [OF sample_laws(1) this, of sample_open "[sample_key_set ''bob'']"]
  show ?thesis by (auto simp: sample_facts)
qed

text \<open>
  C11: Identity verification is sound and complete. \<open>verifyReleaseIdentity\<close> accepts an
  input exactly when it is an object with the six fields of an identity, each the
  one canonical encoding of a key or signature of the accepted form, the account is
  the expected one, the X25519 key contributes, and the signature verifies under the
  identity's own key; the fingerprint is the hash of the signed bytes.
\<close>

theorem accepted_identity_iff:
  "verifyReleaseIdentity cr seed v expected = Inr (Identity_ok i fp) \<longleftrightarrow>
     carries v i \<and> (\<exists>k. identity_sound cr seed i k fp) \<and> (expected = None \<or> expected = Some (ri_accountId i))"
  by (rule verifyReleaseIdentity_iff)

text \<open>
  C16: Whatever \<open>parseReleaseEnvelope\<close> accepts is a well-formed envelope: a header with
  canonical fields and a padded ciphertext, 2 to 65 well-formed copies for distinct
  accounts, exactly one of them the owner's, under the owner's fingerprint. Parsing
  what is written from it gives it back.
\<close>

theorem parsed_envelope_wf:
  "parseReleaseEnvelope v = Inr e \<Longrightarrow> envelope_wf e \<and> parseReleaseEnvelope (envelope_object e) = Inr e"
  using parseReleaseEnvelope_wf parse_own_envelope by blast

theorem parsed_envelope_wf_witness:
  "\<exists>e. parseReleaseEnvelope (envelope_object e) = Inr e \<and> envelope_wf e"
proof -
  obtain e where e: "buildReleaseEnvelope sample_crypto sample_draws (sample_key_set ''alice'') [sample_identity ''bob''] (units ''hi'') None = Inr e"
    by (rule sample_build)
  then have "envelope_wf e" by (rule buildReleaseEnvelope_Inr)
  from parsed_envelope_wf [OF parse_own_envelope [OF this]] show ?thesis by blast
qed

text \<open>
  C12: A signature on a copy says one thing. Bytes that are signed for a copy determine
  release id, owner, owner's fingerprint, recipient, recipient's fingerprint, content
  hash, key commitment and sealed key; and they are never the bytes of an identity.
\<close>

theorem signed_bytes_bind:
  assumes "releaseCopySignedBytes c hash com key = Inr b"
  shows "(\<forall>c' hash' com' key'. releaseCopySignedBytes c' hash' com' key' = Inr b \<longrightarrow>
       c' = c \<and> hash' = hash \<and> com' = com \<and> key' = key) \<and> (\<forall>k. releaseIdentitySignedBytes k \<noteq> Inr b)"
proof -
  have "releaseIdentitySignedBytes k \<noteq> Inr b" for k
  proof
    assume "releaseIdentitySignedBytes k = Inr b"
    then obtain x where "b = labelBytes RELEASE_IDENTITY_LABEL @ x"
      by (auto simp: releaseIdentitySignedBytes_def concatBytes_def split: if_splits)
    moreover from assms obtain y where "b = labelBytes RELEASE_SEAL_SIGNATURE_LABEL @ y"
      unfolding releaseCopySignedBytes_Inr by blast
    ultimately have "RELEASE_IDENTITY_LABEL = RELEASE_SEAL_SIGNATURE_LABEL"
      using labelBytes_prefix_free [OF label_identity release_label_texts(2)] by metis
    then show False by (simp add: release_labels)
  qed
  then show ?thesis using releaseCopySignedBytes_inject [OF _ assms] by blast
qed

definition sample_context :: ReleaseCopyContext where
  "sample_context = \<lparr>cx_releaseId = newReleaseId (replicate 16 0), cx_ownerAccountId = ''alice'',
     cx_ownerFingerprint = sample_fingerprint, cx_recipientAccountId = ''bob'', cx_recipientFingerprint = sample_fingerprint\<rparr>"

theorem signed_bytes_bind_witness:
  "\<exists>b. releaseCopySignedBytes sample_context (replicate 32 0) (replicate 32 0) (replicate 1180 0) = Inr b \<and>
     releaseIdentitySignedBytes (sample_key_bytes ''alice'') \<noteq> Inr b"
proof -
  have "\<exists>b. asciiField (newReleaseId (replicate 16 0)) RELEASE_ID_PATTERN = Inr b"
    using asciiField_release_id [OF newReleaseId_pattern, of "replicate 16 0"] by simp
  then obtain cb where "contextBytes sample_context = Inr cb"
    using asciiField_account [OF sample_accounts(1)] asciiField_account [OF sample_accounts(2)]
      fingerprintField_Inr [of sample_fingerprint "replicate 32 0"]
    by (auto simp: contextBytes_def sample_context_def sample_fingerprint_def)
  then obtain b where b: "releaseCopySignedBytes sample_context (replicate 32 0) (replicate 32 0) (replicate 1180 0) = Inr b"
    by (auto simp: releaseCopySignedBytes_Inr)
  with signed_bytes_bind [OF b] show ?thesis by blast
qed

text \<open>
  C17: The byte-wise key checks are range checks. An X25519 key is accepted exactly
  when it is 32 bytes whose little-endian number is below the prime
  \<open>2^255 - 19\<close>; an Ed25519 scalar exactly when its number is below the group
  order; an ML-KEM-768 key exactly when it has 1184 bytes and its 768 twelve-bit
  coefficients are below 3329.
\<close>

theorem key_checks_are_ranges:
  "(x25519KeyIsCanonical key \<longleftrightarrow> length key = 32 \<and> le_value key < 2 ^ 255 - 19) \<and>
   (length scalar = 32 \<longrightarrow> (ed25519ScalarIsCanonical scalar \<longleftrightarrow>
      le_value scalar < 2 ^ 252 + 27742317777372353535851937790883648493)) \<and>
   (mlKem768EncapsulationKeyIsWellFormed pq \<longleftrightarrow>
      length pq = 1184 \<and> (\<forall>k < 768. le_value (take 1152 pq) div 4096 ^ k mod 4096 < 3329))"
  using x25519KeyIsCanonical_iff [of key] ed25519ScalarIsCanonical_iff [of scalar] mlKem768_wellFormed_iff [of pq]
  by (simp add: field_prime_def coefficient_def)

theorem key_checks_are_ranges_witness:
  "x25519KeyIsCanonical (replicate 32 0) \<and> ed25519ScalarIsCanonical (replicate 32 0) \<and>
   mlKem768EncapsulationKeyIsWellFormed (replicate 1184 0)"
  using key_checks_are_ranges [of "replicate 32 0" "replicate 32 0" "replicate 1184 0"] by simp

text \<open>
  C18: One text per value. A field decodes, as canonical base64 of some length, to bytes
  exactly when it is the string that \<open>toBase64\<close> writes for them; so no two spellings of
  a key or signature are accepted, and decoding what was encoded gives it back.
\<close>

theorem base64_has_one_form:
  "(decodeCanonicalBase64 v (Some n) = Some bs \<longleftrightarrow> v = JString (toBase64 bs) \<and> bs \<noteq> [] \<and> length bs = n) \<and>
   fromBase64 (toBase64 bs) = Inr bs"
  by (simp add: decodeCanonicalBase64_iff fromBase64_toBase64)

text \<open>
  C19: Padding hides the length up to the bucket and loses nothing. A padded message has
  the length of a bucket, the smallest that holds it with 16 bytes to spare, and
  \<open>unpad\<close> gives the message back; whatever \<open>unpad\<close> accepts is such a padding.
\<close>

theorem padding_roundtrip:
  assumes "pad rb plain Pad_bucket = Inr (padded, bucket)" "\<forall>n. length (rb n) = n"
  shows "unpad padded = Inr plain \<and> length padded = bucket \<and> isBucketSize bucket \<and> length plain + 16 \<le> bucket \<and>
    (\<forall>b \<in> set BUCKETS. length plain + 16 \<le> b \<longrightarrow> bucket \<le> b) \<and>
    (\<forall>p. unpad p = Inr plain \<and> length p = bucket \<longrightarrow> p = padded)"
proof -
  have l: "\<And>n. length (rb n) = n" using assms(2) by blast
  have t: "selectBucket (length plain) = Inr bucket" using pad_Inr(3) [OF assms(1) l] by simp
  have "p = padded" if "unpad p = Inr plain" "length p = bucket" for p
    using unpad_Inr [OF that(1)] pad_Inr(1) [OF assms(1) l] that(2) by simp
  then show ?thesis
    using unpad_pad [OF assms(1) l] pad_length [OF assms(1) l] selectBucket_Inr [OF t]
    unfolding isBucketSize_def by blast
qed

theorem padding_roundtrip_witness:
  "\<exists>padded. unpad padded = Inr [104, 105] \<and> length padded = 1024"
proof -
  obtain padded where p: "pad (\<lambda>n. replicate n 0) [104, 105] Pad_bucket = Inr (padded, 1024)"
    by (simp add: pad_def selectBucket_def BUCKETS_def Let_def)
  from padding_roundtrip [OF p] show ?thesis by auto
qed

end
