(* ===== verification/Galois_Field.thy ===== *)
theory Galois_Field
  imports Byte_Codec
begin

text \<open>
  The field of 256 elements as \<^verbatim>\<open>deaddrop/crypto/quorum.ts\<close> computes in it: tables of
  powers and logarithms of the generator 3, multiplication and division through
  them. The lemmas show that the tables are what they are meant to be and that
  these operations, with exclusive or as addition, form a field.
\<close>

unbundle bit_operations_syntax

section \<open>Tables and operations\<close>

fun table_loop :: "nat \<Rightarrow> nat \<Rightarrow> byte \<Rightarrow> byte list \<times> byte list \<Rightarrow> byte list \<times> byte list" where
  "table_loop 0 i x (EXP, LOG) = (EXP, LOG)"
| "table_loop (Suc k) i x (EXP, LOG) =
     (let EXP = EXP[i := x];
          LOG = LOG[unat x := of_nat i];
          next = push_bit 1 x;
          next = (if x AND 0x80 \<noteq> 0 then next XOR 0x1b else next);
          next = next XOR x
      in table_loop k (i + 1) next (EXP, LOG))"

definition gf_tables :: "byte list \<times> byte list" where
  "gf_tables =
     (let (EXP, LOG) = table_loop 255 0 1 (replicate 256 0, replicate 256 0)
      in (EXP[255 := EXP ! 0], LOG))"

definition EXP :: "byte list" where "EXP = fst gf_tables"
definition LOG :: "byte list" where "LOG = snd gf_tables"

definition gfMul :: "byte \<Rightarrow> byte \<Rightarrow> byte" where
  "gfMul a b = (if a = 0 \<or> b = 0 then 0 else EXP ! ((unat (LOG ! unat a) + unat (LOG ! unat b)) mod 255))"

datatype quorum_error =
    Division_by_zero
  | Threshold_invalid
  | Shares_below_threshold
  | Too_many_shares
  | Empty_secret
  | Too_few_shares
  | Length_mismatch
  | X_out_of_range
  | Duplicate_x

definition gfDiv :: "byte \<Rightarrow> byte \<Rightarrow> quorum_error + byte" where
  "gfDiv a b =
     (if b = 0 then Inl Division_by_zero
      else if a = 0 then Inr 0
      else Inr (EXP ! ((unat (LOG ! unat a) + 255 - unat (LOG ! unat b)) mod 255)))"

section \<open>Powers of the generator\<close>

text \<open>One step of the loop is multiplication by 3.\<close>

definition mul3 :: "byte \<Rightarrow> byte" where
  "mul3 x = (if x AND 0x80 \<noteq> 0 then push_bit 1 x XOR 0x1b else push_bit 1 x) XOR x"

definition pow3 :: "nat \<Rightarrow> byte" where "pow3 n = (mul3 ^^ n) 1"

lemma top_bit: "x AND 0x80 \<noteq> 0 \<longleftrightarrow> bit (x :: byte) 7"
  using and_exp_eq_0_iff_not_bit [of x 7] by simp

lemma xor_eq_0: "x XOR y = 0 \<longleftrightarrow> x = y" for x y :: "'a :: ring_bit_operations"
proof
  assume "x XOR y = 0"
  then have "(x XOR y) XOR y = 0 XOR y" by (rule arg_cong)
  then show "x = y" by (simp add: xor.assoc)
qed simp

lemma mul3_xor: "mul3 (x XOR y) = mul3 x XOR mul3 y"
  unfolding mul3_def top_bit
  by (cases "bit x 7"; cases "bit y 7") (simp_all add: bit_xor_iff push_bit_xor ac_simps xor.left_commute)

lemma mul3_0 [simp]: "mul3 0 = 0" by (simp add: mul3_def)

text \<open>The same step on integers, which evaluates fast.\<close>

definition mul3i :: "int \<Rightarrow> int" where
  "mul3i x = (if 128 \<le> x then (2 * x - 256) XOR 27 XOR x else 2 * x XOR x)"

lemma byte_doubling:
  "0 \<le> u \<Longrightarrow> u < 256 \<Longrightarrow> odd (u div 128) \<longleftrightarrow> 128 \<le> u"
  "0 \<le> u \<Longrightarrow> u < 256 \<Longrightarrow> 2 * u mod 256 = (if 128 \<le> u then 2 * u - 256 else 2 * u)" for u :: int
proof -
  assume u: "0 \<le> u" "u < 256"
  show "odd (u div 128) \<longleftrightarrow> 128 \<le> u"
    using u div_add_self2 [of 128 "u - 128"] by (cases "128 \<le> u") simp_all
  show "2 * u mod 256 = (if 128 \<le> u then 2 * u - 256 else 2 * u)"
  proof (cases "128 \<le> u")
    case True
    have "2 * u mod 256 = (2 * u - 256 + 256) mod 256" by simp
    also have "\<dots> = (2 * u - 256) mod 256" by (rule mod_add_self2)
    also have "\<dots> = 2 * u - 256" by (rule mod_pos_pos_trivial) (use u True in simp_all)
    finally show ?thesis using True by simp
  qed (use u in simp)
qed

lemma uint_mul3: "uint (mul3 x) = mul3i (uint x)"
proof -
  have b: "0 \<le> uint x" "uint x < 256" using uint_lt2p [of x] by simp_all
  have t: "bit x 7 \<longleftrightarrow> 128 \<le> uint x"
    using byte_doubling(1) [OF b] bit_iff_odd [of "uint x" 7] by (simp add: bit_uint_iff)
  have p: "uint (push_bit 1 x) = (if 128 \<le> uint x then 2 * uint x - 256 else 2 * uint x)"
    unfolding unsigned_push_bit_eq using byte_doubling(2) [OF b] by (simp add: take_bit_eq_mod push_bit_eq_mult mult.commute)
  show ?thesis
    unfolding mul3_def top_bit t mul3i_def by (simp only: unsigned_xor_eq p if_distrib [of uint]) (simp add: xor.assoc)
qed

lemma mul3_eq_0: "mul3 x = 0 \<longleftrightarrow> x = 0"
proof
  assume z: "mul3 x = 0"
  have b: "0 \<le> uint x" "uint x < 256" using uint_lt2p [of x] by simp_all
  have i: "mul3i (uint x) = 0" using uint_mul3 [of x] z by simp
  have "list_all (\<lambda>u. mul3i u \<noteq> 0) [128..255]" by code_simp
  then have "mul3i u \<noteq> 0" if "u \<in> {128..255}" for u using that unfolding list_all_iff set_upto by blast
  then have "\<not> 128 \<le> uint x" using i b by force
  with i have "2 * uint x = uint x" by (simp add: mul3i_def xor_eq_0)
  then show "x = 0" by (simp add: unsigned_eq_0_iff)
qed simp

lemma mul3_inject: "mul3 x = mul3 y \<longleftrightarrow> x = y"
  using mul3_eq_0 [of "x XOR y"] by (auto simp: mul3_xor xor_eq_0)

lemma funpow_mul3_inject: "(mul3 ^^ n) x = (mul3 ^^ n) y \<longleftrightarrow> x = y"
  by (induction n arbitrary: x y) (simp_all add: mul3_inject)

lemma funpow_mul3_xor: "(mul3 ^^ n) (x XOR y) = (mul3 ^^ n) x XOR (mul3 ^^ n) y"
  by (induction n) (simp_all add: mul3_xor)

lemma funpow_mul3_0 [simp]: "(mul3 ^^ n) 0 = 0"
  by (induction n) simp_all

lemma pow3_0 [simp]: "pow3 0 = 1" by (simp add: pow3_def)

lemma pow3_Suc: "pow3 (Suc n) = mul3 (pow3 n)" by (simp add: pow3_def)

lemma pow3_add: "pow3 (m + n) = (mul3 ^^ m) (pow3 n)" by (simp add: pow3_def funpow_add)

lemma pow3_nonzero: "pow3 n \<noteq> 0"
  by (induction n) (simp_all add: pow3_Suc mul3_eq_0)

lemma uint_pow3: "uint (pow3 n) = fold (\<lambda>_. mul3i) [0..<n] 1"
  by (induction n) (simp_all add: pow3_Suc uint_mul3)

text \<open>The generator has order 255: its powers at the maximal proper divisors are not 1.\<close>

lemma pow3_order:
  "pow3 15 \<noteq> 1" "pow3 51 \<noteq> 1" "pow3 85 \<noteq> 1" "pow3 255 = 1"
  subgoal using uint_pow3 [of 15] by (auto simp: upt_rec mul3i_def)
  subgoal using uint_pow3 [of 51] by (auto simp: upt_rec mul3i_def)
  subgoal using uint_pow3 [of 85] by (auto simp: upt_rec mul3i_def)
  subgoal
  proof -
    have "uint (pow3 255) = 1" unfolding uint_pow3 by (simp add: upt_rec mul3i_def)
    then show ?thesis by (metis word_of_int_uint of_int_1)
  qed
  done

lemma pow3_add_one: "pow3 n = 1 \<Longrightarrow> pow3 (m + n) = pow3 m"
  unfolding pow3_add by (simp add: pow3_def [of m])

lemma pow3_cycle: "pow3 (255 * k + r) = pow3 r"
proof (induction k)
  case (Suc k)
  have "pow3 (255 * Suc k + r) = pow3 ((255 * k + r) + 255)" by (simp add: algebra_simps)
  also have "\<dots> = pow3 (255 * k + r)" by (rule pow3_add_one) (rule pow3_order(4))
  finally show ?case using Suc by simp
qed simp

lemma pow3_mod [simp]: "pow3 (n mod 255) = pow3 n"
  using pow3_cycle [of "n div 255" "n mod 255"] by simp

lemma pow3_multiple: "pow3 d = 1 \<Longrightarrow> pow3 (d * k) = 1"
proof (induction k)
  case (Suc k)
  then show ?case using pow3_add_one [of d "d * k"] by (simp add: add.commute)
qed simp

lemma divisors_255:
  assumes "g dvd (255 :: nat)" "g < 255"
  shows "g dvd 15 \<or> g dvd 51 \<or> g dvd 85"
proof -
  have "list_all (\<lambda>g :: int. 255 mod g = 0 \<longrightarrow> 15 mod g = 0 \<or> 51 mod g = 0 \<or> 85 mod g = 0) [1..254]" by code_simp
  then have l: "15 mod n = 0 \<or> 51 mod n = 0 \<or> 85 mod n = 0" if "255 mod n = 0" "n \<in> {1..254}" for n :: int
    using that unfolding list_all_iff set_upto by (meson bspec)
  have g: "int g dvd int 255" "0 < g" using assms(1) by (simp only: of_nat_dvd_iff, cases g, simp_all)
  then have "int 255 mod int g = 0" by (simp only: dvd_imp_mod_0)
  then have "15 mod int g = 0 \<or> 51 mod int g = 0 \<or> 85 mod int g = 0" using l [of "int g"] assms(2) g(2) by simp
  then have "int g dvd int 15 \<or> int g dvd int 51 \<or> int g dvd int 85" by (auto simp: mod_eq_0_iff_dvd)
  then show ?thesis by (simp only: of_nat_dvd_iff)
qed

lemma pow3_one:
  assumes "pow3 d = 1" "d < 255"
  shows "d = 0"
proof (rule ccontr)
  assume d: "d \<noteq> 0"
  then obtain x y where xy: "d * x = 255 * y + gcd d 255" using bezout_nat [of d 255] by auto
  have "pow3 (gcd d 255) = 1"
    using pow3_multiple [OF assms(1), of x] unfolding xy pow3_cycle .
  moreover have "gcd d 255 < 255" using gcd_le1_nat [of d 255] d assms(2) by linarith
  then have "gcd d 255 dvd 15 \<or> gcd d 255 dvd 51 \<or> gcd d 255 dvd 85" by (intro divisors_255) simp_all
  ultimately show False using pow3_multiple pow3_order(1-3) by (metis dvdE)
qed

lemma pow3_inj: "inj_on pow3 {..<255}"
proof (rule linorder_inj_onI)
  fix i j :: nat
  assume ij: "i < j" "i \<in> {..<255}" "j \<in> {..<255}"
  show "pow3 i \<noteq> pow3 j"
  proof
    assume "pow3 i = pow3 j"
    then have "(mul3 ^^ i) 1 = (mul3 ^^ i) (pow3 (j - i))" using ij(1) pow3_add [of i "j - i"] by (simp add: pow3_def)
    then have "pow3 (j - i) = 1" unfolding funpow_mul3_inject by simp
    then have "j - i = 0" by (rule pow3_one) (use ij in simp)
    with ij show False by simp
  qed
qed auto

lemma pow3_surj: "pow3 ` {..<255} = UNIV - {0}"
proof (rule card_subset_eq)
  show "card (pow3 ` {..<255}) = card (UNIV - {0} :: byte set)"
    by (simp add: card_image [OF pow3_inj] card_Diff_singleton card_word)
qed (auto simp: pow3_nonzero)

lemma nonzero_power:
  assumes "b \<noteq> 0"
  obtains i where "i < 255" "b = pow3 i"
proof -
  have "b \<in> pow3 ` {..<255}" unfolding pow3_surj using assms by simp
  then show thesis using that by blast
qed

section \<open>The tables\<close>

lemma table_step:
  "table_loop (Suc k) i x (E, L) = table_loop k (Suc i) (mul3 x) (E[i := x], L[unat x := of_nat i])"
  by (simp add: mul3_def Let_def)

lemma table_loop_spec:
  assumes "table_loop k i (pow3 i) (E, L) = (E', L')" "length E = 256" "length L = 256" "i + k \<le> 255"
  shows "length E' = 256 \<and> length L' = 256 \<and> (\<forall>j < 256. E' ! j = (if i \<le> j \<and> j < i + k then pow3 j else E ! j)) \<and>
    (\<forall>j. i \<le> j \<and> j < i + k \<longrightarrow> L' ! unat (pow3 j) = of_nat j) \<and>
    (\<forall>n < 256. n \<notin> (\<lambda>j. unat (pow3 j)) ` {i..<i + k} \<longrightarrow> L' ! n = L ! n)"
  using assms
proof (induction k arbitrary: i E L)
  case (Suc k)
  let ?E = "E[i := pow3 i]" and ?L = "L[unat (pow3 i) := of_nat i]"
  have t: "table_loop k (Suc i) (pow3 (Suc i)) (?E, ?L) = (E', L')" using Suc.prems(1) unfolding table_step pow3_Suc .
  have ih: "length E' = 256 \<and> length L' = 256 \<and> (\<forall>j < 256. E' ! j = (if Suc i \<le> j \<and> j < Suc i + k then pow3 j else ?E ! j)) \<and>
    (\<forall>j. Suc i \<le> j \<and> j < Suc i + k \<longrightarrow> L' ! unat (pow3 j) = of_nat j) \<and>
    (\<forall>n < 256. n \<notin> (\<lambda>j. unat (pow3 j)) ` {Suc i..<Suc i + k} \<longrightarrow> L' ! n = ?L ! n)"
    by (rule Suc.IH [OF t]) (use Suc.prems in simp_all)
  have u: "unat (pow3 i) < 256" using unsigned_less [of "pow3 i"] by simp
  have "unat (pow3 i) \<notin> (\<lambda>j. unat (pow3 j)) ` {Suc i..<Suc i + k}"
  proof
    assume "unat (pow3 i) \<in> (\<lambda>j. unat (pow3 j)) ` {Suc i..<Suc i + k}"
    then obtain j where j: "Suc i \<le> j" "j < Suc i + k" "pow3 i = pow3 j"
      by (auto simp: word_unat_eq_iff)
    then show False using inj_onD [OF pow3_inj j(3)] Suc.prems(4) by simp
  qed
  then have own: "L' ! unat (pow3 i) = of_nat i" using ih u Suc.prems(3) by simp
  have "L' ! unat (pow3 j) = of_nat j" if "i \<le> j" "j < i + Suc k" for j
    using ih own that by (cases "j = i") auto
  moreover have "E' ! j = (if i \<le> j \<and> j < i + Suc k then pow3 j else E ! j)" if "j < 256" for j
    using ih that Suc.prems(2) by (cases "j = i") auto
  moreover have "L' ! n = L ! n" if "n < 256" "n \<notin> (\<lambda>j. unat (pow3 j)) ` {i..<i + Suc k}" for n
  proof -
    have "n \<noteq> unat (pow3 i)" "n \<notin> (\<lambda>j. unat (pow3 j)) ` {Suc i..<Suc i + k}" using that(2) by auto
    then show ?thesis using ih that(1) by simp
  qed
  ultimately show ?case using ih by simp
qed auto

lemma EXP_LOG:
  assumes "j < 255"
  shows "EXP ! j = pow3 j" "unat (LOG ! unat (pow3 j)) = j"
proof -
  obtain E L where t: "table_loop 255 0 (pow3 0) (replicate 256 0, replicate 256 0) = (E, L)" by fastforce
  note s = table_loop_spec [OF t]
  have e: "EXP = E[255 := E ! 0]" "LOG = L" using t by (simp_all add: EXP_def LOG_def gf_tables_def)
  show "EXP ! j = pow3 j" using s assms by (simp add: e)
  have "LOG ! unat (pow3 j) = of_nat j" using s assms by (simp add: e)
  then show "unat (LOG ! unat (pow3 j)) = j" using assms by (simp add: unat_of_nat)
qed

lemma gfMul_pow3: "gfMul (pow3 i) (pow3 j) = pow3 (i + j)"
proof -
  have "gfMul (pow3 (i mod 255)) (pow3 (j mod 255)) = pow3 ((i mod 255 + j mod 255) mod 255)"
    unfolding gfMul_def by (simp add: pow3_nonzero EXP_LOG del: pow3_mod)
  then show ?thesis by (simp add: mod_add_eq)
qed

lemma gfMul_power: "gfMul (pow3 i) b = (mul3 ^^ i) b"
proof (cases "b = 0")
  case False
  then obtain j where "b = pow3 j" by (rule nonzero_power)
  then show ?thesis by (simp add: gfMul_pow3 pow3_add)
qed (simp add: gfMul_def)

section \<open>The field\<close>

lemma gfMul_commute: "gfMul a b = gfMul b a"
  by (simp add: gfMul_def add.commute)

lemma gfMul_0 [simp]: "gfMul 0 b = 0" "gfMul a 0 = 0"
  by (simp_all add: gfMul_def)

lemma gfMul_1 [simp]: "gfMul 1 b = b"
  using gfMul_power [of 0 b] by simp

lemma gfMul_assoc: "gfMul (gfMul a b) c = gfMul a (gfMul b c)"
proof (cases "a = 0 \<or> b = 0")
  case False
  then obtain i j where ij: "a = pow3 i" "b = pow3 j" using nonzero_power by metis
  have "gfMul (gfMul a b) c = gfMul (pow3 (i + j)) c" unfolding ij gfMul_pow3 ..
  also have "\<dots> = gfMul a (gfMul b c)" unfolding ij gfMul_power by (simp add: funpow_add)
  finally show ?thesis .
qed auto

lemma gfMul_xor: "gfMul a (b XOR c) = gfMul a b XOR gfMul a c"
proof (cases "a = 0")
  case False
  then obtain i where "a = pow3 i" by (rule nonzero_power)
  then show ?thesis by (simp add: gfMul_power funpow_mul3_xor)
qed simp

definition gfInv :: "byte \<Rightarrow> byte" where
  "gfInv b = (if b = 0 then 0 else EXP ! ((255 - unat (LOG ! unat b)) mod 255))"

lemma gfInv_pow3: "j < 255 \<Longrightarrow> gfInv (pow3 j) = pow3 (255 - j)"
  by (simp add: gfInv_def pow3_nonzero EXP_LOG)

lemma gfMul_gfInv: "b \<noteq> 0 \<Longrightarrow> gfMul (gfInv b) b = 1"
proof -
  assume "b \<noteq> 0"
  then obtain j where j: "j < 255" "b = pow3 j" by (rule nonzero_power)
  then show ?thesis by (simp add: gfInv_pow3 gfMul_pow3 pow3_order(4))
qed

text \<open>Division through the tables is multiplication with the inverse.\<close>

lemma gfDiv_Inr: "b \<noteq> 0 \<Longrightarrow> gfDiv a b = Inr (gfMul a (gfInv b))"
proof (cases "a = 0")
  case False
  assume "b \<noteq> 0"
  then obtain j where j: "j < 255" "b = pow3 j" by (rule nonzero_power)
  obtain i where i: "i < 255" "a = pow3 i" using False by (rule nonzero_power)
  have "i + 255 - j = i + (255 - j)" using j(1) by simp
  then show ?thesis
    using i j \<open>b \<noteq> 0\<close> False by (simp add: gfDiv_def EXP_LOG gfInv_pow3 gfMul_pow3)
qed (simp add: gfDiv_def)

section \<open>Multiplication modulo the polynomial\<close>

text \<open>
  The reference: doubling modulo \<open>x^8 + x^4 + x^3 + x + 1\<close> (0x11b), and
  multiplication as a sum of doublings over the bits of one factor.
\<close>

definition xtime :: "byte \<Rightarrow> byte" where
  "xtime a = (if bit a 7 then push_bit 1 a XOR 0x1b else push_bit 1 a)"

fun poly_mul :: "nat \<Rightarrow> byte \<Rightarrow> byte \<Rightarrow> byte" where
  "poly_mul 0 a b = 0"
| "poly_mul (Suc k) a b = (if bit b 0 then a else 0) XOR poly_mul k (xtime a) (drop_bit 1 b)"

lemma gfMul_2: "gfMul 2 a = xtime a"
proof -
  have "pow3 1 = 3" by (simp add: pow3_def mul3_def)
  have "gfMul 2 a = gfMul (pow3 1 XOR 1) a" using \<open>pow3 1 = 3\<close> by simp
  also have "\<dots> = gfMul (pow3 1) a XOR gfMul 1 a" by (metis gfMul_xor gfMul_commute)
  also have "\<dots> = xtime a" unfolding gfMul_power by (simp add: mul3_def top_bit xtime_def xor.assoc)
  finally show ?thesis .
qed

lemma take_bit_parts:
  "take_bit (Suc k) b = (if bit b 0 then 1 else 0) XOR push_bit 1 (take_bit k (drop_bit 1 b))" for b :: byte
proof (rule bit_word_eqI)
  fix n
  assume n: "n < LENGTH(8)"
  let ?c = "take_bit k (drop_bit 1 b)"
  have p: "bit (push_bit 1 ?c) n \<longleftrightarrow> 0 < n \<and> n \<le> k \<and> bit b n"
    unfolding bit_push_bit_iff bit_take_bit_iff bit_drop_bit_eq using n by (cases n) auto
  show "bit (take_bit (Suc k) b) n \<longleftrightarrow> bit ((if bit b 0 then 1 else 0) XOR push_bit 1 ?c) n"
    unfolding bit_xor_iff p bit_take_bit_iff by (cases n) (auto simp: bit_1_iff)
qed

lemma poly_mul_take_bit: "k \<le> 8 \<Longrightarrow> poly_mul k a b = gfMul a (take_bit k b)"
proof (induction k arbitrary: a b)
  case (Suc k)
  let ?c = "take_bit k (drop_bit 1 b)"
  have "\<not> bit ?c 7" using Suc.prems by (simp add: bit_take_bit_iff bit_drop_bit_eq)
  then have "push_bit 1 ?c = gfMul 2 ?c" by (simp add: gfMul_2 xtime_def)
  then have "gfMul a (push_bit 1 ?c) = gfMul (xtime a) ?c"
    by (metis gfMul_2 gfMul_assoc gfMul_commute)
  moreover have "gfMul a 1 = a" by (metis gfMul_1 gfMul_commute)
  ultimately show ?case
    using Suc by (simp add: take_bit_parts gfMul_xor del: push_bit_of_1)
qed simp

text \<open>
  C15: Multiplication through the tables is multiplication of polynomials over GF(2)
  modulo Rijndael's polynomial 0x11b, and division undoes it.
\<close>

theorem gfMul_is_polynomial_product:
  "gfMul a b = poly_mul 8 a b \<and> (b \<noteq> 0 \<longrightarrow> gfDiv (gfMul a b) b = Inr a)"
proof -
  have "gfDiv (gfMul a b) b = Inr a" if "b \<noteq> 0"
    using gfDiv_Inr [OF that, of "gfMul a b"] gfMul_gfInv [OF that] by (metis gfMul_assoc gfMul_commute gfMul_1)
  moreover have "take_bit 8 b = b" by (rule bit_word_eqI) (simp add: bit_take_bit_iff)
  ultimately show ?thesis using poly_mul_take_bit [of 8 a b] by simp
qed

theorem gfMul_is_polynomial_product_witness: "gfMul 0x57 0x83 = poly_mul 8 0x57 0x83 \<and> gfDiv (gfMul 0x57 0x83) 0x83 = Inr 0x57"
proof -
  have "(0x83 :: byte) \<noteq> 0" by simp
  with gfMul_is_polynomial_product [of "0x57" "0x83"] show ?thesis by blast
qed

section \<open>As a type\<close>

typedef gf256 = "UNIV :: byte set"
  morphisms byte_of gf_of ..

setup_lifting type_definition_gf256

instantiation gf256 :: field
begin

lift_definition zero_gf256 :: gf256 is 0 .
lift_definition one_gf256 :: gf256 is 1 .
lift_definition plus_gf256 :: "gf256 \<Rightarrow> gf256 \<Rightarrow> gf256" is "\<lambda>a b. a XOR b" .
lift_definition minus_gf256 :: "gf256 \<Rightarrow> gf256 \<Rightarrow> gf256" is "\<lambda>a b. a XOR b" .
lift_definition uminus_gf256 :: "gf256 \<Rightarrow> gf256" is "\<lambda>a. a" .
lift_definition times_gf256 :: "gf256 \<Rightarrow> gf256 \<Rightarrow> gf256" is gfMul .
lift_definition inverse_gf256 :: "gf256 \<Rightarrow> gf256" is gfInv .
lift_definition divide_gf256 :: "gf256 \<Rightarrow> gf256 \<Rightarrow> gf256" is "\<lambda>a b. gfMul a (gfInv b)" .

instance
proof
  fix a b c :: gf256
  show "a + b + c = a + (b + c)" by transfer (rule xor.assoc)
  show "a + b = b + a" by transfer (rule xor.commute)
  show "0 + a = a" by transfer simp
  show "- a + a = 0" by transfer simp
  show "a - b = a + - b" by transfer simp
  show "a * b * c = a * (b * c)" by transfer (rule gfMul_assoc)
  show "a * b = b * a" by transfer (rule gfMul_commute)
  show "1 * a = a" by transfer simp
  show "(a + b) * c = a * c + b * c" by transfer (metis gfMul_xor gfMul_commute)
  show "(0 :: gf256) \<noteq> 1" by transfer simp
  show "a \<noteq> 0 \<Longrightarrow> inverse a * a = 1" by transfer (rule gfMul_gfInv)
  show "a div b = a * inverse b" by transfer simp
  show "inverse (0 :: gf256) = 0" by transfer (simp add: gfInv_def)
qed

end

end
