(* ===== verification/Interpolation.thy ===== *)
theory Interpolation
  imports Complex_Main
begin

text \<open>
  Lagrange interpolation over any field, with polynomials as functions: two of
  degree below \<open>n\<close> that agree at \<open>n\<close> points are equal, and for any values at
  \<open>n\<close> points there is one. Secret sharing (\<open>Quorum\<close>) rests on both.
\<close>

definition poly_fun :: "nat \<Rightarrow> ('a :: field \<Rightarrow> 'a) \<Rightarrow> bool" where
  "poly_fun n f \<longleftrightarrow> (\<exists>c. \<forall>z. f z = (\<Sum>i<n. c i * z ^ i))"

lemma poly_funI: "(\<And>z. f z = (\<Sum>i<n. c i * z ^ i)) \<Longrightarrow> poly_fun n f"
  unfolding poly_fun_def by blast

lemma poly_fun_mono:
  assumes "poly_fun m f" "m \<le> n"
  shows "poly_fun n f"
proof -
  from assms(1) obtain c where c: "f z = (\<Sum>i<m. c i * z ^ i)" for z unfolding poly_fun_def by blast
  have "f z = (\<Sum>i<n. (if i < m then c i else 0) * z ^ i)" for z
  proof -
    have "(\<Sum>i<n. (if i < m then c i else 0) * z ^ i) = (\<Sum>i<m. (if i < m then c i else 0) * z ^ i)"
      by (rule sum.mono_neutral_right) (use assms(2) in auto)
    then show ?thesis using c by simp
  qed
  then show ?thesis by (rule poly_funI)
qed

lemma poly_fun_add:
  assumes "poly_fun n f" "poly_fun n g"
  shows "poly_fun n (\<lambda>z. f z + g z)"
proof -
  from assms obtain c d where "f z = (\<Sum>i<n. c i * z ^ i)" "g z = (\<Sum>i<n. d i * z ^ i)" for z
    unfolding poly_fun_def by metis
  then have "f z + g z = (\<Sum>i<n. (c i + d i) * z ^ i)" for z by (simp add: algebra_simps sum.distrib)
  then show ?thesis by (rule poly_funI)
qed

lemma poly_fun_scale:
  assumes "poly_fun n f"
  shows "poly_fun n (\<lambda>z. k * f z)"
proof -
  from assms obtain c where "f z = (\<Sum>i<n. c i * z ^ i)" for z unfolding poly_fun_def by blast
  then have "k * f z = (\<Sum>i<n. (k * c i) * z ^ i)" for z by (simp add: sum_distrib_left mult.assoc)
  then show ?thesis by (rule poly_funI)
qed

lemma poly_fun_0: "poly_fun n (\<lambda>z. 0)"
  unfolding poly_fun_def by (intro exI [of _ "\<lambda>_. 0"]) simp

lemma poly_fun_sum: "finite S \<Longrightarrow> (\<And>a. a \<in> S \<Longrightarrow> poly_fun n (f a)) \<Longrightarrow> poly_fun n (\<lambda>z. \<Sum>a\<in>S. f a z)"
  by (induction S rule: finite_induct) (simp_all add: poly_fun_0 poly_fun_add)

lemma poly_fun_shift:
  assumes "poly_fun n f"
  shows "poly_fun (Suc n) (\<lambda>z. z * f z)"
proof -
  from assms obtain c where c: "f z = (\<Sum>i<n. c i * z ^ i)" for z unfolding poly_fun_def by blast
  have "z * f z = (\<Sum>i<Suc n. (case i of 0 \<Rightarrow> 0 | Suc j \<Rightarrow> c j) * z ^ i)" for z
    unfolding sum.lessThan_Suc_shift c by (simp add: sum_distrib_left mult.left_commute)
  then show ?thesis by (rule poly_funI)
qed

lemma poly_fun_linear:
  assumes "poly_fun n f"
  shows "poly_fun (Suc n) (\<lambda>z. (z - a) * f z)"
  using poly_fun_add [OF poly_fun_shift [OF assms] poly_fun_scale [OF poly_fun_mono [OF assms], of "Suc n" "- a"]]
  by (simp add: algebra_simps)

lemma poly_fun_prod: "finite S \<Longrightarrow> poly_fun (Suc (card S)) (\<lambda>z. \<Prod>a\<in>S. (z - a))"
proof (induction S rule: finite_induct)
  case empty
  then show ?case unfolding poly_fun_def by (intro exI [of _ "\<lambda>_. 1"]) simp
next
  case (insert a S)
  then show ?case using poly_fun_linear [OF insert.IH, of a] by simp
qed

text \<open>A polynomial function of degree below \<open>n\<close> with \<open>n\<close> zeros is zero.\<close>

lemma poly_fun_roots:
  assumes "poly_fun n f" "finite S" "card S = n" "\<And>a. a \<in> S \<Longrightarrow> f a = 0"
  shows "f z = 0"
  using assms
proof (induction n arbitrary: f S z)
  case 0
  then show ?case by (auto simp: poly_fun_def)
next
  case (Suc n)
  from Suc.prems(1) obtain c where c: "f z = (\<Sum>i\<le>n. c i * z ^ i)" for z
    unfolding poly_fun_def lessThan_Suc_atMost by blast
  from Suc.prems(3) obtain a where a: "a \<in> S" by fastforce
  have "(\<Sum>i\<le>n. c i * a ^ i) = 0" using Suc.prems(4) [OF a] c by simp
  then obtain b where b: "(\<Sum>i\<le>n. c i * z ^ i) = (z - a) * (\<Sum>i<n. b i * z ^ i)" for z
    by (rule polyfun_linear_factor_root) blast
  have "(\<Sum>i<n. b i * z ^ i) = 0" for z
  proof (rule Suc.IH [where f = "\<lambda>z. \<Sum>i<n. b i * z ^ i" and S = "S - {a}"])
    show "poly_fun n (\<lambda>z. \<Sum>i<n. b i * z ^ i)" by (rule poly_funI) (rule refl)
    show "finite (S - {a})" "card (S - {a}) = n" using Suc.prems(2,3) a by simp_all
    show "(\<Sum>i<n. b i * x ^ i) = 0" if "x \<in> S - {a}" for x
      using Suc.prems(4) [of x] that b [of x] c [of x] by simp
  qed
  then show ?case unfolding c b by simp
qed

definition lagrange :: "'a :: field set \<Rightarrow> ('a \<Rightarrow> 'a) \<Rightarrow> 'a \<Rightarrow> 'a" where
  "lagrange S y z = (\<Sum>a\<in>S. y a * ((\<Prod>b\<in>S - {a}. z - b) / (\<Prod>b\<in>S - {a}. a - b)))"

lemma poly_fun_lagrange: "finite S \<Longrightarrow> poly_fun (card S) (lagrange S y)"
  unfolding lagrange_def
proof (intro poly_fun_sum poly_fun_scale)
  fix a
  assume f: "finite S" "a \<in> S"
  then have "Suc (card (S - {a})) = card S" by (rule card_Suc_Diff1)
  with f show "poly_fun (card S) (\<lambda>z. (\<Prod>b\<in>S - {a}. z - b) / (\<Prod>b\<in>S - {a}. a - b))"
    using poly_fun_scale [OF poly_fun_prod [of "S - {a}"], of "inverse (\<Prod>b\<in>S - {a}. a - b)"]
    by (simp only: divide_inverse mult.commute finite_Diff)
qed

lemma lagrange_at:
  assumes "finite S" "a \<in> S"
  shows "lagrange S y a = y a"
proof -
  have "(\<Prod>b\<in>S - {a}. a - b) \<noteq> 0" using assms(1) by simp
  then have own: "y a * ((\<Prod>b\<in>S - {a}. a - b) / (\<Prod>b\<in>S - {a}. a - b)) = y a" by simp
  have "(\<Prod>b\<in>S - {a'}. a - b) = 0" if "a' \<in> S - {a}" for a'
    using assms that by (intro prod_zero) auto
  then have "(\<Sum>a'\<in>S - {a}. y a' * ((\<Prod>b\<in>S - {a'}. a - b) / (\<Prod>b\<in>S - {a'}. a' - b))) = 0" by simp
  then show ?thesis unfolding lagrange_def using assms own by (simp add: sum.remove)
qed

lemma interpolation:
  assumes "poly_fun n f" "finite S" "n \<le> card S"
  shows "f z = lagrange S f z"
proof -
  have "poly_fun (card S) (\<lambda>z. f z - lagrange S f z)"
    using poly_fun_add [OF poly_fun_mono [OF assms(1,3)] poly_fun_scale [OF poly_fun_lagrange [OF assms(2)], of "- 1"]]
    by simp
  then have "f z - lagrange S f z = 0"
    by (rule poly_fun_roots [OF _ assms(2) refl]) (simp add: lagrange_at [OF assms(2)])
  then show ?thesis by simp
qed

end
