(* ===== verification/Quorum.thy ===== *)
theory Quorum
  imports Galois_Field Interpolation Release_Crypto
begin

text \<open>
  Shamir secret sharing (\<^verbatim>\<open>packages/blackout-protocol/src/deaddrop/crypto/quorum.ts\<close>).
  The random coefficients are an argument, one list for each byte of the secret.
  The coordinate of a share is a natural number; \<open>combine\<close> computes with it only
  after the check that it is between 1 and 255.
\<close>

unbundle bit_operations_syntax

section \<open>Splitting and combining\<close>

fun eval_loop :: "byte \<Rightarrow> byte list \<Rightarrow> byte \<Rightarrow> byte \<Rightarrow> byte" where
  "eval_loop x [] result xPow = result"
| "eval_loop x (c # coeffs) result xPow = eval_loop x coeffs (result XOR gfMul c xPow) (gfMul xPow x)"

definition evalPoly :: "byte list \<Rightarrow> byte \<Rightarrow> byte" where
  "evalPoly coeffs x = eval_loop x coeffs 0 1"

record QuorumShare =
  qs_x :: nat
  qs_y :: bytes

definition coefficients :: "nat \<Rightarrow> byte \<Rightarrow> bytes \<Rightarrow> byte list" where
  "coefficients threshold secretByte random = secretByte # map (\<lambda>j. random ! (j - 1)) [1..<threshold]"

definition split :: "(nat \<Rightarrow> bytes) \<Rightarrow> bytes \<Rightarrow> js_number \<Rightarrow> js_number \<Rightarrow> quorum_error + QuorumShare list" where
  "split random secret threshold shares =
     (case js_integer threshold of
        None \<Rightarrow> Inl Threshold_invalid
      | Some t \<Rightarrow>
          if t < 2 then Inl Threshold_invalid
          else case js_integer shares of
                 None \<Rightarrow> Inl Shares_below_threshold
               | Some n \<Rightarrow>
                   if n < t then Inl Shares_below_threshold
                   else if n > 255 then Inl Too_many_shares
                   else if secret = [] then Inl Empty_secret
                   else Inr (map (\<lambda>i. \<lparr>qs_x = i,
                          qs_y = map (\<lambda>b. evalPoly (coefficients (nat t) (secret ! b) (random b)) (of_nat i)) [0..<length secret]\<rparr>)
                        [1..<Suc (nat n)]))"

fun check_shares :: "nat \<Rightarrow> QuorumShare list \<Rightarrow> quorum_error + unit" where
  "check_shares len [] = Inr ()"
| "check_shares len (s # shares) =
     (if length (qs_y s) \<noteq> len then Inl Length_mismatch
      else if qs_x s = 0 \<or> qs_x s > 255 then Inl X_out_of_range
      else check_shares len shares)"

fun duplicate_x :: "nat list \<Rightarrow> QuorumShare list \<Rightarrow> bool" where
  "duplicate_x xs [] = False"
| "duplicate_x xs (s # shares) = (qs_x s \<in> set xs \<or> duplicate_x (qs_x s # xs) shares)"

text \<open>Numerator and denominator of the Lagrange basis at 0.\<close>

definition basis_parts :: "byte list \<Rightarrow> nat \<Rightarrow> byte \<times> byte" where
  "basis_parts xs i =
     fold (\<lambda>j (num, den). if i = j then (num, den) else (gfMul num (xs ! j), gfMul den (xs ! i XOR xs ! j)))
       [0..<length xs] (1, 1)"

fun combine_loop :: "byte list \<Rightarrow> QuorumShare list \<Rightarrow> nat \<Rightarrow> nat list \<Rightarrow> byte \<Rightarrow> quorum_error + byte" where
  "combine_loop xs shares byteIdx [] acc = Inr acc"
| "combine_loop xs shares byteIdx (i # is) acc =
     (case basis_parts xs i of
        (num, den) \<Rightarrow> and_then (gfDiv num den) (\<lambda>basis.
          combine_loop xs shares byteIdx is (acc XOR gfMul (qs_y (shares ! i) ! byteIdx) basis)))"

fun combine_bytes :: "byte list \<Rightarrow> QuorumShare list \<Rightarrow> nat list \<Rightarrow> quorum_error + bytes" where
  "combine_bytes xs shares [] = Inr []"
| "combine_bytes xs shares (b # bs) =
     and_then (combine_loop xs shares b [0..<length shares] 0) (\<lambda>acc.
     and_then (combine_bytes xs shares bs) (\<lambda>rest. Inr (acc # rest)))"

definition combine :: "QuorumShare list \<Rightarrow> quorum_error + bytes" where
  "combine shares =
     (if length shares < 2 then Inl Too_few_shares
      else let len = length (qs_y (shares ! 0))
           in and_then (check_shares len shares) (\<lambda>_.
              if duplicate_x [] shares then Inl Duplicate_x
              else combine_bytes (map (\<lambda>s. of_nat (qs_x s)) shares) shares [0..<len]))"

definition sharesEqual :: "QuorumShare \<Rightarrow> QuorumShare \<Rightarrow> bool" where
  "sharesEqual a b \<longleftrightarrow> qs_x a = qs_x b \<and> bytesEqual (qs_y a) (qs_y b)"

section \<open>In the field\<close>

lemma gf_of_simps [simp]:
  "gf_of 0 = 0" "gf_of 1 = 1" "gf_of (a XOR b) = gf_of a + gf_of b" "gf_of (gfMul a b) = gf_of a * gf_of b"
  "gf_of (gfInv a) = inverse (gf_of a)"
  by (simp_all add: zero_gf256_def one_gf256_def plus_gf256.abs_eq times_gf256.abs_eq inverse_gf256.abs_eq)

lemma gf_of_eq [simp]: "gf_of a = gf_of b \<longleftrightarrow> a = b"
  by (simp add: gf_of_inject)

lemma byte_of_gf_of [simp]: "byte_of (gf_of a) = a" "gf_of (byte_of f) = f"
  by (simp_all add: gf_of_inverse byte_of_inverse)

lemma gf_plus_self: "a - b = a + b" for a b :: gf256
  by transfer simp

lemma gf_of_diff: "gf_of a + gf_of b = gf_of a - gf_of b"
  by (simp only: gf_plus_self)

lemma gf_of_eval_loop:
  "gf_of (eval_loop x cs r p) = gf_of r + gf_of p * (\<Sum>i<length cs. gf_of (cs ! i) * gf_of x ^ i)"
proof (induction cs arbitrary: r p)
  case (Cons c cs)
  have "(\<Sum>i<length (c # cs). gf_of ((c # cs) ! i) * gf_of x ^ i) =
      gf_of c + gf_of x * (\<Sum>i<length cs. gf_of (cs ! i) * gf_of x ^ i)"
    by (simp add: sum.lessThan_Suc_shift sum_distrib_left mult.left_commute del: sum.lessThan_Suc)
  then show ?case by (simp add: Cons.IH algebra_simps)
qed simp

lemma gf_of_evalPoly: "gf_of (evalPoly cs x) = (\<Sum>i<length cs. gf_of (cs ! i) * gf_of x ^ i)"
  by (simp add: evalPoly_def gf_of_eval_loop)

lemma poly_fun_evalPoly: "poly_fun (length cs) (\<lambda>z. gf_of (evalPoly cs (byte_of z)))"
  by (rule poly_funI) (simp add: gf_of_evalPoly)

lemma evalPoly_0: "evalPoly (c # cs) 0 = c"
proof -
  have "gf_of (evalPoly (c # cs) 0) = gf_of c" by (simp add: gf_of_evalPoly sum.lessThan_Suc_shift del: sum.lessThan_Suc)
  then show ?thesis by simp
qed

section \<open>Combining is interpolation at 0\<close>

lemma basis_parts_field:
  assumes "basis_parts xs i = (num, den)"
  shows "gf_of num = (\<Prod>j\<in>{..<length xs} - {i}. gf_of (xs ! j))"
    "gf_of den = (\<Prod>j\<in>{..<length xs} - {i}. gf_of (xs ! i) - gf_of (xs ! j))"
proof -
  let ?step = "\<lambda>j (num, den). if i = j then (num, den) else (gfMul num (xs ! j), gfMul den (xs ! i XOR xs ! j))"
  have "fold ?step [0..<m] (1, 1) = (num, den) \<Longrightarrow>
      gf_of num = (\<Prod>j\<in>{..<m} - {i}. gf_of (xs ! j)) \<and> gf_of den = (\<Prod>j\<in>{..<m} - {i}. gf_of (xs ! i) - gf_of (xs ! j))"
    for m num den
  proof (induction m arbitrary: num den)
    case (Suc m)
    obtain n d where nd: "fold ?step [0..<m] (1, 1) = (n, d)" by fastforce
    note ih = Suc.IH [OF nd]
    have step: "?step m (n, d) = (num, den)" using Suc.prems nd by simp
    show ?case
    proof (cases "i = m")
      case True
      then have "{..<Suc m} - {i} = {..<m} - {i}" by (auto simp: less_Suc_eq)
      then show ?thesis using ih step True by simp
    next
      case False
      then have "{..<Suc m} - {i} = insert m ({..<m} - {i})" by (auto simp: less_Suc_eq)
      moreover have "num = gfMul n (xs ! m)" "den = gfMul d (xs ! i XOR xs ! m)" using step False by simp_all
      ultimately show ?thesis using ih by (simp add: mult.commute gf_of_diff)
    qed
  qed simp
  from this [of "length xs" num den] assms show
    "gf_of num = (\<Prod>j\<in>{..<length xs} - {i}. gf_of (xs ! j))"
    "gf_of den = (\<Prod>j\<in>{..<length xs} - {i}. gf_of (xs ! i) - gf_of (xs ! j))"
    unfolding basis_parts_def by blast+
qed

lemma combine_loop_field:
  assumes "distinct xs" "set is \<subseteq> {..<length xs}"
  shows "\<exists>r. combine_loop xs shares b is acc = Inr r \<and>
    gf_of r = gf_of acc + (\<Sum>i\<leftarrow>is. gf_of (qs_y (shares ! i) ! b) *
      ((\<Prod>j\<in>{..<length xs} - {i}. gf_of (xs ! j)) / (\<Prod>j\<in>{..<length xs} - {i}. gf_of (xs ! i) - gf_of (xs ! j))))"
  using assms(2)
proof (induction "is" arbitrary: acc)
  case (Cons i "is")
  obtain num den where nd: "basis_parts xs i = (num, den)" by fastforce
  note f = basis_parts_field [OF nd]
  have "gf_of (xs ! i) - gf_of (xs ! j) \<noteq> 0" if "j \<in> {..<length xs} - {i}" for j
    using that Cons.prems nth_eq_iff_index_eq [OF assms(1), of i j] by simp
  then have "gf_of den \<noteq> 0" unfolding f by simp
  then have "gfDiv num den = Inr (gfMul num (gfInv den))" by (intro gfDiv_Inr) auto
  moreover from Cons.prems have "set is \<subseteq> {..<length xs}" by simp
  ultimately show ?case
    using Cons.IH [of "acc XOR gfMul (qs_y (shares ! i) ! b) (gfMul num (gfInv den))"] nd
    by (auto simp: f divide_inverse add.assoc)
qed simp

lemma combine_loop_recovers:
  assumes "distinct xs" "length cs \<le> length xs" "length shares = length xs"
    and y: "\<And>i. i < length xs \<Longrightarrow> qs_y (shares ! i) ! b = evalPoly cs (xs ! i)"
  shows "combine_loop xs shares b [0..<length shares] 0 = Inr (evalPoly cs 0)"
proof -
  let ?f = "\<lambda>z. gf_of (evalPoly cs (byte_of z))" and ?x = "\<lambda>i. gf_of (xs ! i)" and ?S = "(\<lambda>i. gf_of (xs ! i)) ` {..<length xs}"
  have inj: "inj_on ?x {..<length xs}" using assms(1) by (auto simp: inj_on_def nth_eq_iff_index_eq)
  have d: "?S - {?x i} = ?x ` ({..<length xs} - {i})" if "i < length xs" for i
    using inj that by (auto simp: inj_on_def)
  have inj': "inj_on ?x ({..<length xs} - {i})" for i using inj by (rule inj_on_diff)
  obtain r where r: "combine_loop xs shares b [0..<length shares] 0 = Inr r"
      "gf_of r = (\<Sum>i\<leftarrow>[0..<length xs]. gf_of (qs_y (shares ! i) ! b) *
        ((\<Prod>j\<in>{..<length xs} - {i}. ?x j) / (\<Prod>j\<in>{..<length xs} - {i}. ?x i - ?x j)))"
    using combine_loop_field [OF assms(1), of "[0..<length xs]" shares b 0] assms(3)
    by (auto simp: atLeast0LessThan)
  note r(2)
  also have "(\<Sum>i\<leftarrow>[0..<length xs]. gf_of (qs_y (shares ! i) ! b) *
        ((\<Prod>j\<in>{..<length xs} - {i}. ?x j) / (\<Prod>j\<in>{..<length xs} - {i}. ?x i - ?x j))) =
      (\<Sum>i<length xs. ?f (?x i) * ((\<Prod>j\<in>{..<length xs} - {i}. 0 - ?x j) / (\<Prod>j\<in>{..<length xs} - {i}. ?x i - ?x j)))"
    by (simp add: sum_list_distinct_conv_sum_set atLeast0LessThan y gf_plus_self)
  also have "\<dots> = (\<Sum>i<length xs. ?f (?x i) * ((\<Prod>a\<in>?S - {?x i}. 0 - a) / (\<Prod>a\<in>?S - {?x i}. ?x i - a)))"
    by (intro sum.cong refl) (simp add: d prod.reindex [OF inj'])
  also have "\<dots> = lagrange ?S ?f 0" unfolding lagrange_def by (simp add: sum.reindex [OF inj])
  also have "\<dots> = ?f 0"
    by (rule interpolation [OF poly_fun_evalPoly, symmetric]) (use assms(2) in \<open>simp_all add: card_image [OF inj]\<close>)
  finally have "gf_of r = gf_of (evalPoly cs (byte_of 0))" .
  moreover have "byte_of 0 = 0" by (simp add: zero_gf256.rep_eq)
  ultimately show ?thesis using r(1) by simp
qed

section \<open>Any quorum recovers the secret\<close>

text \<open>The share at a coordinate.\<close>

definition share_at :: "(nat \<Rightarrow> bytes) \<Rightarrow> bytes \<Rightarrow> nat \<Rightarrow> nat \<Rightarrow> QuorumShare" where
  "share_at random secret t i = \<lparr>qs_x = i,
     qs_y = map (\<lambda>b. evalPoly (coefficients t (secret ! b) (random b)) (of_nat i)) [0..<length secret]\<rparr>"

lemma split_Inr:
  "split random secret T N = Inr shares \<longleftrightarrow>
     (\<exists>t n. js_integer T = Some (int t) \<and> js_integer N = Some (int n) \<and> 2 \<le> t \<and> t \<le> n \<and> n \<le> 255 \<and> secret \<noteq> [] \<and>
        shares = map (share_at random secret t) [1..<Suc n])"
  (is "?L \<longleftrightarrow> ?R")
proof
  assume ?L
  then obtain t n where "js_integer T = Some t" "js_integer N = Some n" "2 \<le> t" "t \<le> n" "n \<le> 255" "secret \<noteq> []"
      "shares = map (share_at random secret (nat t)) [1..<Suc (nat n)]"
    by (auto simp: split_def share_at_def [abs_def] split: option.splits if_splits)
  then show ?R by (intro exI [of _ "nat t"] exI [of _ "nat n"]) auto
next
  assume ?R
  then show ?L by (auto simp: split_def share_at_def [abs_def] simp del: upt_Suc)
qed

lemma length_coefficients: "1 \<le> t \<Longrightarrow> length (coefficients t c r) = t"
  by (simp add: coefficients_def)

lemma check_shares_Inr: "check_shares len ss = Inr () \<longleftrightarrow> (\<forall>s \<in> set ss. length (qs_y s) = len \<and> qs_x s \<noteq> 0 \<and> qs_x s \<le> 255)"
  by (induction ss) auto

lemma duplicate_x_iff: "\<not> duplicate_x xs ss \<longleftrightarrow> distinct (map qs_x ss) \<and> set xs \<inter> qs_x ` set ss = {}"
  by (induction ss arbitrary: xs) auto

lemma combine_bytes_Inr:
  "(\<And>b. b \<in> set bs \<Longrightarrow> combine_loop xs shares b [0..<length shares] 0 = Inr (f b)) \<Longrightarrow>
     combine_bytes xs shares bs = Inr (map f bs)"
  by (induction bs) simp_all

lemma byte_inject: "m \<le> 255 \<Longrightarrow> n \<le> 255 \<Longrightarrow> (of_nat m :: byte) = of_nat n \<longleftrightarrow> m = n"
proof -
  assume "m \<le> 255" "n \<le> 255"
  then have "unat (of_nat m :: byte) = m" "unat (of_nat n :: byte) = n" by (simp_all add: unat_of_nat)
  then show ?thesis by metis
qed

lemma combine_recovers:
  assumes t: "1 \<le> t" "secret \<noteq> []" and chosen: "distinct chosen" "t \<le> length chosen" "2 \<le> length chosen"
    and shares: "\<And>s. s \<in> set chosen \<Longrightarrow> \<exists>i. 1 \<le> i \<and> i \<le> 255 \<and> s = share_at random secret t i"
  shows "combine chosen = Inr secret"
proof -
  have own: "s = share_at random secret t (qs_x s)" "1 \<le> qs_x s" "qs_x s \<le> 255" if "s \<in> set chosen" for s
    using shares [OF that] by (auto simp: share_at_def)
  have len: "length (qs_y s) = length secret" if "s \<in> set chosen" for s
    using arg_cong [OF own(1) [OF that], of "\<lambda>s. length (qs_y s)"] by (simp add: share_at_def)
  have "inj_on qs_x (set chosen)"
    by (rule inj_on_inverseI [of _ "share_at random secret t"]) (rule own(1) [symmetric])
  then have xs: "distinct (map qs_x chosen)" unfolding distinct_map using chosen(1) by simp
  let ?xs = "map (\<lambda>s. of_nat (qs_x s) :: byte) chosen"
  have dx: "distinct ?xs"
    using xs own(3) unfolding distinct_map by (simp add: inj_on_def byte_inject)
  have b: "combine_loop ?xs chosen b [0..<length chosen] 0 = Inr (secret ! b)" if "b < length secret" for b
  proof -
    let ?cs = "coefficients t (secret ! b) (random b)"
    have "qs_y (chosen ! i) ! b = evalPoly ?cs (?xs ! i)" if "i < length ?xs" for i
    proof -
      have i: "chosen ! i \<in> set chosen" "?xs ! i = of_nat (qs_x (chosen ! i))" using that by simp_all
      have "qs_y (chosen ! i) ! b = qs_y (share_at random secret t (qs_x (chosen ! i))) ! b"
        by (rule arg_cong [OF own(1) [OF i(1)], of "\<lambda>s. qs_y s ! b"])
      then show ?thesis using \<open>b < length secret\<close> i(2) by (simp add: share_at_def)
    qed
    then have "combine_loop ?xs chosen b [0..<length chosen] 0 = Inr (evalPoly ?cs 0)"
      by (intro combine_loop_recovers [OF dx]) (use t chosen length_coefficients in simp_all)
    then show ?thesis by (simp add: coefficients_def evalPoly_0)
  qed
  have "length (qs_y (chosen ! 0)) = length secret" by (rule len) (rule nth_mem, use chosen(3) in linarith)
  moreover have "combine_bytes ?xs chosen [0..<length secret] = Inr secret"
    using combine_bytes_Inr [of "[0..<length secret]" ?xs chosen "\<lambda>b. secret ! b"] b by (simp add: map_nth)
  moreover have "check_shares (length secret) chosen = Inr ()"
    unfolding check_shares_Inr using len own(2,3) by fastforce
  moreover have "\<not> duplicate_x [] chosen" unfolding duplicate_x_iff using xs by simp
  ultimately show ?thesis using chosen(3) by (simp add: combine_def Let_def)
qed

section \<open>Fewer shares say nothing\<close>

text \<open>For any values at fewer than \<open>t\<close> points there are coefficients with any given secret byte.\<close>

lemma coefficients_exist:
  assumes "finite X" "card X < t" "0 \<notin> X"
  shows "\<exists>r. length r = t - 1 \<and> (\<forall>x \<in> X. evalPoly (coefficients t c r) x = y x)"
proof -
  let ?S = "insert 0 (gf_of ` X)"
  let ?y = "\<lambda>z. if z = 0 then gf_of c else gf_of (y (byte_of z))"
  have "card ?S \<le> t" using assms card_image_le [of X gf_of] by (simp add: card_insert_if)
  then obtain k where k: "lagrange ?S ?y z = (\<Sum>i<t. k i * z ^ i)" for z
    using poly_fun_mono [OF poly_fun_lagrange, of ?S t ?y] assms(1) unfolding poly_fun_def by auto
  have t: "0 < t" using assms(2) by simp
  have "lagrange ?S ?y 0 = k 0" unfolding k using t by (simp add: power_0_left sum.If_cases lessThan_def if_distrib cong: if_cong)
  then have k0: "k 0 = gf_of c" using lagrange_at [of ?S 0 ?y] assms(1) by simp
  define r where "r = map (\<lambda>j. byte_of (k j)) [1..<t]"
  have nth: "gf_of (coefficients t c r ! i) = k i" if "i < t" for i
    using that k0 by (cases i) (auto simp: coefficients_def r_def)
  have "evalPoly (coefficients t c r) x = y x" if "x \<in> X" for x
  proof -
    have "gf_of (evalPoly (coefficients t c r) x) = (\<Sum>i<t. k i * gf_of x ^ i)"
      unfolding gf_of_evalPoly using t nth by (simp add: length_coefficients)
    also have "\<dots> = lagrange ?S ?y (gf_of x)" by (rule k [symmetric])
    also have "\<dots> = gf_of (y x)" using lagrange_at [of ?S "gf_of x" ?y] assms that by (auto simp flip: gf_of_simps(1))
    finally show ?thesis by simp
  qed
  then show ?thesis by (intro exI [of _ r]) (simp add: r_def)
qed

section \<open>Guarantees\<close>

text \<open>
  C13: Any quorum recovers the secret. Of the shares that \<open>split\<close> made, any \<open>threshold\<close>
  or more different ones, in any order, combine to the secret.
\<close>

theorem quorum_recovers:
  assumes "split random secret threshold number = Inr shares" "js_integer threshold = Some t"
    and "distinct chosen" "set chosen \<subseteq> set shares" "t \<le> int (length chosen)"
  shows "combine chosen = Inr secret"
proof -
  obtain t' n where s: "js_integer threshold = Some (int t')" "2 \<le> t'" "n \<le> 255" "secret \<noteq> []"
      "shares = map (share_at random secret t') [1..<Suc n]"
    using assms(1) unfolding split_Inr by blast
  have "\<exists>i. 1 \<le> i \<and> i \<le> 255 \<and> x = share_at random secret t' i" if "x \<in> set chosen" for x
  proof -
    have "x \<in> share_at random secret t' ` {1..<Suc n}" using that assms(4) s(5) by (auto simp del: upt_Suc)
    then show ?thesis using s(3) by auto
  qed
  then show ?thesis
    by (intro combine_recovers [of t' secret chosen random]) (use s assms(2,3,5) in auto)
qed

lemma sample_split:
  "split (\<lambda>_. [7]) [42, 1] (Fin 2) (Fin 3) = Inr (map (share_at (\<lambda>_. [7]) [42, 1] 2) [1, 2, 3])"
proof -
  have "[1..<Suc 3] = [1, 2, 3]" by code_simp
  moreover have "js_integer (Fin 2) = Some (int 2)" "js_integer (Fin 3) = Some (int 3)" by code_simp+
  ultimately show ?thesis unfolding split_Inr by (intro exI [of _ 2] exI [of _ 3]) (simp del: upt_Suc js_integer.simps)
qed

theorem quorum_recovers_witness:
  "combine [share_at (\<lambda>_. [7]) [42, 1] 2 3, share_at (\<lambda>_. [7]) [42, 1] 2 1] = Inr [42, 1]"
proof -
  have "share_at (\<lambda>_. [7]) [42, 1] 2 3 \<noteq> share_at (\<lambda>_. [7]) [42, 1] 2 1" by (simp add: share_at_def)
  then show ?thesis
    by (intro quorum_recovers [OF sample_split, of 2]) simp_all
qed

text \<open>
  C14: Fewer shares than the threshold say nothing about the secret. Whatever \<open>split\<close>
  made of a secret, the shares at any fewer than \<open>threshold\<close> places are also what it
  makes of any other secret of the same length, for some random bytes.
\<close>

theorem quorum_hides:
  assumes "split random secret threshold number = Inr shares" "js_integer threshold = Some t"
    and "I \<subseteq> {..<length shares}" "int (card I) < t" "length secret' = length secret"
  shows "\<exists>random' shares'. (\<forall>b. length (random' b) = nat t - 1) \<and>
    split random' secret' threshold number = Inr shares' \<and> (\<forall>i \<in> I. shares' ! i = shares ! i)"
proof -
  obtain t' n where s: "js_integer threshold = Some (int t')" "js_integer number = Some (int n)" "2 \<le> t'" "t' \<le> n" "n \<le> 255" "secret \<noteq> []"
      "shares = map (share_at random secret t') [1..<Suc n]"
    using assms(1) unfolding split_Inr by blast
  have t: "t = int t'" using s(1) assms(2) by simp
  let ?X = "(\<lambda>i. of_nat (Suc i) :: byte) ` I"
  have I: "i < n" if "i \<in> I" for i using that assms(3) s(7) by (auto simp del: upt_Suc)
  have "finite I" using assms(3) finite_subset by blast
  moreover then have "card ?X < t'" using assms(4) card_image_le [of I "\<lambda>i. of_nat (Suc i) :: byte"] unfolding t by linarith
  moreover have "(of_nat (Suc i) :: byte) \<noteq> 0" if "i \<in> I" for i
    using I [OF that] byte_inject [of "Suc i" 0] s(5) by simp
  then have "0 \<notin> ?X" by fastforce
  ultimately have "\<exists>r. length r = t' - 1 \<and> (\<forall>x \<in> ?X. evalPoly (coefficients t' (secret' ! b) r) x =
      evalPoly (coefficients t' (secret ! b) (random b)) x)" for b
    by (intro coefficients_exist) simp_all
  then obtain random' where r: "length (random' b) = t' - 1" "x \<in> ?X \<Longrightarrow> evalPoly (coefficients t' (secret' ! b) (random' b)) x =
      evalPoly (coefficients t' (secret ! b) (random b)) x" for b x
    by metis
  have "share_at random' secret' t' (Suc i) = share_at random secret t' (Suc i)" if "i \<in> I" for i
    unfolding share_at_def using r(2) that assms(5) by simp
  moreover have "shares ! i = share_at random secret t' (Suc i)" "map (share_at random' secret' t') [1..<Suc n] ! i = share_at random' secret' t' (Suc i)"
    if "i \<in> I" for i using I [OF that] unfolding s(7) by (simp_all del: upt_Suc)
  moreover have "split random' secret' threshold number = Inr (map (share_at random' secret' t') [1..<Suc n])"
    unfolding split_Inr using s assms(5) by (intro exI [of _ t'] exI [of _ n]) auto
  ultimately show ?thesis using r(1) unfolding t by (intro exI [of _ random'] exI conjI) auto
qed

theorem quorum_hides_witness:
  "\<exists>random' shares'. split random' [0, 0] (Fin 2) (Fin 3) = Inr shares' \<and> shares' ! 0 = share_at (\<lambda>_. [7]) [42, 1] 2 1"
  using quorum_hides [OF sample_split, of 2 "{0}" "[0, 0]"] by auto

end
