(* ===== verification/Spec2Isabelle.thy ===== *)
theory Spec2Isabelle
  imports Coalition_Accounts Release_Guarantees Quorum
begin

text \<open>
  A verification development of two parts of Blackout: the coalition network of
  its API (\<^verbatim>\<open>packages/api/src/services\<close>, with the domain rules of
  \<^verbatim>\<open>packages/core/src\<close>), and the protocol of sealed releases
  (\<^verbatim>\<open>packages/blackout-protocol/src/release\<close>, with the primitives of
  \<^verbatim>\<open>deaddrop/crypto\<close> it uses). Paths below are relative to \<^verbatim>\<open>src/\<close>.

  \<^bold>\<open>Conventions.\<close> Identifiers keep the source's names; fields of a record carry a
  two-letter prefix. Time, random ids and random bytes are arguments. A service
  operation takes the database and returns its result with the new database; a
  thrown error is an \<open>Inl\<close>. Work that the code starts and does not wait for
  (\<^verbatim>\<open>void\<close> calls, HTTP posts) is a list of effects. A JavaScript \<^verbatim>\<open>Map\<close> is an
  association list in insertion order, a number is \<open>js_number\<close> (finite rationals,
  infinities, NaN), money is \<open>int\<close> cents, bytes are \<open>8 word list\<close>, and text that
  reaches an encoder is \<open>16 word list\<close> (UTF-16 code units).

  \<^bold>\<open>Foundations.\<close> \<open>Blackout_Prelude\<close> (rounding, sorting, option lemmas), \<open>JS_Map\<close>,
  \<open>JS_String\<close>, \<open>JS_Value\<close> and \<open>JS_Date\<close> model what the code uses of the language.
  \<open>Transition_Systems\<close> has the locales of step relations, invariants and refinement
  that the coalition theories interpret on the model's own steps.

  \<^bold>\<open>Coalitions.\<close>
  \<^item> \<open>Coalition_Network\<close>, \<open>Coalition_Platforms\<close>, \<open>Campaign_Domain\<close>, \<open>Marketplace_Fees\<close>,
    \<open>Payee_Allocation\<close>, \<open>Reputation\<close>: the pure rules of \<^verbatim>\<open>coalition/coalitionNetwork.ts\<close>,
    \<^verbatim>\<open>marketplace/fees.ts\<close>, \<^verbatim>\<open>reputation/index.ts\<close> and \<^verbatim>\<open>governance/index.ts\<close>: roles and
    permissions, the campaign status graph, commission splits, the allocation of cents
    to payees (exact, and within a cent of each share), deduplicated reputation.
  \<^item> \<open>Coalition_Db\<close> is the part of \<^verbatim>\<open>db/store.ts\<close> these services use;
    \<open>User_Identity\<close>, \<open>Tips\<close> and \<open>Tip_Capture\<close> are \<^verbatim>\<open>services/userIdentity.ts\<close> and
    \<^verbatim>\<open>services/tips.ts\<close>.
  \<^item> \<open>Coalition_Join\<close>, \<open>Coalition_Lifecycle\<close>, \<open>Coalition_Membership\<close>,
    \<open>Coalition_Campaigns\<close>, \<open>Coalition_Views\<close>, \<open>Coalition_Drives\<close>: every exported
    operation of \<^verbatim>\<open>services/coalitionNetworkStore.ts\<close>, \<^verbatim>\<open>coalitionJoinRequirements.ts\<close> and
    \<^verbatim>\<open>coalitionDrives.ts\<close>. Publishing and withdrawing a listing are split where they
    await the provider, so other steps can run in between.
  \<^item> \<open>Coalition_Roster\<close> is the abstract membership protocol, and \<open>Coalition_System\<close> the
    inductive step relation of the whole service. \<open>Coalition_Invariants\<close> and
    \<open>Coalition_Safety\<close> prove, by rule induction over it, that a coalition has at most
    one founder, that the roster refines the abstract protocol, that slugs and
    petitions are orderly, and how a founder can be lost. \<open>Campaign_History\<close> and
    \<open>Coalition_Accounts\<close> add money: totals equal the ledger, each ledger row is backed
    by a tip, campaigns move along the status graph only.

  \<^bold>\<open>Releases.\<close>
  \<^item> \<open>Byte_Codec\<close>, \<open>Utf8\<close>, \<open>Padding\<close>: \<^verbatim>\<open>deaddrop/crypto/encoding.ts\<close>, \<^verbatim>\<open>release/bytes.ts\<close>,
    \<^verbatim>\<open>padding.ts\<close>; one accepted text per value, round trips, bucket sizes.
  \<^item> \<open>Key_Forms\<close>: the byte-wise checks of \<^verbatim>\<open>release/identity.ts\<close>, proved to be range
    checks on the encoded numbers.
  \<^item> \<open>Release_Crypto\<close>: WebCrypto and the KEM provider as a record \<open>Crypto\<close> of functions.
    They are code the repository does not contain, so every definition takes the
    record as an argument, and \<open>Hybrid_Seal\<close> states the laws of the primitives
    (\<open>aes_lawful\<close>, \<open>x25519_pair\<close>, \<open>kem_pair\<close>, \<open>ed25519_pair\<close> and the like), which
    theorems name as hypotheses. \<open>Release_Guarantees\<close> has a provider that satisfies
    them.
  \<^item> \<open>Release_Identity\<close>, \<open>Hybrid_Seal\<close>, \<open>Release_Key_Set\<close>, \<open>Release_Format\<close>,
    \<open>Release_Envelope\<close>: \<^verbatim>\<open>release/identity.ts\<close>, \<^verbatim>\<open>deaddrop/crypto/hybridSeal.ts\<close>,
    \<^verbatim>\<open>release/keySet.ts\<close> and \<^verbatim>\<open>release/envelope.ts\<close>, with specifications of the
    accepting branches (\<open>identity_sound\<close>, \<open>envelope_wf\<close>, \<open>copy_authentic\<close>,
    \<open>content_key\<close>) and proofs that the code accepts exactly what they describe.
  \<^item> \<open>Release_Protocol\<close>, \<open>Release_Delivery\<close>, \<open>Release_Guarantees\<close>: sealing composed with
    opening. What is built opens for everyone it names; what is shown was signed by the
    owner for this reader; opening never throws; a build succeeds; re-sealing passes
    on the key of the named release only.
  \<^item> \<open>Galois_Field\<close>, \<open>Interpolation\<close>, \<open>Quorum\<close>: the secret sharing of
    \<^verbatim>\<open>deaddrop/crypto/quorum.ts\<close>. The tables make a field (an instance of the library's
    class), multiplication through them is polynomial multiplication, any quorum of
    shares recovers the secret and fewer shares say nothing about it.

  \<^bold>\<open>Termination and bounds.\<close> All definitions are total functions and none takes
  fuel. The unbounded slug search ends by a measure on the slugs that are taken, and is
  proved to end with a free slug; the other scans and loops recurse on lists or on a
  decreasing count. Machine
  integers are kept at their width where the code relies on it (bytes, table
  look-ups); cents and counters stay far below \<open>2^53\<close> and are unbounded.

  \<^bold>\<open>Not modelled.\<close> HTTP routes, sessions and the browser, mobile and legacy clients
  (plumbing and rendering around the services); the Synapse fork under
  \<^verbatim>\<open>apps/blackout-server\<close> and the bridge processes (third-party code and network I/O);
  persistence of the store to PostgreSQL; the services of the API that take no part in
  the flows above (feeds, moderation, notifications, forums, voice, and their tables);
  the contract modules of \<^verbatim>\<open>blackout-protocol\<close> that only declare types and event names;
  the clearing of key buffers; concurrency inside one handler, apart from the listing
  steps, since handlers run to their first \<^verbatim>\<open>await\<close> without interruption and the store is
  in memory.
\<close>

end
